(* ===== verification/Pulse_Prelude.thy ===== *)
theory Pulse_Prelude
  imports Main
    "HOL-Library.Word"
    "HOL-Library.Finite_Map"
    "HOL-Library.List_Lexorder"
    "HOL-Library.Char_ord"
    "HOL-Library.Multiset"
    "HOL-Library.Code_Target_Nat"
begin

text \<open>
  Shared vocabulary of the development.

  Go values are represented as follows.  A \<^verbatim>\<open>string\<close> and a \<^verbatim>\<open>[]byte\<close> are both a list of
  bytes, and \<^typ>\<open>char\<close> is HOL's type of bytes, so both are \<^typ>\<open>string\<close>; the order of
  \<^theory_text>\<open>List_Lexorder\<close> over \<^theory_text>\<open>Char_ord\<close> is Go's bytewise \<^verbatim>\<open><\<close> on strings.  \<^verbatim>\<open>uint32\<close> and
  \<^verbatim>\<open>uint64\<close> are words of that width.  A Go \<^verbatim>\<open>map\<close> is a finite map, with \<open>fmlen\<close> for
  \<^verbatim>\<open>len\<close>.  A call that may fail returns a sum whose left component is the error.

  The theory holds the loop combinators (counting loops over \<^verbatim>\<open>uint32\<close>, loops that may
  return early), their equations, and the generic facts on sorted lists, maps and sums that
  the components share.
\<close>

unbundle bit_operations_syntax

type_synonym u8 = "8 word"
type_synonym u32 = "32 word"
type_synonym u64 = "64 word"
type_synonym bytes = string

named_theorems loop_simps \<open>equations that turn the loop combinators into folds\<close>

subsection \<open>Signed machine integers\<close>

text \<open>\<^verbatim>\<open>int\<close> and \<^verbatim>\<open>time.Duration\<close> are 64-bit: the range, and what arithmetic leaves of a result outside it.\<close>

definition int64 :: "int \<Rightarrow> bool" where
  "int64 i \<longleftrightarrow> - (2 ^ 63) \<le> i \<and> i < 2 ^ 63"

definition wrap64 :: "int \<Rightarrow> int" where
  "wrap64 i = (i + 2 ^ 63) mod 2 ^ 64 - 2 ^ 63"

lemma wrap64_int64: "int64 i \<Longrightarrow> wrap64 i = i"
  by (simp add: int64_def wrap64_def)

lemma int64_wrap64 [simp]: "int64 (wrap64 i)"
  using pos_mod_bound [of "2 ^ 64" "i + 2 ^ 63"] by (simp add: int64_def wrap64_def)

subsection \<open>Loops\<close>

lemma unat_plus_one_less:
  fixes i n :: "'w::len word"
  assumes "i < n"
  shows "unat (i + 1) = Suc (unat i)"
proof -
  have "Suc (unat i) \<le> unat n"
    using assms by (simp add: word_less_nat_alt)
  also have "unat n < 2 ^ LENGTH('w)"
    by (rule unsigned_less)
  finally show ?thesis
    by (simp add: unat_word_ariths)
qed

lemma unat_of_nat_below:
  assumes "k < unat (n :: 'w::len word)"
  shows "unat (word_of_nat k :: 'w word) = k"
  using assms less_trans [OF assms unsigned_less] by (simp add: unat_of_nat)

text \<open>\<^verbatim>\<open>for i := lo; i < n; i++\<close> over \<^verbatim>\<open>uint32\<close>, with the loop body threading its state.\<close>

function for_u32 :: "(u32 \<Rightarrow> 'a \<Rightarrow> 'a) \<Rightarrow> u32 \<Rightarrow> u32 \<Rightarrow> 'a \<Rightarrow> 'a" where
  "for_u32 f i n a = (if i < n then for_u32 f (i + 1) n (f i a) else a)"
  by pat_completeness auto
termination
  by (relation "measure (\<lambda>(f, i, n, a). unat n - unat i)")
    (auto simp: unat_plus_one_less word_less_nat_alt)

text \<open>The same loop whose body may return from the enclosing function with an error.\<close>

function for_u32E :: "(u32 \<Rightarrow> 'a \<Rightarrow> 'e + 'a) \<Rightarrow> u32 \<Rightarrow> u32 \<Rightarrow> 'a \<Rightarrow> 'e + 'a" where
  "for_u32E f i n a =
     (if i < n then (case f i a of Inl e \<Rightarrow> Inl e | Inr b \<Rightarrow> for_u32E f (i + 1) n b) else Inr a)"
  by pat_completeness auto
termination
  by (relation "measure (\<lambda>(f, i, n, a). unat n - unat i)")
    (auto simp: unat_plus_one_less word_less_nat_alt)

declare for_u32.simps [simp del]
declare for_u32E.simps [simp del]

text \<open>\<^verbatim>\<open>for _, x := range xs\<close> with an early error return.\<close>

fun foldE :: "('x \<Rightarrow> 'a \<Rightarrow> 'e + 'a) \<Rightarrow> 'x list \<Rightarrow> 'a \<Rightarrow> 'e + 'a" where
  "foldE f [] a = Inr a"
| "foldE f (x # xs) a = (case f x a of Inl e \<Rightarrow> Inl e | Inr b \<Rightarrow> foldE f xs b)"

text \<open>The values a \<^verbatim>\<open>uint32\<close> counter takes below \<open>n\<close>.\<close>

definition upto_u32 :: "u32 \<Rightarrow> u32 list" where
  "upto_u32 n = map word_of_nat [0..<unat n]"

subsection \<open>Maps\<close>

definition fmlen :: "('k, 'v) fmap \<Rightarrow> nat" where
  "fmlen m = fcard (fmdom m)"

text \<open>\<^verbatim>\<open>m[k]\<close> on a map of strings: the zero value when the key is absent.\<close>

definition fmget :: "('k, string) fmap \<Rightarrow> 'k \<Rightarrow> string" where
  "fmget m k = (case fmlookup m k of None \<Rightarrow> [] | Some v \<Rightarrow> v)"

subsection \<open>Lemmas on the loops\<close>

lemma upt_unat_Cons:
  fixes i n :: "'w::len word"
  assumes "i < n"
  shows "[unat i..<unat n] = unat i # [unat (i + 1)..<unat n]"
  using assms by (simp add: unat_plus_one_less upt_conv_Cons word_less_nat_alt)

lemma for_u32_fold_from:
  "for_u32 f i n a = fold f (map word_of_nat [unat i..<unat n]) a"
proof (induction f i n a rule: for_u32.induct)
  case (1 f i n a)
  show ?case
  proof (cases "i < n")
    case True
    then have "for_u32 f i n a = for_u32 f (i + 1) n (f i a)"
      by (subst for_u32.simps) simp
    also have "\<dots> = fold f (map word_of_nat [unat (i + 1)..<unat n]) (f i a)"
      by (rule 1 [OF True])
    finally show ?thesis
      by (simp only: upt_unat_Cons [OF True] list.map fold_simps foldE.simps of_nat_unat ucast_id)
  next
    case False
    then show ?thesis
      by (subst for_u32.simps) (simp add: word_less_nat_alt)
  qed
qed

lemma for_u32_fold [loop_simps]: "for_u32 f 0 n a = fold f (upto_u32 n) a"
  by (simp add: for_u32_fold_from upto_u32_def)

lemma for_u32E_foldE_from:
  "for_u32E f i n a = foldE f (map word_of_nat [unat i..<unat n]) a"
proof (induction f i n a rule: for_u32E.induct)
  case (1 f i n a)
  show ?case
  proof (cases "i < n")
    case True
    then have "for_u32E f i n a = (case f i a of Inl e \<Rightarrow> Inl e | Inr b \<Rightarrow> for_u32E f (i + 1) n b)"
      by (subst for_u32E.simps) simp
    also have "\<dots> = (case f i a of Inl e \<Rightarrow> Inl e
        | Inr b \<Rightarrow> foldE f (map word_of_nat [unat (i + 1)..<unat n]) b)"
      using 1 [OF True] by (simp split: sum.splits)
    finally show ?thesis
      by (simp only: upt_unat_Cons [OF True] list.map fold_simps foldE.simps of_nat_unat ucast_id)
  next
    case False
    then show ?thesis
      by (subst for_u32E.simps) (simp add: word_less_nat_alt)
  qed
qed

lemma for_u32E_foldE [loop_simps]: "for_u32E f 0 n a = foldE f (upto_u32 n) a"
  by (simp add: for_u32E_foldE_from upto_u32_def)

lemma set_upto_u32 [simp]: "set (upto_u32 n) = {i. i < n}"
proof -
  have "i \<in> word_of_nat ` {0..<unat n}" if "i < n" for i
    using that by (intro image_eqI [of _ _ "unat i"]) (auto simp: word_less_nat_alt)
  moreover have "word_of_nat k < n" if "k < unat n" for k
    using that by (simp add: word_less_nat_alt unat_of_nat_below)
  ultimately show ?thesis
    by (auto simp: upto_u32_def)
qed

lemma length_upto_u32 [simp]: "length (upto_u32 n) = unat n"
  by (simp add: upto_u32_def)

lemma distinct_upto_u32 [simp]: "distinct (upto_u32 n)"
proof -
  have "inj_on (word_of_nat :: nat \<Rightarrow> u32) {0..<unat n}"
    by (rule inj_on_inverseI [where g = unat]) (simp add: unat_of_nat_below)
  then show ?thesis
    by (simp add: upto_u32_def distinct_map)
qed

lemma foldE_append:
  "foldE f (xs @ ys) a = (case foldE f xs a of Inl e \<Rightarrow> Inl e | Inr b \<Rightarrow> foldE f ys b)"
  by (induction xs arbitrary: a) (auto split: sum.splits)

lemma foldE_invariant:
  assumes "foldE f xs a = Inr b" and "I a"
    and "\<And>x a b. x \<in> set xs \<Longrightarrow> I a \<Longrightarrow> f x a = Inr b \<Longrightarrow> I b"
  shows "I b"
  using assms
proof (induction xs arbitrary: a)
  case (Cons x xs)
  then obtain c where c: "f x a = Inr c" "foldE f xs c = Inr b"
    by (auto split: sum.splits)
  have "I c"
    by (rule Cons.prems(3) [of x a c]) (use Cons.prems(2) c in simp_all)
  show ?case
    using Cons.IH [OF c(2) \<open>I c\<close>] Cons.prems(3) by (meson list.set_intros(2))
qed simp

lemma foldE_total:
  assumes "\<And>x a. x \<in> set xs \<Longrightarrow> f x a = Inr (g x a)"
  shows "foldE f xs a = Inr (fold g xs a)"
  using assms by (induction xs arbitrary: a) auto

lemma foldE_snoc:
  "foldE f (xs @ [x]) a = Inr b \<longleftrightarrow> (\<exists>c. foldE f xs a = Inr c \<and> f x c = Inr b)"
  by (auto simp: foldE_append split: sum.split)

lemma foldE_iff:
  assumes "\<And>x a b. x \<in> set xs \<Longrightarrow> f x a = Inr b \<longleftrightarrow> ok x \<and> b = g x a"
  shows "foldE f xs a = Inr b \<longleftrightarrow> list_all ok xs \<and> b = fold g xs a"
  using assms
proof (induction xs arbitrary: a)
  case (Cons x xs)
  have IH: "foldE f xs a = Inr b \<longleftrightarrow> list_all ok xs \<and> b = fold g xs a" for a
    using Cons by simp
  have step: "f x a = Inr c \<longleftrightarrow> ok x \<and> c = g x a" for c
    by (rule Cons.prems) simp
  show ?case
  proof (cases "f x a")
    case (Inl e)
    then show ?thesis
      using step [of "g x a"] by simp
  next
    case (Inr c)
    then show ?thesis
      using step [of c] by (simp add: IH)
  qed
qed auto

lemma fold_concat_map: "fold (\<lambda>x h. h @ g x) xs h = h @ concat (map g xs)"
  by (induction xs arbitrary: h) simp_all

subsection \<open>Lemmas on maps\<close>

lemma fmap_eqI:
  assumes "\<And>k v. fmlookup m k = Some v \<longleftrightarrow> fmlookup m' k = Some v"
  shows "m = m'"
proof (rule fmap_ext)
  show "fmlookup m k = fmlookup m' k" for k
    using assms [of k] by (metis option.exhaust)
qed

lemma fmmap_ident: "fmmap (\<lambda>v. v) m = m"
  by (rule fmap_ext) (simp add: option.map_ident)

lemma fold_fmupd_lookup:
  "fmlookup (fold (\<lambda>k. fmupd k (g k)) ks m) x = (if x \<in> set ks then Some (g x) else fmlookup m x)"
  by (induction ks arbitrary: m) auto

lemma fmlen_empty [simp]: "fmlen fmempty = 0"
  by (simp add: fmlen_def)

lemma fmlen_eq_0 [simp]: "fmlen m = 0 \<longleftrightarrow> m = fmempty"
proof
  assume "fmlen m = 0"
  then have "fmdom m = {||}"
    by (simp add: fmlen_def)
  then show "m = fmempty"
    by (intro fmap_ext) (auto intro: fmdom_notD)
qed simp

lemma fmlen_upd: "fmlen (fmupd k v m) = (if k |\<in>| fmdom m then fmlen m else Suc (fmlen m))"
  by (simp add: fmlen_def fcard_finsert_if)

lemma fmlen_card: "fmlen m = card (fmdom' m)"
  by (simp add: fmlen_def fmdom'_alt_def fcard.rep_eq)

lemma fmdom'_by_lookup: "fmdom' m = {k. \<exists>v. fmlookup m k = Some v}"
  by (auto simp: fmlookup_dom'_iff)

lemma fmlen_upto:
  assumes "\<And>s. fmlookup m s \<noteq> None \<longleftrightarrow> s < (n :: u32)"
  shows "fmlen m = unat n"
proof -
  have "fmdom' m = set (upto_u32 n)"
    using assms by (auto simp: fmdom'_by_lookup)
  then show ?thesis
    by (metis distinct_card distinct_upto_u32 fmlen_card length_upto_u32)
qed

subsection \<open>Lemmas on sorted lists\<close>

lemma take_insort_take:
  fixes x :: "'a::linorder"
  assumes "sorted xs"
  shows "take k (insort x (take k xs)) = take k (insort x xs)"
  using assms
proof (induction xs arbitrary: k)
  case (Cons y ys)
  then show ?case
    by (cases k) (auto simp: take_Cons')
qed simp

lemma insort_snoc:
  fixes x :: "'a::linorder"
  assumes "sorted xs" and "\<And>y. y \<in> set xs \<Longrightarrow> y \<le> x"
  shows "insort x xs = xs @ [x]"
proof -
  have "sorted (xs @ [x])" "sorted (insort x xs)"
    using assms by (auto simp: sorted_append sorted_insort)
  then have "sort (x # xs) = xs @ [x]" "sort (x # xs) = insort x xs"
    by (intro properties_for_sort; simp)+
  then show ?thesis
    by simp
qed

lemma sorted_le_last: "sorted xs \<Longrightarrow> y \<in> set xs \<Longrightarrow> y \<le> last xs"
  for y :: "'a::linorder"
  by (induction xs) auto

lemma insort_last_ge:
  fixes x :: "'a::linorder"
  assumes "sorted xs" and "last xs \<le> x"
  shows "take (length xs) (insort x xs) = xs"
proof -
  have "y \<le> x" if "y \<in> set xs" for y
    using sorted_le_last [OF assms(1) that] assms(2) by simp
  then show ?thesis
    using assms(1) by (simp add: insort_snoc)
qed

lemma take_min_cong:
  assumes "min i (length xs) = min j (length xs)"
  shows "take i xs = take j xs"
proof -
  have "take k xs = take (min k (length xs)) xs" for k
    by (simp add: min_def)
  then show ?thesis
    using assms by metis
qed

lemma sort_snoc: "sort (xs @ [x]) = insort x (sort xs)" for x :: "'a::linorder"
  by (rule properties_for_sort) (auto simp: sorted_insort)

lemma sort_mset_cong: "mset xs = mset ys \<Longrightarrow> sort xs = sort ys"
  for xs :: "'a::linorder list"
  by (metis mset_sort properties_for_sort sorted_sort)

lemma sort_remove1: "sort (remove1 x xs) = remove1 x (sort xs)"
  for x :: "'a::linorder"
  by (rule properties_for_sort) (auto simp: sorted_remove1)

lemma sort_filter: "sort (filter P xs) = filter P (sort xs)"
  for xs :: "'a::linorder list"
  by (rule properties_for_sort) (auto simp: sorted_filter [where f = "\<lambda>x. x", simplified])

end
