(* ===== verification/Go_Hash.thy ===== *)
theory Go_Hash
  imports Pulse_Prelude
begin

text \<open>
  The hash functions of Go's standard library that the program calls, on byte strings:
  \<^verbatim>\<open>hash/fnv\<close>'s 64-bit FNV-1a, \<^verbatim>\<open>crypto/sha256\<close> as FIPS 180-4 describes it, and
  \<^verbatim>\<open>binary.BigEndian.PutUint32\<close>.  The lemmas give what the callers rely on: a fixed digest
  length, and that the four-byte encoding of a \<^verbatim>\<open>uint32\<close> is injective.
\<close>

subsection \<open>FNV-1a\<close>

definition fnv64a_offset :: u64 where
  "fnv64a_offset = 14695981039346656037"

definition fnv64a_prime :: u64 where
  "fnv64a_prime = 1099511628211"

definition fnv64a_byte :: "char \<Rightarrow> u64 \<Rightarrow> u64" where
  "fnv64a_byte c h = (h XOR of_char c) * fnv64a_prime"

definition fnv64a :: "bytes \<Rightarrow> u64" where
  "fnv64a bs = fold fnv64a_byte bs fnv64a_offset"

subsection \<open>Big-endian integers\<close>

definition be32 :: "u32 \<Rightarrow> bytes" where
  "be32 v = [char_of (unat (drop_bit 24 v)), char_of (unat (drop_bit 16 v)),
             char_of (unat (drop_bit 8 v)), char_of (unat v)]"

definition be64 :: "u64 \<Rightarrow> bytes" where
  "be64 v = map (\<lambda>i. char_of (unat (drop_bit (56 - 8 * i) v))) [0..<8]"

text \<open>The value of a big-endian byte string, for reading \<open>be32\<close> back.\<close>

definition be_val :: "bytes \<Rightarrow> nat" where
  "be_val bs = fold (\<lambda>c a. a * 256 + of_char c) bs 0"

subsection \<open>SHA-256\<close>

definition sha256_k :: "u32 list" where
  "sha256_k = [
    1116352408, 1899447441, 3049323471, 3921009573,
    961987163, 1508970993, 2453635748, 2870763221,
    3624381080, 310598401, 607225278, 1426881987,
    1925078388, 2162078206, 2614888103, 3248222580,
    3835390401, 4022224774, 264347078, 604807628,
    770255983, 1249150122, 1555081692, 1996064986,
    2554220882, 2821834349, 2952996808, 3210313671,
    3336571891, 3584528711, 113926993, 338241895,
    666307205, 773529912, 1294757372, 1396182291,
    1695183700, 1986661051, 2177026350, 2456956037,
    2730485921, 2820302411, 3259730800, 3345764771,
    3516065817, 3600352804, 4094571909, 275423344,
    430227734, 506948616, 659060556, 883997877,
    958139571, 1322822218, 1537002063, 1747873779,
    1955562222, 2024104815, 2227730452, 2361852424,
    2428436474, 2756734187, 3204031479, 3329325298  ]"

type_synonym sha_state = "u32 \<times> u32 \<times> u32 \<times> u32 \<times> u32 \<times> u32 \<times> u32 \<times> u32"

definition sha256_init :: sha_state where
  "sha256_init = (1779033703, 3144134277, 1013904242, 2773480762, 1359893119, 2600822924, 528734635, 1541459225)"

definition sha_ssig0 :: "u32 \<Rightarrow> u32" where
  "sha_ssig0 x = word_rotr 7 x XOR word_rotr 18 x XOR drop_bit 3 x"

definition sha_ssig1 :: "u32 \<Rightarrow> u32" where
  "sha_ssig1 x = word_rotr 17 x XOR word_rotr 19 x XOR drop_bit 10 x"

definition sha_bsig0 :: "u32 \<Rightarrow> u32" where
  "sha_bsig0 x = word_rotr 2 x XOR word_rotr 13 x XOR word_rotr 22 x"

definition sha_bsig1 :: "u32 \<Rightarrow> u32" where
  "sha_bsig1 x = word_rotr 6 x XOR word_rotr 11 x XOR word_rotr 25 x"

definition sha_word :: "bytes \<Rightarrow> nat \<Rightarrow> u32" where
  "sha_word block t = word_of_nat (be_val (take 4 (drop (4 * t) block)))"

definition sha_schedule :: "bytes \<Rightarrow> u32 list" where
  "sha_schedule block =
     fold (\<lambda>t w. w @ [sha_ssig1 (w ! (t - 2)) + w ! (t - 7) + sha_ssig0 (w ! (t - 15)) + w ! (t - 16)])
       [16..<64] (map (sha_word block) [0..<16])"

fun sha_round :: "u32 \<times> u32 \<Rightarrow> sha_state \<Rightarrow> sha_state" where
  "sha_round (k, w) (a, b, c, d, e, f, g, h) =
     (let t1 = h + sha_bsig1 e + ((e AND f) XOR (NOT e AND g)) + k + w;
          t2 = sha_bsig0 a + ((a AND b) XOR (a AND c) XOR (b AND c))
      in (t1 + t2, a, b, c, d + t1, e, f, g))"

fun sha_add :: "sha_state \<Rightarrow> sha_state \<Rightarrow> sha_state" where
  "sha_add (a, b, c, d, e, f, g, h) (a', b', c', d', e', f', g', h') =
     (a + a', b + b', c + c', d + d', e + e', f + f', g + g', h + h')"

fun sha_digest :: "sha_state \<Rightarrow> bytes" where
  "sha_digest (a, b, c, d, e, f, g, h) =
     be32 a @ be32 b @ be32 c @ be32 d @ be32 e @ be32 f @ be32 g @ be32 h"

definition sha_block :: "bytes \<Rightarrow> sha_state \<Rightarrow> sha_state" where
  "sha_block block hs = sha_add hs (fold sha_round (zip sha256_k (sha_schedule block)) hs)"

definition sha_pad :: "bytes \<Rightarrow> bytes" where
  "sha_pad bs =
     bs @ [char_of (128 :: nat)] @ replicate ((119 - length bs mod 64) mod 64) (char_of (0 :: nat))
     @ be64 (word_of_nat (8 * length bs))"

definition sha256 :: "bytes \<Rightarrow> bytes" where
  "sha256 bs =
     (let p = sha_pad bs
      in sha_digest (fold (\<lambda>i. sha_block (take 64 (drop (64 * i) p))) [0..<length p div 64]
           sha256_init))"

subsection \<open>Lemmas\<close>

lemma length_be32 [simp]: "length (be32 v) = 4"
  by (simp add: be32_def)

lemma nat_base_256:
  fixes x :: nat
  shows "((x div 16777216 * 256 + x div 65536 mod 256) * 256 + x div 256 mod 256) * 256 + x mod 256 = x"
proof -
  have "x div 16777216 = x div 65536 div 256" "x div 65536 = x div 256 div 256"
    by (simp_all flip: div_mult2_eq)
  then show ?thesis
    by (simp only: div_mult_mod_eq)
qed

lemma be_val_be32: "be_val (be32 v) = unat v"
proof -
  have less: "unat v < 4294967296"
    using unsigned_less [of v, where ?'a = nat] by simp
  then have "unat v div 16777216 mod 256 = unat v div 16777216"
    by simp
  then show ?thesis
    using nat_base_256 [of "unat v"]
    unfolding be_val_def be32_def unat_drop_bit_eq by (simp add: drop_bit_eq_div)
qed

lemma be32_inject [simp]: "be32 v = be32 w \<longleftrightarrow> v = w"
  by (metis be_val_be32 word_eq_iff_unsigned)

lemma be32_append_inject [simp]: "be32 v @ xs = be32 w @ ys \<longleftrightarrow> v = w \<and> xs = ys"
  by simp

lemma length_sha_digest [simp]: "length (sha_digest hs) = 32"
  by (cases hs rule: sha_digest.cases) simp

lemma length_sha256 [simp]: "length (sha256 bs) = 32"
  by (simp add: sha256_def Let_def)

end
