(* ===== verification/Router.thy ===== *)
theory Router
  imports Go_Hash
begin

text \<open>
  \<^verbatim>\<open>control/internal/router/router.go\<close>: the two hashes that decide where a key lives.

  \<open>ShardForKey\<close> maps a key to a shard, \<open>AssignShards\<close> gives every shard its owner by
  rendezvous hashing, and \<open>AssignShardOwners\<close> carries the same ranking further down to an
  ordered list of replicas.  Node identifiers are strings, weights are \<^verbatim>\<open>uint64\<close> words with
  Go's wrap-around, and the loops are the source's: a scan for the maximum in
  \<open>AssignShards\<close>, a bounded insertion into an array in \<open>AssignShardOwners\<close>.

  \<^verbatim>\<open>ranksBefore\<close> is a strict linear order, so \<open>rankedNode\<close> is an instance of
  the class of linear orders and both loops are described by the library's \<^const>\<open>sort\<close>: the scan is
  the head of the sorted candidates and the insertion loop a prefix of them.  The movement,
  promotion and order-independence properties follow from that description.
\<close>

subsection \<open>Hashes\<close>

definition ShardForKey :: "bytes \<Rightarrow> u32 \<Rightarrow> u32" where
  "ShardForKey key shardCount =
     (if shardCount = 0 then 0 else ucast (fnv64a key mod ucast shardCount))"

definition nodeSeed :: "string \<Rightarrow> u64" where
  "nodeSeed nodeID = fnv64a nodeID"

definition mix64 :: "u64 \<Rightarrow> u64" where
  "mix64 x0 =
     (let x1 = x0 XOR drop_bit 30 x0;
          x2 = x1 * 0xbf58476d1ce4e5b9;
          x3 = x2 XOR drop_bit 27 x2;
          x4 = x3 * 0x94d049bb133111eb
      in x4 XOR drop_bit 31 x4)"

definition weight :: "u32 \<Rightarrow> string \<Rightarrow> u64" where
  "weight shard nodeID = mix64 (nodeSeed nodeID XOR mix64 (ucast shard))"

subsection \<open>AssignShards\<close>

text \<open>One iteration of the inner loop: the best candidate so far is \<open>(bestID, bestW, found)\<close>.\<close>

fun best_step :: "u64 \<Rightarrow> string \<times> u64 \<Rightarrow> string \<times> u64 \<times> bool \<Rightarrow> string \<times> u64 \<times> bool" where
  "best_step shardSeed (nid, seed) (bestID, bestW, found) =
     (let w = mix64 (seed XOR shardSeed)
      in if \<not> found \<or> w > bestW \<or> (w = bestW \<and> nid < bestID) then (nid, w, True)
         else (bestID, bestW, found))"

definition best_of :: "(string \<times> u64) list \<Rightarrow> u32 \<Rightarrow> string" where
  "best_of seeded shard = fst (fold (best_step (mix64 (ucast shard))) seeded ([], 0, False))"

definition AssignShards :: "string list \<Rightarrow> u32 \<Rightarrow> (u32, string) fmap" where
  "AssignShards nodeIDs shardCount =
     (if nodeIDs = [] \<or> shardCount = 0 then fmempty
      else let seeds = map nodeSeed nodeIDs
           in for_u32 (\<lambda>shard. fmupd shard (best_of (zip nodeIDs seeds) shard)) 0 shardCount fmempty)"

subsection \<open>AssignShardOwners\<close>

datatype ShardOwners = ShardOwners (Primary: string) (Replicas: "string list")

datatype rankedNode = RankedNode (rn_id: string) (rn_weight: u64)

fun ranksBefore :: "rankedNode \<Rightarrow> rankedNode \<Rightarrow> bool" where
  "ranksBefore (RankedNode ida wa) (RankedNode idb wb) \<longleftrightarrow> wa > wb \<or> (wa = wb \<and> ida < idb)"

text \<open>
  The inner \<^verbatim>\<open>for position > 0 && ranksBefore(...)\<close> loop: entries are shifted one place
  right until the candidate's position is found, where it is stored.
\<close>

fun shift_into :: "rankedNode \<Rightarrow> nat \<Rightarrow> rankedNode list \<Rightarrow> rankedNode list" where
  "shift_into cand 0 ranked = ranked[0 := cand]"
| "shift_into cand (Suc p) ranked =
     (if ranksBefore cand (ranked ! p) then shift_into cand p (ranked[Suc p := ranked ! p])
      else ranked[Suc p := cand])"

definition top_step :: "nat \<Rightarrow> u64 \<Rightarrow> string \<times> u64 \<Rightarrow> rankedNode list \<Rightarrow> rankedNode list" where
  "top_step wanted shardSeed = (\<lambda>(nid, seed) ranked.
     let cand = RankedNode nid (mix64 (seed XOR shardSeed))
     in if length ranked = wanted \<and> \<not> ranksBefore cand (ranked ! (length ranked - 1)) then ranked
        else let grown = (if length ranked < wanted then ranked @ [RankedNode [] 0] else ranked)
             in shift_into cand (length grown - 1) grown)"

definition owners_of :: "(string \<times> u64) list \<Rightarrow> nat \<Rightarrow> u32 \<Rightarrow> ShardOwners" where
  "owners_of seeded wanted shard =
     (let ranked = fold (top_step wanted (mix64 (ucast shard))) seeded []
      in ShardOwners (rn_id (ranked ! 0)) (if length ranked > 1 then map rn_id (tl ranked) else []))"

definition AssignShardOwners :: "string list \<Rightarrow> u32 \<Rightarrow> int \<Rightarrow> (u32, ShardOwners) fmap" where
  "AssignShardOwners nodeIDs shardCount replicaFactor =
     (if nodeIDs = [] \<or> shardCount = 0 then fmempty
      else let replicaFactor = (if replicaFactor < 0 then 0 else replicaFactor);
               seeds = map nodeSeed nodeIDs;
               wanted = (let w = replicaFactor + 1
                         in if w > int (length nodeIDs) then int (length nodeIDs) else w)
           in for_u32 (\<lambda>shard. fmupd shard (owners_of (zip nodeIDs seeds) (nat wanted) shard))
                0 shardCount fmempty)"

definition PrimaryMap :: "(u32, ShardOwners) fmap \<Rightarrow> (u32, string) fmap" where
  "PrimaryMap owners = fmmap Primary owners"

definition OwnerForKey :: "bytes \<Rightarrow> u32 \<Rightarrow> (u32, string) fmap \<Rightarrow> string \<times> bool" where
  "OwnerForKey key shardCount shardMap =
     (case fmlookup shardMap (ShardForKey key shardCount) of
        None \<Rightarrow> ([], False)
      | Some nodeID \<Rightarrow> (nodeID, nodeID \<noteq> []))"

subsection \<open>The ranking as a linear order\<close>

instantiation rankedNode :: linorder
begin

definition less_rankedNode :: "rankedNode \<Rightarrow> rankedNode \<Rightarrow> bool" where
  "less_rankedNode a b = ranksBefore a b"

definition less_eq_rankedNode :: "rankedNode \<Rightarrow> rankedNode \<Rightarrow> bool" where
  "less_eq_rankedNode a b = (a = b \<or> ranksBefore a b)"

instance
proof
  fix x y z :: rankedNode
  show "x < y \<longleftrightarrow> x \<le> y \<and> \<not> y \<le> x"
    by (cases x; cases y) (auto simp: less_rankedNode_def less_eq_rankedNode_def)
  show "x \<le> x"
    by (simp add: less_eq_rankedNode_def)
  show "x \<le> y \<Longrightarrow> y \<le> z \<Longrightarrow> x \<le> z"
    by (cases x; cases y; cases z) (auto simp: less_eq_rankedNode_def)
  show "x \<le> y \<Longrightarrow> y \<le> x \<Longrightarrow> x = y"
    by (cases x; cases y) (auto simp: less_eq_rankedNode_def)
  show "x \<le> y \<or> y \<le> x"
    by (cases x; cases y) (auto simp: less_eq_rankedNode_def)
qed

end

text \<open>The candidates of a shard, and the specification of both placements: the sorted ranking.\<close>

definition candidate :: "u32 \<Rightarrow> string \<Rightarrow> rankedNode" where
  "candidate shard nid = RankedNode nid (weight shard nid)"

definition ranking :: "u32 \<Rightarrow> string list \<Rightarrow> string list" where
  "ranking shard nodeIDs = map rn_id (sort (map (candidate shard) nodeIDs))"

subsection \<open>The loops compute the ranking\<close>

lemma rankedNode_less_iff [simp]: "ranksBefore a b \<longleftrightarrow> a < b"
  by (simp add: less_rankedNode_def)

lemma RankedNode_less:
  "RankedNode ida wa < RankedNode idb wb \<longleftrightarrow> wa > wb \<or> (wa = wb \<and> ida < idb)"
  by (simp add: less_rankedNode_def del: rankedNode_less_iff)

lemma rn_id_candidate [simp]: "rn_id (candidate shard nid) = nid"
  by (simp add: candidate_def)

lemma inj_candidate: "inj (candidate shard)"
  by (rule injI) (simp add: candidate_def)

lemma insort_append_less:
  fixes c :: "'a::linorder"
  assumes "c < x"
  shows "insort c (ys @ [x]) = insort c ys @ [x]"
  using assms by (induction ys) auto

lemma shift_into_sorted:
  assumes "sorted ys"
  shows "shift_into c (length ys) (ys @ d # rest) = insort c ys @ rest"
  using assms
proof (induction ys arbitrary: d rest rule: rev_induct)
  case (snoc x ys)
  then have sorted: "sorted ys" "\<And>y. y \<in> set (ys @ [x]) \<Longrightarrow> y \<le> x"
    by (auto simp: sorted_append)
  show ?case
  proof (cases "c < x")
    case True
    then show ?thesis
      using snoc.IH [OF sorted(1), of x "x # rest"]
      by (simp add: nth_append list_update_append insort_append_less)
  next
    case False
    then have "y \<le> c" if "y \<in> set (ys @ [x])" for y
      using sorted(2) [OF that] by simp
    then have "insort c (ys @ [x]) = (ys @ [x]) @ [c]"
      by (rule insort_snoc [OF snoc.prems])
    with False show ?thesis
      by (simp add: nth_append list_update_append)
  qed
qed simp

lemma top_step_insort:
  assumes "sorted ranked" and "length ranked \<le> wanted" and "0 < wanted"
  shows "top_step wanted shardSeed (nid, seed) ranked =
    take wanted (insort (RankedNode nid (mix64 (seed XOR shardSeed))) ranked)"
proof -
  let ?c = "RankedNode nid (mix64 (seed XOR shardSeed))"
  consider (grow) "length ranked < wanted"
    | (reject) "length ranked = wanted" "\<not> ?c < last ranked"
    | (displace) "length ranked = wanted" "?c < last ranked"
    using assms(2) by fastforce
  then show ?thesis
  proof cases
    case grow
    then show ?thesis
      using shift_into_sorted [OF assms(1), of ?c _ "[]"] by (simp add: top_step_def Let_def)
  next
    case reject
    then have "ranked \<noteq> []" "last ranked \<le> ?c"
      using assms(3) by auto
    with reject show ?thesis
      using insort_last_ge [OF assms(1), of ?c]
      by (simp add: top_step_def Let_def last_conv_nth)
  next
    case displace
    then have ne: "ranked \<noteq> []"
      using assms(3) by auto
    then obtain ys x where ranked: "ranked = ys @ [x]"
      by (cases ranked rule: rev_cases) auto
    with displace assms(1) show ?thesis
      using shift_into_sorted [of ys ?c x "[]"]
      by (auto simp: top_step_def Let_def sorted_append insort_append_less nth_append)
  qed
qed

definition seeded_candidate :: "u64 \<Rightarrow> string \<times> u64 \<Rightarrow> rankedNode" where
  "seeded_candidate shardSeed = (\<lambda>(nid, seed). RankedNode nid (mix64 (seed XOR shardSeed)))"

lemma fold_top_step:
  assumes "0 < wanted"
  shows "fold (top_step wanted shardSeed) seeded [] =
    take wanted (sort (map (seeded_candidate shardSeed) seeded))"
proof (induction seeded rule: rev_induct)
  case (snoc x xs)
  obtain nid seed where x: "x = (nid, seed)"
    by (cases x)
  let ?s = "sort (map (seeded_candidate shardSeed) xs)"
  have "fold (top_step wanted shardSeed) (xs @ [x]) [] =
      take wanted (insort (seeded_candidate shardSeed x) (take wanted ?s))"
    using assms snoc by (simp add: x top_step_insort seeded_candidate_def sorted_wrt_take)
  also have "\<dots> = take wanted (insort (seeded_candidate shardSeed x) ?s)"
    by (simp add: take_insort_take)
  also have "\<dots> = take wanted (sort (map (seeded_candidate shardSeed) (xs @ [x])))"
    by (simp only: map_append list.map sort_snoc)
  finally show ?case .
qed simp

lemma hd_insort: "hd (insort c xs) = (if xs = [] \<or> c < hd xs then c else hd xs)"
  for c :: "'a::linorder"
  by (cases xs) auto

lemma sort_eq_Nil [simp]: "sort xs = [] \<longleftrightarrow> xs = []"
  for xs :: "'a::linorder list"
  by (metis mset_sort mset_zero_iff)

lemma fold_best_step:
  assumes "seeded \<noteq> []"
  shows "fold (best_step shardSeed) seeded ([], 0, False) =
    (let b = hd (sort (map (seeded_candidate shardSeed) seeded)) in (rn_id b, rn_weight b, True))"
  using assms
proof (induction seeded rule: rev_induct)
  case (snoc x xs)
  obtain nid seed where x: "x = (nid, seed)"
    by (cases x)
  show ?case
  proof (cases "xs = []")
    case True
    then show ?thesis
      by (simp add: x seeded_candidate_def Let_def)
  next
    case False
    let ?s = "sort (map (seeded_candidate shardSeed) xs)"
    obtain bid bw where b: "hd ?s = RankedNode bid bw"
      by (cases "hd ?s")
    from False have "map (seeded_candidate shardSeed) (xs @ [x]) \<noteq> []" "?s \<noteq> []"
      by simp_all
    then show ?thesis
      using snoc.IH [OF False] b
      by (simp add: x Let_def sort_snoc hd_insort RankedNode_less seeded_candidate_def
          del: sort_key_simps)
  qed
qed simp

lemma seeded_candidates:
  "map (seeded_candidate (mix64 (ucast shard))) (zip nodeIDs (map nodeSeed nodeIDs)) =
    map (candidate shard) nodeIDs"
  by (induction nodeIDs) (simp_all add: seeded_candidate_def candidate_def weight_def)

lemma best_of_ranking:
  assumes "nodeIDs \<noteq> []"
  shows "best_of (zip nodeIDs (map nodeSeed nodeIDs)) shard = hd (ranking shard nodeIDs)"
proof -
  have "zip nodeIDs (map nodeSeed nodeIDs) \<noteq> []"
    using assms by (cases nodeIDs) auto
  then show ?thesis
    using assms
    by (simp add: best_of_def fold_best_step Let_def seeded_candidates ranking_def hd_map)
qed

lemma length_ranking [simp]: "length (ranking shard nodeIDs) = length nodeIDs"
  by (simp add: ranking_def)

lemma set_ranking [simp]: "set (ranking shard nodeIDs) = set nodeIDs"
  by (auto simp: ranking_def image_image)

lemma distinct_ranking [simp]: "distinct (ranking shard nodeIDs) = distinct nodeIDs"
proof -
  have "mset (ranking shard nodeIDs) = mset nodeIDs"
    by (simp add: ranking_def multiset.map_comp comp_def)
  then show ?thesis
    by (metis mset_eq_imp_distinct_iff)
qed

lemma ranking_filter: "ranking shard (filter P nodeIDs) = filter P (ranking shard nodeIDs)"
proof -
  have eq: "map (candidate shard) (filter P nodeIDs) = filter (P \<circ> rn_id) (map (candidate shard) nodeIDs)"
    by (induction nodeIDs) simp_all
  show ?thesis
    unfolding ranking_def eq sort_filter by (simp add: filter_map)
qed

lemma ranking_mset_cong: "mset xs = mset ys \<Longrightarrow> ranking shard xs = ranking shard ys"
  unfolding ranking_def by (metis mset_map sort_mset_cong)

lemma ranking_eq_Nil [simp]: "ranking shard nodeIDs = [] \<longleftrightarrow> nodeIDs = []"
  by (metis length_0_conv length_ranking)

subsection \<open>What the assignments look up\<close>

lemma AssignShards_lookup:
  "fmlookup (AssignShards nodeIDs shardCount) shard =
    (if nodeIDs \<noteq> [] \<and> shard < shardCount then Some (hd (ranking shard nodeIDs)) else None)"
  by (auto simp: AssignShards_def Let_def loop_simps fold_fmupd_lookup best_of_ranking
      dest: leD)

lemma owners_of_ranking:
  assumes "nodeIDs \<noteq> []" and "0 < wanted"
  shows "owners_of (zip nodeIDs (map nodeSeed nodeIDs)) wanted shard =
    ShardOwners (hd (ranking shard nodeIDs)) (take (wanted - 1) (tl (ranking shard nodeIDs)))"
proof -
  let ?s = "sort (map (candidate shard) nodeIDs)"
  obtain c cs where s: "?s = c # cs"
    using assms(1) by (cases ?s) auto
  then show ?thesis
    using assms(2)
    by (cases wanted) (auto simp: owners_of_def fold_top_step seeded_candidates ranking_def Let_def
        take_map min_def)
qed

lemma AssignShardOwners_lookup:
  "fmlookup (AssignShardOwners nodeIDs shardCount rf) shard =
    (if nodeIDs \<noteq> [] \<and> shard < shardCount
     then Some (ShardOwners (hd (ranking shard nodeIDs)) (take (nat rf) (tl (ranking shard nodeIDs))))
     else None)"
proof -
  define wanted where "wanted = nat (min (max rf 0 + 1) (int (length nodeIDs)))"
  have "take (wanted - 1) (tl (ranking shard nodeIDs)) = take (nat rf) (tl (ranking shard nodeIDs))"
    if "nodeIDs \<noteq> []"
    by (rule take_min_cong) (auto simp: wanted_def)
  moreover have "0 < wanted" if "nodeIDs \<noteq> []"
    using that by (simp add: wanted_def)
  moreover have "AssignShardOwners nodeIDs shardCount rf =
      (if nodeIDs = [] \<or> shardCount = 0 then fmempty
       else fold (\<lambda>s. fmupd s (owners_of (zip nodeIDs (map nodeSeed nodeIDs)) wanted s))
         (upto_u32 shardCount) fmempty)"
    by (auto simp: AssignShardOwners_def Let_def loop_simps wanted_def min_def max_def Suc_le_eq)
  ultimately show ?thesis
    by (auto simp: fold_fmupd_lookup owners_of_ranking)
qed

lemma hd_ranking_best:
  assumes "nid \<in> set nodeIDs" and "nid \<noteq> hd (ranking shard nodeIDs)"
  shows "candidate shard (hd (ranking shard nodeIDs)) < candidate shard nid"
proof -
  let ?s = "sort (map (candidate shard) nodeIDs)"
  have "?s \<noteq> []"
    using assms(1) by auto
  then obtain c cs where s: "?s = c # cs"
    by (cases ?s) auto
  then have "c \<in> set ?s"
    by simp
  then obtain n0 where c: "c = candidate shard n0"
    by auto
  have "candidate shard nid \<in> set (c # cs)"
    using assms(1) s by (metis image_eqI set_map set_sort)
  moreover have "sorted (c # cs)"
    by (metis s sorted_sort)
  moreover have "hd (ranking shard nodeIDs) = n0"
    by (simp add: ranking_def s c)
  ultimately show ?thesis
    using assms(2) c by (auto simp: order.strict_iff_order dest: injD [OF inj_candidate])
qed

lemma hd_filter_ranking:
  assumes "nodeIDs \<noteq> []" and "P (hd (ranking shard nodeIDs))"
  shows "hd (ranking shard (filter P nodeIDs)) = hd (ranking shard nodeIDs)"
  using assms by (cases "ranking shard nodeIDs") (simp_all add: ranking_filter)

lemma ranking_remove_first:
  assumes "distinct nodeIDs" and "ranking shard nodeIDs = p # rest"
  shows "ranking shard (filter (\<lambda>n. n \<noteq> p) nodeIDs) = rest"
proof -
  have "distinct (p # rest)"
    using assms by (metis distinct_ranking)
  then have "filter (\<lambda>n. n \<noteq> p) (p # rest) = rest"
    by (auto intro: filter_True)
  then show ?thesis
    using assms(2) by (simp add: ranking_filter)
qed

subsection \<open>The finalizer\<close>

lemma xor_eq_0_word_iff: "x XOR y = 0 \<longleftrightarrow> x = y" for x y :: "'w::len word"
  by (auto simp: bit_eq_iff bit_xor_iff)

lemma xor_right_cancel: "x XOR z = y XOR z \<longleftrightarrow> x = y" for x y z :: "'w::len word"
  by (auto simp: bit_eq_iff bit_xor_iff)

lemma xor_swap_eq: "x XOR a = y XOR b \<Longrightarrow> x XOR y = a XOR b" for x y a b :: "'w::len word"
  by (auto simp: bit_eq_iff bit_xor_iff)

lemma xorshift_inj:
  assumes "0 < k"
  shows "inj (\<lambda>x :: 'w::len word. x XOR drop_bit k x)"
proof (rule injI)
  fix x y :: "'w word"
  assume "x XOR drop_bit k x = y XOR drop_bit k y"
  then have "x XOR y = drop_bit k x XOR drop_bit k y"
    by (rule xor_swap_eq)
  then have z: "x XOR y = drop_bit k (x XOR y)"
    unfolding drop_bit_xor .
  then have "unat (x XOR y) = unat (x XOR y) div 2 ^ k"
    by (metis drop_bit_eq_div unat_drop_bit_eq)
  moreover have "(1 :: nat) < 2 ^ k"
    using assms by (intro one_less_power) simp_all
  ultimately have "unat (x XOR y) = 0"
    by (metis div_less_dividend less_irrefl neq0_conv)
  then have "x XOR y = 0"
    by (simp only: unsigned_eq_0_iff)
  then show "x = y"
    by (simp only: xor_eq_0_word_iff)
qed

lemma mult_inverse_inj:
  assumes "c * d = (1 :: 'w::len word)"
  shows "inj (\<lambda>x :: 'w word. x * c)"
  by (rule injI) (metis assms mult.assoc mult.right_neutral)

lemma inj_mix64: "inj mix64"
proof -
  have m: "inj (\<lambda>x :: u64. x * 0xbf58476d1ce4e5b9)" "inj (\<lambda>x :: u64. x * 0x94d049bb133111eb)"
    by (rule mult_inverse_inj [of _ "0x96de1b173f119089"], simp)
      (rule mult_inverse_inj [of _ "0x319642b2d24d8ec3"], simp)
  have eq: "mix64 = (\<lambda>x. x XOR drop_bit 31 x) \<circ> (\<lambda>x. x * 0x94d049bb133111eb)
      \<circ> (\<lambda>x. x XOR drop_bit 27 x) \<circ> (\<lambda>x. x * 0xbf58476d1ce4e5b9) \<circ> (\<lambda>x. x XOR drop_bit 30 x)"
    by (simp add: fun_eq_iff mix64_def Let_def)
  show ?thesis
    unfolding eq by (intro inj_compose xorshift_inj m) simp_all
qed

lemma weight_tie_iff: "weight shard a = weight shard b \<longleftrightarrow> nodeSeed a = nodeSeed b"
  by (simp add: weight_def inj_eq [OF inj_mix64] xor_right_cancel)

subsection \<open>Properties\<close>

text \<open>C3: For every input, including duplicate identifiers and any replica factor, the primary
  column of \<^const>\<open>AssignShardOwners\<close> (a bounded insertion into an array) is exactly the map
  \<^const>\<open>AssignShards\<close> computes (a scan for the maximum): the two implementations of the
  ranking agree.\<close>

theorem PrimaryMap_AssignShardOwners:
  "PrimaryMap (AssignShardOwners nodeIDs shardCount rf) = AssignShards nodeIDs shardCount"
  by (rule fmap_ext) (simp add: PrimaryMap_def AssignShardOwners_lookup AssignShards_lookup)

text \<open>C6: \<^const>\<open>AssignShards\<close> assigns every shard below the shard count, and only those; the
  owner is a live node, and it beats every other node on weight, an exact tie going to the
  lexicographically smaller identifier.\<close>

theorem AssignShards_argmax:
  assumes "nodeIDs \<noteq> []"
  shows "case fmlookup (AssignShards nodeIDs shardCount) shard of
      None \<Rightarrow> shardCount \<le> shard
    | Some owner \<Rightarrow> shard < shardCount \<and> owner \<in> set nodeIDs \<and>
        (\<forall>nid \<in> set nodeIDs. nid \<noteq> owner \<longrightarrow>
           weight shard nid < weight shard owner \<or>
           (weight shard nid = weight shard owner \<and> owner < nid))"
proof -
  let ?owner = "hd (ranking shard nodeIDs)"
  have "?owner \<in> set nodeIDs"
    using assms by (metis hd_in_set ranking_eq_Nil set_ranking)
  moreover have "weight shard nid < weight shard ?owner \<or>
      (weight shard nid = weight shard ?owner \<and> ?owner < nid)"
    if "nid \<in> set nodeIDs" "nid \<noteq> ?owner" for nid
    using hd_ranking_best [OF that] by (auto simp: candidate_def RankedNode_less)
  ultimately show ?thesis
    using assms by (auto simp: AssignShards_lookup)
qed

theorem AssignShards_argmax_witness:
  "[''node-0'', ''node-1''] \<noteq> [] \<and>
   (case fmlookup (AssignShards [''node-0'', ''node-1''] 4) 2 of
      None \<Rightarrow> (4 :: u32) \<le> 2
    | Some owner \<Rightarrow> (2 :: u32) < 4 \<and> owner \<in> set [''node-0'', ''node-1''] \<and>
        (\<forall>nid \<in> set [''node-0'', ''node-1'']. nid \<noteq> owner \<longrightarrow>
           weight 2 nid < weight 2 owner \<or> (weight 2 nid = weight 2 owner \<and> owner < nid)))"
  using AssignShards_argmax [of "[''node-0'', ''node-1'']" 4 2] by simp

text \<open>C7: Replica placement.  Over distinct node identifiers every shard below the shard count
  has a primary and as many replicas as the factor asks for, capped by the number of other live
  nodes (a negative factor counts as 0); all holders are live nodes and no node holds a shard
  twice.\<close>

theorem AssignShardOwners_placement:
  assumes "distinct nodeIDs" and "nodeIDs \<noteq> []" and "shard < shardCount"
  shows "\<exists>primary replicas.
    fmlookup (AssignShardOwners nodeIDs shardCount rf) shard = Some (ShardOwners primary replicas) \<and>
    distinct (primary # replicas) \<and> set (primary # replicas) \<subseteq> set nodeIDs \<and>
    length replicas = min (nat rf) (length nodeIDs - 1)"
proof -
  obtain p rest where r: "ranking shard nodeIDs = p # rest"
    using assms(2) by (cases "ranking shard nodeIDs") auto
  then have "distinct (p # rest)" "set (p # rest) = set nodeIDs" "length (p # rest) = length nodeIDs"
    using assms(1) by (metis distinct_ranking, metis set_ranking, metis length_ranking)
  then have "distinct (p # take (nat rf) rest)" "set (p # take (nat rf) rest) \<subseteq> set nodeIDs"
    "length (take (nat rf) rest) = min (nat rf) (length nodeIDs - 1)"
    by (auto dest: in_set_takeD)
  then show ?thesis
    using assms r by (auto simp: AssignShardOwners_lookup)
qed

theorem AssignShardOwners_placement_witness:
  "distinct [''a'', ''b'', ''c''] \<and> [''a'', ''b'', ''c''] \<noteq> [] \<and> (3 :: u32) < 8 \<and>
   (\<exists>primary replicas.
      fmlookup (AssignShardOwners [''a'', ''b'', ''c''] 8 2) 3 = Some (ShardOwners primary replicas) \<and>
      distinct (primary # replicas) \<and> set (primary # replicas) \<subseteq> set [''a'', ''b'', ''c''] \<and>
      length replicas = min (nat 2) (length [''a'', ''b'', ''c''] - 1))"
  using AssignShardOwners_placement [of "[''a'', ''b'', ''c'']" 3 8 2] by simp

text \<open>C4: The movement invariant.  When a node leaves, every shard it did not own keeps its
  owner; when it (re)joins, every shard either keeps its owner or moves to that node.  The node
  list is arbitrary and no assumption on hash quality is made.\<close>

theorem AssignShards_movement:
  assumes "filter (\<lambda>n. n \<noteq> node) nodeIDs \<noteq> []"
  shows "(let before = fmlookup (AssignShards nodeIDs shardCount) shard;
              after = fmlookup (AssignShards (filter (\<lambda>n. n \<noteq> node) nodeIDs) shardCount) shard
          in (before \<noteq> Some node \<longrightarrow> after = before) \<and>
             (before = after \<or> before = Some node) \<and> after \<noteq> Some node)"
proof -
  let ?rest = "filter (\<lambda>n. n \<noteq> node) nodeIDs"
  have ne: "nodeIDs \<noteq> []"
    using assms by auto
  have "hd (ranking shard ?rest) \<in> set ?rest"
    using assms by (metis hd_in_set ranking_eq_Nil set_ranking)
  moreover have "hd (ranking shard ?rest) = hd (ranking shard nodeIDs)"
    if "hd (ranking shard nodeIDs) \<noteq> node"
    using hd_filter_ranking [OF ne, of "\<lambda>n. n \<noteq> node" shard] that by simp
  ultimately show ?thesis
    using assms ne by (auto simp: AssignShards_lookup Let_def)
qed

theorem AssignShards_movement_witness:
  "filter (\<lambda>n. n \<noteq> ''b'') [''a'', ''b'', ''c''] \<noteq> [] \<and>
   (let before = fmlookup (AssignShards [''a'', ''b'', ''c''] 256) 7;
        after = fmlookup (AssignShards (filter (\<lambda>n. n \<noteq> ''b'') [''a'', ''b'', ''c'']) 256) 7
    in (before \<noteq> Some ''b'' \<longrightarrow> after = before) \<and> (before = after \<or> before = Some ''b'') \<and>
       after \<noteq> Some ''b'')"
proof -
  have h: "filter (\<lambda>n. n \<noteq> ''b'') [''a'', ''b'', ''c''] \<noteq> []"
    by simp
  show ?thesis
    using h AssignShards_movement [OF h, of 256 7] by blast
qed

text \<open>C5: Promotion needs no election.  When the primary of a shard disappears from the node
  set, the owner \<^const>\<open>AssignShards\<close> computes for the smaller set is the first replica the
  larger set's \<^const>\<open>AssignShardOwners\<close> listed, and the remaining replicas keep their order at
  the front of the new list.\<close>

theorem AssignShardOwners_promotion:
  assumes "distinct nodeIDs"
    and "fmlookup (AssignShardOwners nodeIDs shardCount rf) shard = Some (ShardOwners primary (r # rs))"
  shows "fmlookup (AssignShards (filter (\<lambda>n. n \<noteq> primary) nodeIDs) shardCount) shard = Some r \<and>
    (\<exists>new. fmlookup (AssignShardOwners (filter (\<lambda>n. n \<noteq> primary) nodeIDs) shardCount rf) shard =
       Some (ShardOwners r (rs @ new)) \<and> length new \<le> 1)"
proof -
  from assms(2) have lookup: "nodeIDs \<noteq> []" "shard < shardCount"
    "hd (ranking shard nodeIDs) = primary" "take (nat rf) (tl (ranking shard nodeIDs)) = r # rs"
    by (auto simp: AssignShardOwners_lookup split: if_splits)
  then obtain rest where r: "ranking shard nodeIDs = primary # r # rest" and rf: "nat rf \<noteq> 0"
      and rs: "rs = take (nat rf - 1) rest"
    by (cases "ranking shard nodeIDs"; cases "tl (ranking shard nodeIDs)"; cases "nat rf") auto
  have new: "ranking shard (filter (\<lambda>n. n \<noteq> primary) nodeIDs) = r # rest"
    by (rule ranking_remove_first [OF assms(1) r])
  then have ne: "filter (\<lambda>n. n \<noteq> primary) nodeIDs \<noteq> []"
    by (metis list.distinct(1) ranking_eq_Nil)
  have "take (nat rf) rest = rs @ take 1 (drop (nat rf - 1) rest)"
    using rf unfolding rs by (metis Suc_pred' add.commute plus_1_eq_Suc take_add neq0_conv)
  moreover have "length (take 1 (drop (nat rf - 1) rest)) \<le> 1"
    by simp
  ultimately show ?thesis
    using new ne lookup(2) by (auto simp: AssignShards_lookup AssignShardOwners_lookup)
qed

lemma weight_values:
  "weight 0 ''a'' = 198367012849983736" "weight 0 ''b'' = 4482684837372322821"
  by (simp_all add: weight_def nodeSeed_def fnv64a_def fnv64a_byte_def fnv64a_offset_def
      fnv64a_prime_def mix64_def Let_def)

lemma two_node_owners:
  "fmlookup (AssignShardOwners [''a'', ''b''] 1 1) 0 = Some (ShardOwners ''b'' [''a''])"
  by (simp add: AssignShardOwners_lookup ranking_def candidate_def weight_values
      less_eq_rankedNode_def RankedNode_less)

theorem AssignShardOwners_promotion_witness:
  "fmlookup (AssignShards (filter (\<lambda>n. n \<noteq> ''b'') [''a'', ''b'']) 1) 0 = Some ''a'' \<and>
   (\<exists>new. fmlookup (AssignShardOwners (filter (\<lambda>n. n \<noteq> ''b'') [''a'', ''b'']) 1 1) 0 =
      Some (ShardOwners ''a'' ([] @ new)) \<and> length new \<le> 1)"
proof -
  have "distinct [''a'', ''b'']"
    by simp
  then show ?thesis
    using two_node_owners by (rule AssignShardOwners_promotion)
qed

text \<open>Determinism across replicas: the assignment depends only on the collection of node
  identifiers, not on the order in which a control plane happens to hold them.\<close>

theorem assignments_order_independent:
  assumes "mset nodeIDs = mset nodeIDs'"
  shows "AssignShards nodeIDs shardCount = AssignShards nodeIDs' shardCount \<and>
    AssignShardOwners nodeIDs shardCount rf = AssignShardOwners nodeIDs' shardCount rf"
proof -
  have "nodeIDs = [] \<longleftrightarrow> nodeIDs' = []"
    using assms by auto
  then show ?thesis
    using ranking_mset_cong [OF assms]
    by (auto intro!: fmap_ext simp: AssignShards_lookup AssignShardOwners_lookup)
qed

theorem assignments_order_independent_witness:
  "mset [''n2'', ''n0'', ''n1''] = mset [''n0'', ''n1'', ''n2''] \<and>
   AssignShards [''n2'', ''n0'', ''n1''] 256 = AssignShards [''n0'', ''n1'', ''n2''] 256 \<and>
   AssignShardOwners [''n2'', ''n0'', ''n1''] 256 1 = AssignShardOwners [''n0'', ''n1'', ''n2''] 256 1"
proof -
  have h: "mset [''n2'', ''n0'', ''n1''] = mset [''n0'', ''n1'', ''n2'']"
    by simp
  show ?thesis
    using h assignments_order_independent [OF h, of 256 1] by blast
qed

text \<open>The finalizer \<^const>\<open>mix64\<close> is a bijection on \<^verbatim>\<open>uint64\<close>, so two nodes tie on a shard
  exactly when their FNV-1a seeds collide: a tie on one shard is a tie on all of them.\<close>

theorem mix64_bij_and_ties:
  "bij mix64 \<and> (weight shard a = weight shard b \<longleftrightarrow> nodeSeed a = nodeSeed b)"
  using inj_mix64 finite_UNIV_inj_surj [OF finite_class.finite_UNIV inj_mix64]
  by (simp add: bij_def weight_tie_iff)

lemma ShardForKey_less:
  assumes "shardCount \<noteq> 0"
  shows "ShardForKey key shardCount < shardCount"
proof -
  let ?n = "ucast shardCount :: u64" and ?m = "fnv64a key mod ucast shardCount"
  have pos: "0 < unat shardCount"
    using assms by (simp add: unat_gt_0)
  have n: "unat ?n = unat shardCount"
    using unsigned_less [of shardCount, where ?'a = nat]
    by (simp add: unsigned_ucast_eq take_bit_nat_eq_self)
  have "unat ?m = unat (fnv64a key) mod unat shardCount"
    by (simp add: unat_mod_distrib n)
  then have m: "unat ?m < unat shardCount"
    using pos by simp
  then have "unat (ucast ?m :: u32) = unat ?m"
    using unsigned_less [of shardCount, where ?'a = nat] by (simp add: unsigned_ucast_eq take_bit_nat_eq_self)
  with m assms show ?thesis
    by (simp add: ShardForKey_def word_less_nat_alt)
qed

text \<open>C21: Key routing is total.  A key's shard always lies below the shard count, and looking a key
  up in the assignment of a non-empty set of non-empty node identifiers succeeds with the
  highest-weight node of that shard.\<close>

theorem OwnerForKey_total:
  assumes "shardCount \<noteq> 0" and "nodeIDs \<noteq> []" and "[] \<notin> set nodeIDs"
  shows "ShardForKey key shardCount < shardCount \<and>
    (\<exists>owner. OwnerForKey key shardCount (AssignShards nodeIDs shardCount) = (owner, True) \<and>
      owner \<in> set nodeIDs \<and>
      (\<forall>nid \<in> set nodeIDs. weight (ShardForKey key shardCount) nid
         \<le> weight (ShardForKey key shardCount) owner))"
proof -
  let ?s = "ShardForKey key shardCount"
  let ?owner = "hd (ranking ?s nodeIDs)"
  have mem: "?owner \<in> set nodeIDs"
    using assms(2) by (metis hd_in_set ranking_eq_Nil set_ranking)
  have "weight ?s nid \<le> weight ?s ?owner" if "nid \<in> set nodeIDs" for nid
    using hd_ranking_best [OF that, of ?s]
    by (cases "nid = ?owner") (auto simp: candidate_def RankedNode_less)
  then show ?thesis
    using mem assms ShardForKey_less [OF assms(1), of key]
    by (auto simp: OwnerForKey_def AssignShards_lookup)
qed

theorem OwnerForKey_total_witness:
  "(256 :: u32) \<noteq> 0 \<and> [''node-0'', ''node-1''] \<noteq> [] \<and> [] \<notin> set [''node-0'', ''node-1''] \<and>
   ShardForKey ''prefix:42'' 256 < 256 \<and>
   (\<exists>owner. OwnerForKey ''prefix:42'' 256 (AssignShards [''node-0'', ''node-1''] 256) = (owner, True) \<and>
      owner \<in> set [''node-0'', ''node-1''] \<and>
      (\<forall>nid \<in> set [''node-0'', ''node-1'']. weight (ShardForKey ''prefix:42'' 256) nid
         \<le> weight (ShardForKey ''prefix:42'' 256) owner))"
  using OwnerForKey_total [of 256 "[''node-0'', ''node-1'']" "''prefix:42''"] by simp

end
