(* ===== verification/Go_Text.thy ===== *)
theory Go_Text
  imports Pulse_Prelude "HOL-Library.Sublist"
begin

text \<open>
  The text functions of Go's standard library that the program calls, on byte strings:
  \<^verbatim>\<open>strings.TrimSpace\<close>, \<^verbatim>\<open>strings.Split\<close> and \<^verbatim>\<open>strings.Join\<close>, \<^verbatim>\<open>strconv.Itoa\<close> and
  \<^verbatim>\<open>strconv.Atoi\<close>, \<^verbatim>\<open>net.JoinHostPort\<close> and \<^verbatim>\<open>net.SplitHostPort\<close>, \<^verbatim>\<open>net.ParseIP\<close> with
  \<^verbatim>\<open>IsLoopback\<close> and \<^verbatim>\<open>IsUnspecified\<close>, and the node-identifier pattern both
  \<^verbatim>\<open>membership/metadata.go\<close> and \<^verbatim>\<open>config/config.go\<close> compile.

  The lemmas are the round trips and absorption facts the components use: a joined address
  splits back into its parts, a printed port reads back, and a string that matches the
  pattern is left alone by \<open>TrimSpace\<close>.
\<close>

subsection \<open>TrimSpace\<close>

text \<open>The UTF-8 encodings of the runes \<^verbatim>\<open>unicode.IsSpace\<close> accepts.\<close>

definition space_encodings :: "string list" where
  "space_encodings =
     map (map char_of)
       ([[9], [10], [11], [12], [13], [32], [0xC2, 0x85], [0xC2, 0xA0], [0xE1, 0x9A, 0x80]]
        @ map (\<lambda>b. [0xE2, 0x80, b]) [0x80..<0x8B]
        @ [[0xE2, 0x80, 0xA8], [0xE2, 0x80, 0xA9], [0xE2, 0x80, 0xAF], [0xE2, 0x81, 0x9F],
           [0xE3, 0x80, 0x80 :: nat]])"

function trim_with :: "string list \<Rightarrow> string \<Rightarrow> string" where
  "trim_with encs s =
     (case find (\<lambda>e. e \<noteq> [] \<and> prefix e s) encs of
        None \<Rightarrow> s
      | Some e \<Rightarrow> trim_with encs (drop (length e) s))"
  by pat_completeness auto
termination
  by (relation "measure (\<lambda>(encs, s). length s)") (auto simp: find_Some_iff prefix_def)

declare trim_with.simps [simp del]

definition TrimSpace :: "string \<Rightarrow> string" where
  "TrimSpace s =
     rev (trim_with (map rev space_encodings) (rev (trim_with space_encodings s)))"

subsection \<open>Split and Join\<close>

fun split_on :: "char \<Rightarrow> string \<Rightarrow> string list" where
  "split_on sep [] = [[]]"
| "split_on sep (c # cs) =
     (if c = sep then [] # split_on sep cs
      else case split_on sep cs of [] \<Rightarrow> [[c]] | w # ws \<Rightarrow> (c # w) # ws)"

fun join_with :: "string \<Rightarrow> string list \<Rightarrow> string" where
  "join_with sep [] = []"
| "join_with sep [w] = w"
| "join_with sep (w # v # ws) = w @ sep @ join_with sep (v # ws)"

subsection \<open>Decimal integers\<close>

definition digit_char :: "nat \<Rightarrow> char" where
  "digit_char d = char_of (48 + d)"

fun nat_digits :: "nat \<Rightarrow> string" where
  "nat_digits n = (if n < 10 then [digit_char n] else nat_digits (n div 10) @ [digit_char (n mod 10)])"

declare nat_digits.simps [simp del]

definition Itoa :: "int \<Rightarrow> string" where
  "Itoa i = (if i < 0 then CHR ''-'' # nat_digits (nat (- i)) else nat_digits (nat i))"

definition is_digit :: "char \<Rightarrow> bool" where
  "is_digit c \<longleftrightarrow> CHR ''0'' \<le> c \<and> c \<le> CHR ''9''"

definition digits_val :: "string \<Rightarrow> nat" where
  "digits_val cs = fold (\<lambda>c a. a * 10 + (of_char c - 48)) cs 0"

text \<open>\<^verbatim>\<open>strconv.ParseUint(s, 10, 64)\<close> bounded by \<open>limit\<close>, and \<^verbatim>\<open>ParseInt(s, 10, 64)\<close>.\<close>

definition parse_uint :: "nat \<Rightarrow> string \<Rightarrow> nat option" where
  "parse_uint limit s =
     (if s \<noteq> [] \<and> list_all is_digit s \<and> digits_val s \<le> limit then Some (digits_val s) else None)"

fun Atoi :: "string \<Rightarrow> int option" where
  "Atoi [] = None"
| "Atoi (c # cs) =
     (if c = CHR ''-'' then map_option (\<lambda>n. - int n) (parse_uint (2 ^ 63) cs)
      else map_option int (parse_uint (2 ^ 63 - 1) (if c = CHR ''+'' then cs else c # cs)))"

subsection \<open>Host and port\<close>

definition JoinHostPort :: "string \<Rightarrow> string \<Rightarrow> string" where
  "JoinHostPort host port =
     (if CHR '':'' \<in> set host then ''['' @ host @ '']:'' @ port else host @ '':'' @ port)"

definition first_index :: "char \<Rightarrow> string \<Rightarrow> nat option" where
  "first_index c s =
     (let before = takeWhile (\<lambda>x. x \<noteq> c) s
      in if length before < length s then Some (length before) else None)"

definition last_index :: "char \<Rightarrow> string \<Rightarrow> nat option" where
  "last_index c s = map_option (\<lambda>i. length s - Suc i) (first_index c (rev s))"

definition split_check :: "string \<Rightarrow> nat \<Rightarrow> string \<Rightarrow> nat \<Rightarrow> nat \<Rightarrow> (string \<times> string) option" where
  "split_check hostport i host j k =
     (if CHR ''['' \<in> set (drop j hostport) then None
      else if CHR '']'' \<in> set (drop k hostport) then None
      else Some (host, drop (Suc i) hostport))"

definition SplitHostPort :: "string \<Rightarrow> (string \<times> string) option" where
  "SplitHostPort hostport =
     (case last_index CHR '':'' hostport of
        None \<Rightarrow> None
      | Some i \<Rightarrow>
          if hostport ! 0 = CHR ''['' then
            (case first_index CHR '']'' hostport of
               None \<Rightarrow> None
             | Some e \<Rightarrow>
                 if e + 1 = length hostport then None
                 else if e + 1 = i then split_check hostport i (drop 1 (take e hostport)) 1 (e + 1)
                 else None)
          else
            (let host = take i hostport
             in if CHR '':'' \<in> set host then None else split_check hostport i host 0 0))"

subsection \<open>The node-identifier pattern\<close>

text \<open>\<^verbatim>\<open>^[A-Za-z0-9][A-Za-z0-9._-]*$\<close>\<close>

definition is_alnum :: "char \<Rightarrow> bool" where
  "is_alnum c \<longleftrightarrow> (CHR ''A'' \<le> c \<and> c \<le> CHR ''Z'') \<or> (CHR ''a'' \<le> c \<and> c \<le> CHR ''z'') \<or>
     (CHR ''0'' \<le> c \<and> c \<le> CHR ''9'')"

definition is_id_char :: "char \<Rightarrow> bool" where
  "is_id_char c \<longleftrightarrow> is_alnum c \<or> c \<in> {CHR ''.'', CHR ''_'', CHR ''-''}"

definition nodeIDPattern :: "string \<Rightarrow> bool" where
  "nodeIDPattern s = (case s of [] \<Rightarrow> False | c # cs \<Rightarrow> is_alnum c \<and> list_all is_id_char cs)"

subsection \<open>IP addresses\<close>

text \<open>\<^verbatim>\<open>net.ParseIP\<close> over \<^verbatim>\<open>net/netip\<close>: an address is its sixteen bytes, IPv4 in the mapped form.\<close>

definition ipv4_octet :: "string \<Rightarrow> nat option" where
  "ipv4_octet w =
     (if w \<noteq> [] \<and> list_all is_digit w \<and> (length w > 1 \<longrightarrow> hd w \<noteq> CHR ''0'') \<and> digits_val w \<le> 255
      then Some (digits_val w) else None)"

definition ipv4_fields :: "string \<Rightarrow> nat list option" where
  "ipv4_fields s =
     (let ws = split_on CHR ''.'' s
      in if length ws = 4 \<and> list_all (\<lambda>w. ipv4_octet w \<noteq> None) ws then Some (map digits_val ws)
         else None)"

definition is_hex :: "char \<Rightarrow> bool" where
  "is_hex c \<longleftrightarrow> is_digit c \<or> (CHR ''a'' \<le> c \<and> c \<le> CHR ''f'') \<or> (CHR ''A'' \<le> c \<and> c \<le> CHR ''F'')"

definition hex_digit :: "char \<Rightarrow> nat" where
  "hex_digit c = (if is_digit c then of_char c - 48
     else if CHR ''a'' \<le> c then of_char c - 87 else of_char c - 55)"

definition hex_val :: "string \<Rightarrow> nat" where
  "hex_val cs = fold (\<lambda>c a. a * 16 + hex_digit c) cs 0"

fun ipv6_groups :: "nat \<Rightarrow> string \<Rightarrow> nat list \<Rightarrow> nat option \<Rightarrow> (nat list \<times> nat option) option" where
  "ipv6_groups 0 s ip ellipsis = (if s = [] then Some (ip, ellipsis) else None)"
| "ipv6_groups (Suc n) s ip ellipsis =
     (let hex = takeWhile is_hex s; rest = dropWhile is_hex s;
          ip' = ip @ [hex_val hex div 256, hex_val hex mod 256]
      in if hex = [] \<or> length hex > 4 then None
         else case rest of
           [] \<Rightarrow> Some (ip', ellipsis)
         | c # more \<Rightarrow>
             if c = CHR ''.'' then
               (if ellipsis = None \<and> length ip \<noteq> 12 \<or> length ip + 4 > 16 then None
                else map_option (\<lambda>v4. (ip @ v4, ellipsis)) (ipv4_fields s))
             else if c \<noteq> CHR '':'' then None
             else (case more of
                 [] \<Rightarrow> None
               | d # tail \<Rightarrow>
                   if d \<noteq> CHR '':'' then ipv6_groups n more ip' ellipsis
                   else if ellipsis \<noteq> None then None
                   else if tail = [] then Some (ip', Some (length ip'))
                   else ipv6_groups n tail ip' (Some (length ip'))))"

definition ipv6_expand :: "nat list \<times> nat option \<Rightarrow> nat list option" where
  "ipv6_expand = (\<lambda>(ip, ellipsis).
     if length ip < 16 then
       (case ellipsis of
          None \<Rightarrow> None
        | Some e \<Rightarrow> Some (take e ip @ replicate (16 - length ip) 0 @ drop e ip))
     else if ellipsis = None then Some ip else None)"

definition ParseIPv6 :: "string \<Rightarrow> nat list option" where
  "ParseIPv6 s =
     (if take 2 s = ''::'' then
        (if drop 2 s = [] then Some (replicate 16 0)
         else Option.bind (ipv6_groups 8 (drop 2 s) [] (Some 0)) ipv6_expand)
      else Option.bind (ipv6_groups 8 s [] None) ipv6_expand)"

definition ipv4_mapped :: "nat list" where
  "ipv4_mapped = replicate 10 0 @ [255, 255]"

definition ParseIP :: "string \<Rightarrow> nat list option" where
  "ParseIP s =
     (if CHR ''%'' \<in> set s then None
      else case find (\<lambda>c. c = CHR ''.'' \<or> c = CHR '':'') s of
             None \<Rightarrow> None
           | Some c \<Rightarrow> if c = CHR ''.'' then map_option (\<lambda>v4. ipv4_mapped @ v4) (ipv4_fields s)
                       else ParseIPv6 s)"

definition IsLoopback :: "nat list option \<Rightarrow> bool" where
  "IsLoopback a = (case a of
       None \<Rightarrow> False
     | Some ip \<Rightarrow> if take 12 ip = ipv4_mapped then ip ! 12 = 127 else ip = replicate 15 0 @ [1])"

definition IsUnspecified :: "nat list \<Rightarrow> bool" where
  "IsUnspecified ip \<longleftrightarrow> ip = ipv4_mapped @ [0, 0, 0, 0] \<or> ip = replicate 16 0"

subsection \<open>Lemmas: decimal integers\<close>

lemma is_digit_digit_char [simp]: "d < 10 \<Longrightarrow> is_digit (digit_char d)"
  by (simp add: is_digit_def digit_char_def less_eq_char_def)

lemma of_char_digit_char [simp]: "d < 10 \<Longrightarrow> of_char (digit_char d) = (48 + d :: nat)"
  by (simp add: digit_char_def)

lemma digits_val_snoc [simp]: "digits_val (cs @ [c]) = digits_val cs * 10 + (of_char c - 48)"
  by (simp add: digits_val_def)

lemma nat_digits_ne [simp]: "nat_digits n \<noteq> []"
  by (subst nat_digits.simps) simp

lemma nat_digits_all: "list_all is_digit (nat_digits n)"
proof (induction n rule: nat_digits.induct)
  case (1 n)
  then show ?case
    by (subst nat_digits.simps) auto
qed

lemma digits_val_nat_digits [simp]: "digits_val (nat_digits n) = n"
proof (induction n rule: nat_digits.induct)
  case (1 n)
  show ?case
  proof (cases "n < 10")
    case True
    then show ?thesis
      by (subst nat_digits.simps) (simp add: digits_val_def)
  next
    case False
    with 1 show ?thesis
      by (subst nat_digits.simps) simp
  qed
qed

lemma parse_uint_nat_digits: "n \<le> limit \<Longrightarrow> parse_uint limit (nat_digits n) = Some n"
  by (simp add: parse_uint_def nat_digits_all)

lemma is_digit_not_sign: "is_digit c \<Longrightarrow> c \<noteq> CHR ''-'' \<and> c \<noteq> CHR ''+'' \<and> c \<noteq> CHR '':''
    \<and> c \<noteq> CHR ''['' \<and> c \<noteq> CHR '']''"
  by (auto simp: is_digit_def less_eq_char_def)

lemma Atoi_Itoa:
  assumes "- (2 ^ 63) \<le> i" and "i < 2 ^ 63"
  shows "Atoi (Itoa i) = Some i"
proof (cases "i < 0")
  case True
  then have "parse_uint (2 ^ 63) (nat_digits (nat (- i))) = Some (nat (- i))"
    using assms(1) by (intro parse_uint_nat_digits) simp
  with True show ?thesis
    by (simp add: Itoa_def)
next
  case False
  obtain c cs where d: "nat_digits (nat i) = c # cs"
    by (meson list.exhaust nat_digits_ne)
  then have "is_digit c"
    using nat_digits_all [of "nat i"] by simp
  moreover have "parse_uint (2 ^ 63 - 1) (c # cs) = Some (nat i)"
    unfolding d [symmetric] using assms(2) False by (intro parse_uint_nat_digits) simp
  ultimately show ?thesis
    using False d by (simp add: Itoa_def is_digit_not_sign)
qed

subsection \<open>Lemmas: host and port\<close>

lemma first_index_append:
  assumes "c \<notin> set xs"
  shows "first_index c (xs @ c # ys) = Some (length xs)"
proof -
  have "takeWhile (\<lambda>x. x \<noteq> c) (xs @ c # ys) = xs"
    using assms by (subst takeWhile_append2) auto
  then show ?thesis
    by (simp add: first_index_def)
qed

lemma last_index_append:
  assumes "c \<notin> set ys"
  shows "last_index c (xs @ c # ys) = Some (length xs)"
  using assms first_index_append [of c "rev ys" "rev xs"] by (simp add: last_index_def)

lemma SplitHostPort_JoinHostPort:
  assumes "CHR ''['' \<notin> set host" "CHR '']'' \<notin> set host"
    and "CHR '':'' \<notin> set port" "CHR ''['' \<notin> set port" "CHR '']'' \<notin> set port"
  shows "SplitHostPort (JoinHostPort host port) = Some (host, port)"
proof (cases "CHR '':'' \<in> set host")
  case True
  have "first_index CHR '']'' (''['' @ host @ '']:'' @ port) = Some (Suc (length host))"
    using first_index_append [of "CHR '']''" "''['' @ host" "'':'' @ port"] assms by simp
  moreover have "last_index CHR '':'' (''['' @ host @ '']:'' @ port) = Some (Suc (Suc (length host)))"
    using last_index_append [of "CHR '':''" port "''['' @ host @ '']''"] assms by simp
  ultimately show ?thesis
    using True assms by (simp add: JoinHostPort_def SplitHostPort_def split_check_def)
next
  case False
  have "last_index CHR '':'' (host @ '':'' @ port) = Some (length host)"
    using last_index_append [of "CHR '':''" port host] assms by simp
  moreover have "(host @ '':'' @ port) ! 0 \<noteq> CHR ''[''"
    using assms by (cases host) auto
  ultimately show ?thesis
    using False assms by (simp add: JoinHostPort_def SplitHostPort_def split_check_def Let_def)
qed

lemma Itoa_no_colon:
  assumes "0 \<le> i"
  shows "CHR '':'' \<notin> set (Itoa i)" "CHR ''['' \<notin> set (Itoa i)" "CHR '']'' \<notin> set (Itoa i)"
  using assms nat_digits_all [of "nat i"]
  by (auto simp: Itoa_def list_all_iff dest!: bspec is_digit_not_sign)

subsection \<open>Lemmas: TrimSpace and the pattern\<close>

lemma trim_with_id:
  assumes "\<And>e. e \<in> set encs \<Longrightarrow> e \<noteq> [] \<Longrightarrow> hd e \<notin> set (take 1 s)"
  shows "trim_with encs s = s"
proof -
  have "find (\<lambda>e. e \<noteq> [] \<and> prefix e s) encs = None"
  proof (rule ccontr)
    assume "find (\<lambda>e. e \<noteq> [] \<and> prefix e s) encs \<noteq> None"
    then obtain e where e: "e \<in> set encs" "e \<noteq> []" "prefix e s"
      by (auto simp: find_None_iff)
    have "hd e \<in> set (take 1 s)"
      using e(2,3) by (cases e; cases s) auto
    with assms e show False
      by blast
  qed
  then show ?thesis
    by (subst trim_with.simps) simp
qed

lemma space_encodings_hd:
  "e \<in> set space_encodings \<Longrightarrow> \<not> is_id_char (hd e) \<and> \<not> is_id_char (last e)"
proof -
  have "list_all (\<lambda>e. \<not> is_id_char (hd e) \<and> \<not> is_id_char (last e)) space_encodings"
    by code_simp
  then show "e \<in> set space_encodings \<Longrightarrow> \<not> is_id_char (hd e) \<and> \<not> is_id_char (last e)"
    by (simp add: list_all_iff)
qed

lemma nodeIDPattern_chars: "nodeIDPattern s \<Longrightarrow> c \<in> set s \<Longrightarrow> is_id_char c"
  by (cases s) (auto simp: nodeIDPattern_def is_id_char_def list_all_iff)

lemma TrimSpace_id_chars:
  assumes "\<And>c. c \<in> set s \<Longrightarrow> is_id_char c"
  shows "TrimSpace s = s"
proof -
  have "trim_with space_encodings s = s"
    using assms space_encodings_hd by (intro trim_with_id) (auto dest: in_set_takeD)
  moreover have "hd (rev e) \<notin> set (take 1 (rev s))" if "e \<in> set space_encodings" "e \<noteq> []" for e
    using assms space_encodings_hd [OF that(1)] that(2)
    by (auto simp: hd_rev dest: in_set_takeD)
  then have "trim_with (map rev space_encodings) (rev s) = rev s"
    by (intro trim_with_id) auto
  ultimately show ?thesis
    by (simp add: TrimSpace_def)
qed

lemma TrimSpace_nodeIDPattern: "nodeIDPattern s \<Longrightarrow> TrimSpace s = s"
  by (rule TrimSpace_id_chars) (rule nodeIDPattern_chars)

end
