(* ===== verification/Go_Json.thy ===== *)
theory Go_Json
  imports Go_Text
begin

text \<open>
  Go's \<^verbatim>\<open>encoding/json\<close> as the program uses it: the compact output of \<^verbatim>\<open>json.Marshal\<close>
  with its HTML-safe string escaping, and \<^verbatim>\<open>json.Unmarshal\<close> (and the \<^verbatim>\<open>Decoder\<close>) split
  into the syntax scan, which builds a \<open>json\<close> tree, and the field lookup of struct decoding.

  Strings are byte strings.  Encoding replaces bytes that are not UTF-8 by the escape of U+FFFD,
  decoding replaces them by the encoding of U+FFFD, as the library does; the rune arithmetic
  is done on the bytes.  The parser recurses on fuel, and \<open>parse_value_fuel\<close> shows that
  any fuel above twice the input's length gives the same answer, so \<^verbatim>\<open>Unmarshal\<close> starts
  with \<open>Suc (2 * length s)\<close>.

  The laws are in \<^verbatim>\<open>Json_Laws\<close>.
\<close>

subsection \<open>UTF-8\<close>

definition byte :: "char \<Rightarrow> nat" where
  "byte c = of_char c"

definition is_cont :: "char \<Rightarrow> bool" where
  "is_cont c \<longleftrightarrow> 0x80 \<le> byte c \<and> byte c \<le> 0xBF"

text \<open>
  The tables of \<^verbatim>\<open>utf8.DecodeRune\<close>: how long an encoding with this first byte is (0 for a byte
  that starts none), and the range of its second byte, which excludes overlong forms,
  surrogates and anything above U+10FFFF.
\<close>

definition lead_size :: "char \<Rightarrow> nat" where
  "lead_size a =
     (if byte a < 0x80 then 1 else if byte a < 0xC2 then 0 else if byte a < 0xE0 then 2
      else if byte a < 0xF0 then 3 else if byte a < 0xF5 then 4 else 0)"

definition accept_second :: "char \<Rightarrow> char \<Rightarrow> bool" where
  "accept_second a b \<longleftrightarrow>
     (if byte a = 0xE0 then 0xA0 else if byte a = 0xF0 then 0x90 else 0x80) \<le> byte b \<and>
     byte b \<le> (if byte a = 0xED then 0x9F else if byte a = 0xF4 then 0x8F else 0xBF)"

text \<open>The width of the encoding a string starts with; 0 when it starts with none.\<close>

definition rune_len :: "string \<Rightarrow> nat" where
  "rune_len s =
     (if s = [] then 0
      else if lead_size (hd s) \<le> 1 then lead_size (hd s)
      else if lead_size (hd s) \<le> length s \<and> accept_second (hd s) (s ! 1) \<and>
        list_all is_cont (drop 2 (take (lead_size (hd s)) s))
      then lead_size (hd s) else 0)"

text \<open>The encoding of a rune; callers pass no surrogates and nothing above U+10FFFF.\<close>

definition encode_rune :: "nat \<Rightarrow> string" where
  "encode_rune r =
     map char_of
       (if r < 0x80 then [r]
        else if r < 0x800 then [0xC0 + r div 64, 0x80 + r mod 64]
        else if r < 0x10000 then [0xE0 + r div 4096, 0x80 + r div 64 mod 64, 0x80 + r mod 64]
        else [0xF0 + r div 262144, 0x80 + r div 4096 mod 64, 0x80 + r div 64 mod 64, 0x80 + r mod 64])"

definition rune_error :: string where
  "rune_error = encode_rune 0xFFFD"

function valid_utf8 :: "string \<Rightarrow> bool" where
  "valid_utf8 s =
     (if s = [] then True else if rune_len s = 0 then False else valid_utf8 (drop (rune_len s) s))"
  by pat_completeness auto
termination
  by (relation "measure length") auto

text \<open>\<^verbatim>\<open>strings.ToValidUTF8\<close> one byte at a time: what the library makes of a byte string.\<close>

function to_valid :: "string \<Rightarrow> string" where
  "to_valid s =
     (if s = [] then []
      else if rune_len s = 0 then rune_error @ to_valid (drop 1 s)
      else take (rune_len s) s @ to_valid (drop (rune_len s) s))"
  by pat_completeness auto
termination
  by (relation "measure length") auto

declare valid_utf8.simps [simp del]
declare to_valid.simps [simp del]

subsection \<open>Values\<close>

text \<open>A number keeps its text: Go converts it when it knows the destination's type.\<close>

datatype json = JNull | JBool bool | JNum string | JStr string
  | JArr "json list" | JObj "(string \<times> json) list"

subsection \<open>Marshal\<close>

definition hex_char :: "nat \<Rightarrow> char" where
  "hex_char d = (if d < 10 then char_of (48 + d) else char_of (87 + d))"

definition is_html_safe :: "char \<Rightarrow> bool" where
  "is_html_safe c \<longleftrightarrow> 32 \<le> byte c \<and> byte c < 0x80 \<and>
     c \<notin> {CHR ''\"'', CHR 0x5C, CHR ''<'', CHR ''>'', CHR ''&''}"

definition escape_ascii :: "char \<Rightarrow> string" where
  "escape_ascii c =
     (if is_html_safe c then [c]
      else if c = CHR 0x5C \<or> c = CHR ''\"'' then [CHR 0x5C, c]
      else if byte c = 8 then [CHR 0x5C, CHR ''b'']
      else if byte c = 12 then [CHR 0x5C, CHR ''f'']
      else if byte c = 10 then [CHR 0x5C, CHR ''n'']
      else if byte c = 13 then [CHR 0x5C, CHR ''r'']
      else if byte c = 9 then [CHR 0x5C, CHR ''t'']
      else [CHR 0x5C, CHR ''u'', CHR ''0'', CHR ''0'', hex_char (byte c div 16), hex_char (byte c mod 16)])"

definition escape_rune :: "string \<Rightarrow> string" where
  "escape_rune r =
     (if r = encode_rune 0x2028 then CHR 0x5C # ''u2028''
      else if r = encode_rune 0x2029 then CHR 0x5C # ''u2029''
      else if r = [hd r] then escape_ascii (hd r)
      else r)"

function quote_body :: "string \<Rightarrow> string" where
  "quote_body s =
     (if s = [] then []
      else if rune_len s = 0 then CHR 0x5C # ''ufffd'' @ quote_body (drop 1 s)
      else escape_rune (take (rune_len s) s) @ quote_body (drop (rune_len s) s))"
  by pat_completeness auto
termination
  by (relation "measure length") auto

declare quote_body.simps [simp del]

definition quote :: "string \<Rightarrow> string" where
  "quote s = CHR ''\"'' # quote_body s @ [CHR ''\"'']"

fun json_print :: "json \<Rightarrow> string" where
  "json_print JNull = ''null''"
| "json_print (JBool b) = (if b then ''true'' else ''false'')"
| "json_print (JNum r) = r"
| "json_print (JStr s) = quote s"
| "json_print (JArr vs) = ''['' @ join_with '','' (map json_print vs) @ '']''"
| "json_print (JObj ms) =
     ''{'' @ join_with '','' (map (\<lambda>(k, v). quote k @ '':'' @ json_print v) ms) @ ''}''"

subsection \<open>The syntax scan\<close>

definition is_json_space :: "char \<Rightarrow> bool" where
  "is_json_space c \<longleftrightarrow> byte c \<in> {32, 9, 13, 10}"

definition skip_ws :: "string \<Rightarrow> string" where
  "skip_ws = dropWhile is_json_space"

text \<open>From behind the opening quote: the raw body and what follows the closing quote.\<close>

function scan_string :: "string \<Rightarrow> (string \<times> string) option" where
  "scan_string [] = None"
| "scan_string (c # s) =
     (if c = CHR 0x22 then Some ([], s)
      else if byte c < 32 then None
      else if c = CHR 0x5C then
        (if s = [] then None
         else if hd s \<in> {CHR ''b'', CHR ''f'', CHR ''n'', CHR ''r'', CHR ''t'', CHR 0x5C, CHR ''/'', CHR 0x22}
         then map_option (\<lambda>(b, r). (c # hd s # b, r)) (scan_string (drop 1 s))
         else if hd s = CHR ''u'' \<and> 5 \<le> length s \<and> list_all is_hex (take 4 (drop 1 s))
         then map_option (\<lambda>(b, r). (c # take 5 s @ b, r)) (scan_string (drop 5 s))
         else None)
      else map_option (\<lambda>(b, r). (c # b, r)) (scan_string s))"
  by pat_completeness auto
termination
  by (relation "measure length") auto

definition is_surrogate :: "nat \<Rightarrow> bool" where
  "is_surrogate r \<longleftrightarrow> 0xD800 \<le> r \<and> r < 0xE000"

text \<open>\<^verbatim>\<open>getu4\<close>: the value of a \<^verbatim>\<open>\uXXXX\<close> escape at the start of the string.\<close>

definition getu4 :: "string \<Rightarrow> nat option" where
  "getu4 s =
     (if 6 \<le> length s \<and> s ! 0 = CHR 0x5C \<and> s ! 1 = CHR ''u'' \<and> list_all is_hex (take 4 (drop 2 s))
      then Some (hex_val (take 4 (drop 2 s))) else None)"

text \<open>\<^verbatim>\<open>utf16.DecodeRune\<close>: the rune of a surrogate pair.\<close>

definition utf16_pair :: "nat \<Rightarrow> nat option \<Rightarrow> nat option" where
  "utf16_pair r1 next =
     (case next of
        None \<Rightarrow> None
      | Some r2 \<Rightarrow>
          if 0xD800 \<le> r1 \<and> r1 < 0xDC00 \<and> 0xDC00 \<le> r2 \<and> r2 < 0xE000
          then Some ((r1 - 0xD800) * 1024 + (r2 - 0xDC00) + 0x10000) else None)"

definition unescape_char :: "char \<Rightarrow> char" where
  "unescape_char e =
     (if e = CHR ''b'' then char_of (8 :: nat) else if e = CHR ''f'' then char_of (12 :: nat)
      else if e = CHR ''n'' then char_of (10 :: nat) else if e = CHR ''r'' then char_of (13 :: nat)
      else if e = CHR ''t'' then char_of (9 :: nat) else e)"

text \<open>
  One step of \<^verbatim>\<open>unquote\<close> on a scanned body: the bytes written and how many are consumed.
\<close>

definition unquote_step :: "string \<Rightarrow> string \<times> nat" where
  "unquote_step s =
     (if hd s = CHR 0x5C then
        (case getu4 s of
           Some r \<Rightarrow>
             if is_surrogate r then
               (case utf16_pair r (getu4 (drop 6 s)) of
                  Some p \<Rightarrow> (encode_rune p, 12)
                | None \<Rightarrow> (rune_error, 6))
             else (encode_rune r, 6)
         | None \<Rightarrow> ([unescape_char (s ! 1)], 2))
      else if rune_len s = 0 then (rune_error, 1)
      else (take (rune_len s) s, rune_len s))"

function unquote :: "string \<Rightarrow> string" where
  "unquote s =
     (if s = [] then [] else fst (unquote_step s) @ unquote (drop (snd (unquote_step s)) s))"
  by pat_completeness auto
termination
proof (relation "measure length")
  fix s :: string
  assume "s \<noteq> []"
  moreover have "0 < snd (unquote_step s)"
    by (auto simp: unquote_step_def split: option.splits)
  ultimately show "(drop (snd (unquote_step s)) s, s) \<in> measure length"
    by simp
qed simp

declare unquote.simps [simp del]

definition scan_fraction :: "string \<Rightarrow> (string \<times> string) option" where
  "scan_fraction s =
     (case s of
        c # t \<Rightarrow>
          if c = CHR ''.'' then
            (if takeWhile is_digit t = [] then None
             else Some (c # takeWhile is_digit t, dropWhile is_digit t))
          else Some ([], s)
      | [] \<Rightarrow> Some ([], []))"

definition scan_exponent :: "string \<Rightarrow> (string \<times> string) option" where
  "scan_exponent s =
     (case s of
        c # t \<Rightarrow>
          if c = CHR ''e'' \<or> c = CHR ''E'' then
            (let sign = (case t of d # _ \<Rightarrow> if d = CHR ''+'' \<or> d = CHR ''-'' then [d] else [] | [] \<Rightarrow> []);
                 u = drop (length sign) t
             in if takeWhile is_digit u = [] then None
                else Some (c # sign @ takeWhile is_digit u, dropWhile is_digit u))
          else Some ([], s)
      | [] \<Rightarrow> Some ([], []))"

definition scan_number :: "string \<Rightarrow> (string \<times> string) option" where
  "scan_number s =
     (let sign = (if s \<noteq> [] \<and> hd s = CHR ''-'' then [CHR ''-''] else []);
          s1 = drop (length sign) s;
          ds = takeWhile is_digit s1;
          whole = (if ds \<noteq> [] \<and> hd ds = CHR ''0'' then [CHR ''0''] else ds)
      in if ds = [] then None
         else case scan_fraction (drop (length whole) s1) of
             None \<Rightarrow> None
           | Some (f, s2) \<Rightarrow>
               (case scan_exponent s2 of
                  None \<Rightarrow> None
                | Some (e, s3) \<Rightarrow> Some (sign @ whole @ f @ e, s3)))"

definition maxNestingDepth :: nat where
  "maxNestingDepth = 10000"

definition scan_word :: "string \<Rightarrow> json \<Rightarrow> string \<Rightarrow> (json \<times> string) option" where
  "scan_word w v s = (if take (length w) s = w then Some (v, drop (length w) s) else None)"

definition scan_literal :: "string \<Rightarrow> (json \<times> string) option" where
  "scan_literal s =
     (if s = [] then None
      else if hd s = CHR ''\"'' then map_option (\<lambda>(b, r). (JStr (unquote b), r)) (scan_string (tl s))
      else if hd s = CHR ''n'' then scan_word ''null'' JNull s
      else if hd s = CHR ''t'' then scan_word ''true'' (JBool True) s
      else if hd s = CHR ''f'' then scan_word ''false'' (JBool False) s
      else map_option (\<lambda>(b, r). (JNum b, r)) (scan_number s))"

fun parse_value :: "nat \<Rightarrow> nat \<Rightarrow> string \<Rightarrow> (json \<times> string) option"
  and parse_elements :: "nat \<Rightarrow> nat \<Rightarrow> string \<Rightarrow> (json list \<times> string) option"
  and parse_members :: "nat \<Rightarrow> nat \<Rightarrow> string \<Rightarrow> ((string \<times> json) list \<times> string) option"
where
  "parse_value 0 d s = None"
| "parse_value (Suc n) d s =
     (case skip_ws s of
        [] \<Rightarrow> None
      | c # t \<Rightarrow>
          if c = CHR ''{'' then
            (if maxNestingDepth \<le> d then None
             else if take 1 (skip_ws t) = ''}'' then Some (JObj [], drop 1 (skip_ws t))
             else map_option (\<lambda>(ms, r). (JObj ms, r)) (parse_members n (Suc d) t))
          else if c = CHR ''['' then
            (if maxNestingDepth \<le> d then None
             else if take 1 (skip_ws t) = '']'' then Some (JArr [], drop 1 (skip_ws t))
             else map_option (\<lambda>(vs, r). (JArr vs, r)) (parse_elements n (Suc d) t))
          else scan_literal (c # t))"
| "parse_elements 0 d s = None"
| "parse_elements (Suc n) d s =
     (case parse_value n d s of
        None \<Rightarrow> None
      | Some (v, r) \<Rightarrow>
          (case skip_ws r of
             [] \<Rightarrow> None
           | c # t \<Rightarrow>
               if c = CHR '','' then map_option (\<lambda>(vs, q). (v # vs, q)) (parse_elements n d t)
               else if c = CHR '']'' then Some ([v], t)
               else None))"
| "parse_members 0 d s = None"
| "parse_members (Suc n) d s =
     (if take 1 (skip_ws s) \<noteq> [CHR ''\"''] then None
      else case scan_string (drop 1 (skip_ws s)) of
        None \<Rightarrow> None
      | Some (k, r) \<Rightarrow>
          if take 1 (skip_ws r) \<noteq> '':'' then None
          else case parse_value n d (drop 1 (skip_ws r)) of
            None \<Rightarrow> None
          | Some (v, r') \<Rightarrow>
              (case skip_ws r' of
                 [] \<Rightarrow> None
               | c # t \<Rightarrow>
                   if c = CHR '','' then map_option (\<lambda>(ms, q). ((unquote k, v) # ms, q)) (parse_members n d t)
                   else if c = CHR ''}'' then Some ([(unquote k, v)], t)
                   else None))"

text \<open>\<^verbatim>\<open>json.Unmarshal\<close>'s tree, and the tree of the first value of a \<^verbatim>\<open>json.Decoder\<close>.\<close>

definition Decode_tree :: "string \<Rightarrow> json option" where
  "Decode_tree s = map_option fst (parse_value (Suc (2 * length s)) 0 s)"

definition Unmarshal_tree :: "string \<Rightarrow> json option" where
  "Unmarshal_tree s =
     (case parse_value (Suc (2 * length s)) 0 s of
        None \<Rightarrow> None
      | Some (j, r) \<Rightarrow> if skip_ws r = [] then Some j else None)"

subsection \<open>Struct decoding\<close>

text \<open>
  \<^verbatim>\<open>foldName\<close> on the keys that matter: field names are ASCII, and the only runes outside ASCII
  that fold into it are U+017F (to S) and U+212A (to K).
\<close>

function fold_name :: "string \<Rightarrow> string" where
  "fold_name s =
     (if s = [] then []
      else if take 2 s = encode_rune 0x17F then CHR ''S'' # fold_name (drop 2 s)
      else if take 3 s = encode_rune 0x212A then CHR ''K'' # fold_name (drop 3 s)
      else (if CHR ''a'' \<le> hd s \<and> hd s \<le> CHR ''z'' then char_of (byte (hd s) - 32) else hd s)
             # fold_name (drop 1 s))"
  by pat_completeness auto
termination
  by (relation "measure length") auto

declare fold_name.simps [simp del]

definition field_match :: "string \<Rightarrow> string \<Rightarrow> bool" where
  "field_match name key \<longleftrightarrow> key = name \<or> fold_name key = fold_name name"

text \<open>
  Storing a value in a field that holds \<open>old\<close>: \<^verbatim>\<open>null\<close> leaves it, a value of another kind
  or out of range is an \<^verbatim>\<open>UnmarshalTypeError\<close>, which fails the whole call.
\<close>

definition into_string :: "json \<Rightarrow> string \<Rightarrow> string option" where
  "into_string v old = (case v of JNull \<Rightarrow> Some old | JStr s \<Rightarrow> Some s | _ \<Rightarrow> None)"

definition into_int :: "json \<Rightarrow> int \<Rightarrow> int option" where
  "into_int v old = (case v of JNull \<Rightarrow> Some old | JNum r \<Rightarrow> Atoi r | _ \<Rightarrow> None)"

definition into_uint :: "'w::len itself \<Rightarrow> json \<Rightarrow> 'w word \<Rightarrow> 'w word option" where
  "into_uint w v old =
     (case v of
        JNull \<Rightarrow> Some old
      | JNum r \<Rightarrow> map_option word_of_nat (parse_uint (2 ^ LENGTH('w) - 1) r)
      | _ \<Rightarrow> None)"

text \<open>The members of an object in order, each stored by \<open>f\<close>; \<^verbatim>\<open>null\<close> leaves a struct alone.\<close>

fun into_members :: "(string \<Rightarrow> json \<Rightarrow> 'a \<Rightarrow> 'a option) \<Rightarrow> (string \<times> json) list \<Rightarrow> 'a \<Rightarrow> 'a option" where
  "into_members f [] a = Some a"
| "into_members f ((k, v) # ms) a =
     (case f k v a of None \<Rightarrow> None | Some b \<Rightarrow> into_members f ms b)"

definition into_struct :: "(string \<Rightarrow> json \<Rightarrow> 'a \<Rightarrow> 'a option) \<Rightarrow> json \<Rightarrow> 'a \<Rightarrow> 'a option" where
  "into_struct f v a = (case v of JNull \<Rightarrow> Some a | JObj ms \<Rightarrow> into_members f ms a | _ \<Rightarrow> None)"

text \<open>
  A slice is its elements and what earlier elements its backing array still holds behind them:
  decoding an array into a slice stores element \<open>i\<close> over what the array holds there, so a
  repeated key sees the values of the first occurrence.
\<close>

type_synonym 'a slice = "'a list \<times> 'a list"

fun into_elements :: "(json \<Rightarrow> 'a \<Rightarrow> 'a option) \<Rightarrow> 'a \<Rightarrow> json list \<Rightarrow> 'a list \<Rightarrow> 'a slice option" where
  "into_elements f zero [] backing = Some ([], backing)"
| "into_elements f zero (v # vs) backing =
     (case f v (case backing of [] \<Rightarrow> zero | x # _ \<Rightarrow> x) of
        None \<Rightarrow> None
      | Some x \<Rightarrow> map_option (\<lambda>(xs, rest). (x # xs, rest)) (into_elements f zero vs (drop 1 backing)))"

definition into_slice :: "(json \<Rightarrow> 'a \<Rightarrow> 'a option) \<Rightarrow> 'a \<Rightarrow> json \<Rightarrow> 'a slice \<Rightarrow> 'a slice option" where
  "into_slice f zero v old =
     (case v of
        JNull \<Rightarrow> Some ([], [])
      | JArr [] \<Rightarrow> Some ([], [])
      | JArr vs \<Rightarrow> into_elements f zero vs (fst old @ snd old)
      | _ \<Rightarrow> None)"

end
