(* ===== verification/Json_Laws.thy ===== *)
theory Json_Laws
  imports Go_Json
begin

text \<open>
  The laws of the JSON model: \<open>unquote_quote_body\<close> (what a string becomes through a round
  trip), \<open>valid_utf8_unquote\<close> (every decoded string is valid UTF-8), \<open>parse_value_fuel\<close>
  (the parser's fuel is enough), and \<open>Unmarshal_print\<close> (printing a tree of valid strings and
  integers and scanning it gives the tree back).
\<close>

subsection \<open>Lemmas: UTF-8\<close>

lemma byte_less [simp]: "byte c < 256"
  by (simp add: byte_def)

lemma byte_char_of [simp]: "byte (char_of n) = n mod 256"
  by (simp add: byte_def)

lemma char_of_byte [simp]: "char_of (byte c) = c"
  by (simp add: byte_def)

lemma byte_inject: "byte c = byte d \<longleftrightarrow> c = d"
  by (simp add: byte_def)

lemma rune_len_Nil [simp]: "rune_len [] = 0"
  by (simp add: rune_len_def)

lemma rune_len_le: "rune_len s \<le> length s"
  by (cases s) (auto simp: rune_len_def)

lemma rune_len_cases: "rune_len s = 0 \<or> rune_len s = lead_size (hd s)"
  by (auto simp: rune_len_def)

lemma rune_len_ascii [simp]: "byte c < 0x80 \<Longrightarrow> rune_len (c # s) = 1"
  by (simp add: rune_len_def lead_size_def)

lemma rune_len_cong:
  assumes "rune_len s \<noteq> 0" and "take (rune_len s) s = take (rune_len s) t"
  shows "rune_len t = rune_len s"
proof -
  define n where "n = lead_size (hd s)"
  have n: "rune_len s = n" "0 < n" "n \<le> length s"
    using assms(1) rune_len_cases [of s] rune_len_le [of s] by (auto simp: n_def)
  have len: "n \<le> length t"
    using arg_cong [OF assms(2), of length] n by simp
  have "hd t = hd s"
    using assms(2) n len by (metis hd_take)
  moreover have "t ! 1 = s ! 1" if "1 < n"
    using assms(2) n(1) that by (metis nth_take)
  moreover have "take n t = take n s"
    using assms(2) n(1) by simp
  ultimately show ?thesis
    using n len unfolding rune_len_def n_def by (auto split: if_splits)
qed

lemma rune_len_append: "rune_len s \<noteq> 0 \<Longrightarrow> rune_len (s @ t) = rune_len s"
  by (rule rune_len_cong) (auto simp: rune_len_le)

lemma rune_len_take [simp]: "rune_len (take (rune_len s) s) = rune_len s"
  by (cases "rune_len s = 0") (auto intro: rune_len_cong)

lemma rune_high:
  assumes "c \<in> set (take (rune_len s) s)" and "rune_len s \<noteq> 1"
  shows "0x80 \<le> byte c"
proof -
  define n where "n = lead_size (hd s)"
  have "rune_len s \<noteq> 0"
    using assms(1) by (cases "rune_len s") auto
  then have n: "rune_len s = n" "2 \<le> n" "n \<le> length s"
    using assms(2) rune_len_cases [of s] rune_len_le [of s] by (simp_all add: n_def)
  obtain a b t where s: "s = a # b # t"
    using n by (cases s; cases "tl s") auto
  have "accept_second a b" "list_all is_cont (drop 2 (take n s))" "0x80 \<le> byte a"
    using n assms(2) unfolding rune_len_def n_def s by (auto simp: lead_size_def split: if_splits)
  moreover have "c = a \<or> c = b \<or> c \<in> set (drop 2 (take n s))"
    using assms(1) n s by (cases n; cases "n - 1") auto
  ultimately show ?thesis
    by (auto simp: accept_second_def is_cont_def list_all_iff split: if_splits)
qed

lemma rune_len_1: "rune_len s = 1 \<longleftrightarrow> (\<exists>c t. s = c # t \<and> byte c < 0x80)"
  by (cases s) (auto simp: rune_len_def lead_size_def split: if_splits)

lemma valid_utf8_Nil [simp]: "valid_utf8 []"
  by (subst valid_utf8.simps) simp

lemma valid_utf8_append:
  "valid_utf8 s \<Longrightarrow> valid_utf8 t \<Longrightarrow> valid_utf8 (s @ t)"
proof (induction s rule: valid_utf8.induct)
  case (1 s)
  show ?case
  proof (cases "s = []")
    case False
    with 1(2) have n: "rune_len s \<noteq> 0" and rest: "valid_utf8 (drop (rune_len s) s)"
      by (auto simp: valid_utf8.simps [of s] split: if_splits)
    have "valid_utf8 (drop (rune_len s) s @ t)"
      by (rule 1(1) [OF False n rest 1(3)])
    then show ?thesis
      using n False rune_len_le [of s] by (subst valid_utf8.simps) (simp add: rune_len_append)
  qed (use 1 in simp)
qed

lemma valid_utf8_rune: "rune_len s \<noteq> 0 \<Longrightarrow> valid_utf8 (take (rune_len s) s)"
  by (subst valid_utf8.simps) simp

lemma valid_utf8_ascii: "(\<And>c. c \<in> set s \<Longrightarrow> byte c < 0x80) \<Longrightarrow> valid_utf8 s"
  by (induction s) (auto simp: valid_utf8.simps [of "_ # _"])

lemma rune_len_2:
  fixes a b :: nat
  assumes "0xC2 \<le> a" "a < 0xE0" "0x80 \<le> b" "b < 0xC0"
  shows "rune_len [char_of a, char_of b] = 2"
  using assms by (simp add: rune_len_def lead_size_def accept_second_def)

lemma rune_len_3:
  fixes a b c :: nat
  assumes "0xE0 \<le> a" "a < 0xF0" "0x80 \<le> b" "b < 0xC0" "0x80 \<le> c" "c < 0xC0"
    and "a = 0xE0 \<Longrightarrow> 0xA0 \<le> b" "a = 0xED \<Longrightarrow> b < 0xA0"
  shows "rune_len [char_of a, char_of b, char_of c] = 3"
  using assms by (auto simp: rune_len_def lead_size_def accept_second_def is_cont_def)

lemma rune_len_4:
  fixes a b c d :: nat
  assumes "0xF0 \<le> a" "a < 0xF5" "0x80 \<le> b" "b < 0xC0" "0x80 \<le> c" "c < 0xC0" "0x80 \<le> d" "d < 0xC0"
    and "a = 0xF0 \<Longrightarrow> 0x90 \<le> b" "a = 0xF4 \<Longrightarrow> b < 0x90"
  shows "rune_len [char_of a, char_of b, char_of c, char_of d] = 4"
  using assms by (auto simp: rune_len_def lead_size_def accept_second_def is_cont_def)

lemma rune_len_encode_rune:
  assumes "r < 0x110000" and "\<not> is_surrogate r"
  shows "rune_len (encode_rune r) = length (encode_rune r)"
proof -
  consider "r < 0x80" | "0x80 \<le> r" "r < 0x800" | "0x800 \<le> r" "r < 0x10000" | "0x10000 \<le> r"
    by linarith
  then show ?thesis
  proof cases
    case 2
    have "r div 64 < 32" "2 \<le> r div 64"
      using 2 div_le_mono [OF 2(1), of 64] by (simp_all add: less_mult_imp_div_less)
    then have "rune_len [char_of (0xC0 + r div 64), char_of (0x80 + r mod 64)] = 2"
      by (intro rune_len_2) simp_all
    then show ?thesis
      using 2 by (simp add: encode_rune_def)
  next
    case 3
    have split: "r div 64 = 64 * (r div 4096) + r div 64 mod 64"
      using div_mult2_eq [of r 64 64] by simp
    have "r div 4096 < 16" "32 \<le> r div 64"
      using 3 div_le_mono [OF 3(1), of 64] by (simp_all add: less_mult_imp_div_less)
    note bounds = this mod_less_divisor [of 64 r] mod_less_divisor [of 64 "r div 64"]
    have "rune_len [char_of (0xE0 + r div 4096), char_of (0x80 + r div 64 mod 64), char_of (0x80 + r mod 64)] = 3"
    proof (rule rune_len_3)
      show "0xA0 \<le> 0x80 + r div 64 mod 64" if "0xE0 + r div 4096 = 0xE0"
        using that split bounds by linarith
      show "0x80 + r div 64 mod 64 < 0xA0" if "0xE0 + r div 4096 = 0xED"
        using that split assms(2) bounds div_mult_mod_eq [of r 64] unfolding is_surrogate_def by linarith
    qed (use bounds in simp_all)
    then show ?thesis
      using 3 by (simp add: encode_rune_def)
  next
    case 4
    have split: "r div 4096 = 64 * (r div 262144) + r div 4096 mod 64"
      using div_mult2_eq [of r 4096 64] by simp
    have "r div 4096 < 272" "16 \<le> r div 4096"
      using 4 assms(1) div_le_mono [OF 4, of 4096] by (simp_all add: less_mult_imp_div_less)
    note bounds = this mod_less_divisor [of 64 r] mod_less_divisor [of 64 "r div 64"]
      mod_less_divisor [of 64 "r div 4096"]
    have "rune_len [char_of (0xF0 + r div 262144), char_of (0x80 + r div 4096 mod 64),
        char_of (0x80 + r div 64 mod 64), char_of (0x80 + r mod 64)] = 4"
    proof (rule rune_len_4)
      show "0x90 \<le> 0x80 + r div 4096 mod 64" if "0xF0 + r div 262144 = 0xF0"
        using that split bounds by linarith
      show "0x80 + r div 4096 mod 64 < 0x90" if "0xF0 + r div 262144 = 0xF4"
        using that split bounds by linarith
    qed (use bounds split in linarith)+
    then show ?thesis
      using 4 by (simp add: encode_rune_def)
  qed (simp add: encode_rune_def)
qed

lemma valid_encode_rune:
  assumes "r < 0x110000" and "\<not> is_surrogate r"
  shows "valid_utf8 (encode_rune r)"
  using rune_len_encode_rune [OF assms] valid_utf8_rune [of "encode_rune r"] by (cases "encode_rune r") auto

lemma valid_rune_error [simp]: "valid_utf8 rune_error"
  by (simp add: rune_error_def valid_encode_rune is_surrogate_def)

lemma to_valid_id: "valid_utf8 s \<Longrightarrow> to_valid s = s"
proof (induction s rule: to_valid.induct)
  case (1 s)
  then show ?case
    by (auto simp: to_valid.simps [of s] valid_utf8.simps [of s] split: if_splits)
qed

subsection \<open>Lemmas: scanned strings\<close>

lemma scan_string_split:
  "scan_string s = Some (b, r) \<Longrightarrow>
     s = b @ CHR 0x22 # r \<and> (\<forall>t. scan_string (b @ CHR 0x22 # t) = Some (b, t))"
proof (induction s arbitrary: b r rule: scan_string.induct)
  case (2 c s)
  show ?case
  proof (cases "c = CHR 0x22 \<or> byte c < 32 \<or> c \<noteq> CHR 0x5C")
    case True
    with 2(3) [of _ r] 2(4) show ?thesis
      by (auto split: if_splits)
  next
    case esc: False
    show ?thesis
    proof (cases "hd s = CHR ''u''")
      case True
      with esc 2(4) obtain b' where u: "5 \<le> length s" "list_all is_hex (take 4 (drop 1 s))"
          "scan_string (drop 5 s) = Some (b', r)" "b = c # take 5 s @ b'"
        by (auto split: if_splits)
      have "drop 5 s = b' @ CHR 0x22 # r \<and> (\<forall>t. scan_string (b' @ CHR 0x22 # t) = Some (b', t))"
        by (rule 2(2)) (use esc True u in auto)
      moreover obtain h1 h2 h3 h4 t where "s = CHR ''u'' # h1 # h2 # h3 # h4 # t"
        using True u(1) by (auto simp: numeral_eq_Suc Suc_le_length_iff)
      ultimately show ?thesis
        using esc u by auto
    next
      case False
      with esc 2(4) obtain e t b' where e: "s = e # t" "scan_string t = Some (b', r)" "b = c # e # b'"
          "e \<in> {CHR ''b'', CHR ''f'', CHR ''n'', CHR ''r'', CHR ''t'', CHR 0x5C, CHR ''/'', CHR 0x22}"
        by (cases s) (auto split: if_splits)
      have "t = b' @ CHR 0x22 # r \<and> (\<forall>t. scan_string (b' @ CHR 0x22 # t) = Some (b', t))"
        using 2(1) [of b' r] esc e by auto
      then show ?thesis
        using esc e by auto
    qed
  qed
qed simp

declare scan_string.simps(2) [simp del]

lemma scan_string_quote [simp]: "scan_string (CHR 0x22 # s) = Some ([], s)"
  by (simp add: scan_string.simps)

lemma scan_string_plain:
  "c \<noteq> CHR 0x22 \<Longrightarrow> c \<noteq> CHR 0x5C \<Longrightarrow>
     scan_string (c # s) = (if byte c < 32 then None else map_option (\<lambda>(b, r). (c # b, r)) (scan_string s))"
  by (simp add: scan_string.simps)

lemma scan_string_unicode:
  "scan_string (CHR 0x5C # CHR ''u'' # s) =
     (if 4 \<le> length s \<and> list_all is_hex (take 4 s)
      then map_option (\<lambda>(b, r). (CHR 0x5C # CHR ''u'' # take 4 s @ b, r)) (scan_string (drop 4 s)) else None)"
  by (auto simp: scan_string.simps byte_def)

lemma scan_string_escape:
  "e \<noteq> CHR ''u'' \<Longrightarrow> scan_string (CHR 0x5C # e # s) =
     (if e \<in> {CHR ''b'', CHR ''f'', CHR ''n'', CHR ''r'', CHR ''t'', CHR 0x5C, CHR ''/'', CHR 0x22}
      then map_option (\<lambda>(b, r). (CHR 0x5C # e # b, r)) (scan_string s) else None)"
  by (auto simp: scan_string.simps byte_def)

text \<open>A body the scanner accepts.\<close>

definition scanned :: "string \<Rightarrow> bool" where
  "scanned b \<longleftrightarrow> (\<forall>t. scan_string (b @ CHR 0x22 # t) = Some (b, t))"

lemma scan_string_scanned: "scan_string s = Some (b, r) \<Longrightarrow> scanned b"
  using scan_string_split by (simp add: scanned_def)

lemma scanned_Cons:
  assumes "scanned (c # b)" and "c \<noteq> CHR 0x5C"
  shows "scanned b"
proof -
  have scan: "scan_string (c # b @ CHR 0x22 # t) = Some (c # b, t)" for t
    using assms(1) by (simp add: scanned_def)
  have "scan_string (b @ CHR 0x22 # t) = Some (b, t)" for t
    using scan [of t] assms(2) by (cases "c = CHR 0x22") (auto simp: scan_string_plain split: if_splits)
  then show ?thesis
    by (simp add: scanned_def)
qed

lemma scanned_drop:
  "scanned s \<Longrightarrow> (\<And>c. c \<in> set (take n s) \<Longrightarrow> c \<noteq> CHR 0x5C) \<Longrightarrow> scanned (drop n s)"
proof (induction n arbitrary: s)
  case (Suc n)
  show ?case
  proof (cases s)
    case (Cons c t)
    have "scanned t"
      using scanned_Cons [of c t] Suc.prems Cons by simp
    then show ?thesis
      using Suc.IH [of t] Suc.prems Cons by simp
  qed (use Suc.prems in simp)
qed simp

lemma scanned_escape:
  assumes "scanned (CHR 0x5C # s)"
  shows "hd s = CHR ''u'' \<and> 5 \<le> length s \<and> list_all is_hex (take 4 (drop 1 s)) \<and> scanned (drop 5 s) \<or>
    hd s \<noteq> CHR ''u'' \<and> s \<noteq> [] \<and> byte (hd s) < 0x80 \<and> scanned (drop 1 s)"
proof -
  have scan: "scan_string (CHR 0x5C # s @ CHR 0x22 # t) = Some (CHR 0x5C # s, t)" for t
    using assms by (simp add: scanned_def)
  have "s \<noteq> []"
    using scan [of "[]"] by (auto simp: scan_string_escape)
  then obtain e b where s: "s = e # b"
    by (cases s) auto
  show ?thesis
  proof (cases "e = CHR ''u''")
    case True
    have scan_u: "scan_string (CHR 0x5C # CHR ''u'' # b @ CHR 0x22 # t) = Some (CHR 0x5C # CHR ''u'' # b, t)" for t
      using scan s True by simp
    have u: "list_all is_hex (take 4 (b @ CHR 0x22 # t)) \<and> (\<exists>b'. b = take 4 (b @ CHR 0x22 # t) @ b' \<and>
        scan_string (drop 4 (b @ CHR 0x22 # t)) = Some (b', t)) \<and> 4 \<le> length (b @ CHR 0x22 # t)" for t
      using scan_u [of t] unfolding scan_string_unicode by (auto simp del: take_append drop_append split: if_splits)
    have len: "4 \<le> length b"
    proof -
      obtain b' where "b = take 4 (b @ CHR 0x22 # []) @ b'" "4 \<le> length (b @ CHR 0x22 # [])"
        using u by blast
      from arg_cong [OF this(1), of length] this(2) show ?thesis
        by simp
    qed
    have "scan_string (drop 4 b @ CHR 0x22 # t) = Some (drop 4 b, t)" for t
    proof -
      obtain b' where "b = take 4 b @ b'" "scan_string (drop 4 b @ CHR 0x22 # t) = Some (b', t)"
        using u [of t] len by auto
      then show ?thesis
        by (metis append_eq_conv_conj append_take_drop_id same_append_eq)
    qed
    then have "scanned (drop 4 b)"
      by (simp add: scanned_def)
    then show ?thesis
      using u [of "[]"] len s True by simp
  next
    case False
    have scan_e: "scan_string (CHR 0x5C # e # b @ CHR 0x22 # t) = Some (CHR 0x5C # e # b, t)" for t
      using scan s by simp
    have e: "e \<in> {CHR ''b'', CHR ''f'', CHR ''n'', CHR ''r'', CHR ''t'', CHR 0x5C, CHR ''/'', CHR 0x22} \<and>
        scan_string (b @ CHR 0x22 # t) = Some (b, t)" for t
      using scan_e [of t] False by (auto simp: scan_string_escape split: if_splits)
    have "byte e < 0x80"
      using e [of "[]"] by (auto simp: byte_def)
    moreover have "scanned b"
      using e by (simp add: scanned_def)
    ultimately show ?thesis
      using False s by simp
  qed
qed

lemma hex_digit_less: "is_hex c \<Longrightarrow> hex_digit c < 16"
  by (auto simp: is_hex_def is_digit_def hex_digit_def less_eq_char_def)

lemma hex_val_snoc [simp]: "hex_val (cs @ [c]) = hex_val cs * 16 + hex_digit c"
  by (simp add: hex_val_def)

lemma hex_val_less: "list_all is_hex cs \<Longrightarrow> hex_val cs < 16 ^ length cs"
proof (induction cs rule: rev_induct)
  case (snoc c cs)
  then show ?case
    using hex_digit_less [of c] by simp
qed (simp add: hex_val_def)

lemma getu4_less: "getu4 s = Some r \<Longrightarrow> r < 0x10000"
proof -
  assume *: "getu4 s = Some r"
  then have "length (take 4 (drop 2 s)) = 4"
    by (auto simp: getu4_def split: if_splits)
  with * hex_val_less [of "take 4 (drop 2 s)"] show ?thesis
    by (auto simp: getu4_def split: if_splits)
qed

lemma utf16_pair_valid: "utf16_pair a b = Some r \<Longrightarrow> 0x10000 \<le> r \<and> r < 0x110000"
  by (auto simp: utf16_pair_def split: option.splits if_splits)

lemma scanned_getu4: "scanned s \<Longrightarrow> getu4 s = Some r \<Longrightarrow> scanned (drop 6 s)"
  using scanned_escape [of "tl s"] by (cases s) (auto simp: getu4_def hd_conv_nth split: if_splits)

lemma unquote_step_scanned:
  assumes "scanned s" and "s \<noteq> []"
  shows "valid_utf8 (fst (unquote_step s)) \<and> scanned (drop (snd (unquote_step s)) s)"
proof (cases "hd s = CHR 0x5C")
  case True
  with assms obtain t where s: "s = CHR 0x5C # t" and t: "scanned (CHR 0x5C # t)"
    by (cases s) auto
  show ?thesis
  proof (cases "getu4 s")
    case None
    then have "hd t \<noteq> CHR ''u'' \<and> t \<noteq> [] \<and> byte (hd t) < 0x80 \<and> scanned (drop 1 t)"
      using scanned_escape [OF t] s by (cases t) (auto simp: getu4_def)
    then show ?thesis
      using s None
      by (cases t) (auto simp: unquote_step_def unescape_char_def intro!: valid_utf8_ascii)
  next
    case (Some r)
    have rest: "scanned (drop 6 s)"
      by (rule scanned_getu4 [OF assms(1) Some])
    have pair: "scanned (drop 12 s)" if "getu4 (drop 6 s) = Some q" for q
      using scanned_getu4 [OF rest that] by simp
    show ?thesis
    proof (cases "is_surrogate r")
      case False
      then show ?thesis
        using Some True rest getu4_less [OF Some] by (simp add: unquote_step_def valid_encode_rune)
    next
      case sur: True
      show ?thesis
      proof (cases "utf16_pair r (getu4 (drop 6 s))")
        case None
        then show ?thesis
          using Some True sur rest by (simp add: unquote_step_def)
      next
        case (Some p)
        then obtain q where "getu4 (drop 6 s) = Some q"
          by (auto simp: utf16_pair_def split: option.splits)
        moreover have "p < 0x110000" "\<not> is_surrogate p"
          using utf16_pair_valid [OF Some] by (auto simp: is_surrogate_def)
        ultimately show ?thesis
          using Some \<open>getu4 s = Some r\<close> True sur pair by (simp add: unquote_step_def valid_encode_rune)
      qed
    qed
  qed
next
  case False
  show ?thesis
  proof (cases "rune_len s = 0")
    case True
    then show ?thesis
      using False assms scanned_Cons [of "hd s" "tl s"] by (cases s) (auto simp: unquote_step_def)
  next
    case rune: False
    have "c \<noteq> CHR 0x5C" if "c \<in> set (take (rune_len s) s)" for c
    proof (cases "rune_len s = 1")
      case True
      then show ?thesis
        using that False by (cases s) auto
    next
      case nt: False
      then show ?thesis
        using rune_high [OF that nt] by (auto simp: byte_def)
    qed
    then show ?thesis
      using rune False assms(1) by (simp add: unquote_step_def valid_utf8_rune scanned_drop)
  qed
qed

lemma valid_utf8_unquote: "scanned s \<Longrightarrow> valid_utf8 (unquote s)"
proof (induction s rule: unquote.induct)
  case (1 s)
  then show ?case
    using unquote_step_scanned [OF 1(2)] by (subst unquote.simps) (auto intro: valid_utf8_append)
qed

subsection \<open>Lemmas: quoting round trip\<close>

text \<open>Output \<open>e\<close> of the encoder that the decoder reads, in one step, as \<open>v\<close>.\<close>

definition chunk :: "string \<Rightarrow> string \<Rightarrow> bool" where
  "chunk e v \<longleftrightarrow> e \<noteq> [] \<and>
     (\<forall>x. scan_string (e @ x) = map_option (\<lambda>(b, r). (e @ b, r)) (scan_string x) \<and>
          unquote_step (e @ x) = (v, length e))"

lemma chunk_unquote: "chunk e v \<Longrightarrow> unquote (e @ x) = v @ unquote x"
  by (subst unquote.simps) (auto simp: chunk_def)

lemma chunk_plain:
  "byte c < 0x80 \<Longrightarrow> 32 \<le> byte c \<Longrightarrow> c \<noteq> CHR 0x22 \<Longrightarrow> c \<noteq> CHR 0x5C \<Longrightarrow> chunk [c] [c]"
  by (simp add: chunk_def scan_string_plain unquote_step_def)

lemma chunk_simple_escape:
  assumes "e \<in> {CHR ''b'', CHR ''f'', CHR ''n'', CHR ''r'', CHR ''t'', CHR 0x5C, CHR ''/'', CHR 0x22}"
  shows "chunk [CHR 0x5C, e] [unescape_char e]"
proof -
  have "e \<noteq> CHR ''u''"
    using assms by auto
  then show ?thesis
    using assms by (simp add: chunk_def scan_string_escape unquote_step_def getu4_def)
qed

lemma chunk_unicode:
  assumes "list_all is_hex h" and "length h = 4" and "\<not> is_surrogate (hex_val h)"
  shows "chunk (CHR 0x5C # CHR ''u'' # h) (encode_rune (hex_val h))"
  using assms by (simp add: chunk_def scan_string_unicode unquote_step_def getu4_def)

lemma hex_digit_hex_char: "d < 16 \<Longrightarrow> is_hex (hex_char d) \<and> hex_digit (hex_char d) = d"
  by (auto simp: hex_char_def is_hex_def is_digit_def hex_digit_def less_eq_char_def)

lemma escape_controls:
  "escape_ascii (CHR 0x08) = [CHR 0x5C, CHR ''b'']" "unescape_char (CHR ''b'') = CHR 0x08"
  "escape_ascii (CHR 0x09) = [CHR 0x5C, CHR ''t'']" "unescape_char (CHR ''t'') = CHR 0x09"
  "escape_ascii (CHR 0x0A) = [CHR 0x5C, CHR ''n'']" "unescape_char (CHR ''n'') = CHR 0x0A"
  "escape_ascii (CHR 0x0C) = [CHR 0x5C, CHR ''f'']" "unescape_char (CHR ''f'') = CHR 0x0C"
  "escape_ascii (CHR 0x0D) = [CHR 0x5C, CHR ''r'']" "unescape_char (CHR ''r'') = CHR 0x0D"
  by code_simp+

lemma chunk_escape_ascii:
  assumes "byte c < 0x80"
  shows "chunk (escape_ascii c) [c]"
proof -
  consider "is_html_safe c" | "c = CHR 0x5C \<or> c = CHR 0x22" "\<not> is_html_safe c"
    | "byte c \<in> {8, 9, 10, 12, 13}" 
    | "\<not> is_html_safe c" "c \<noteq> CHR 0x5C" "c \<noteq> CHR 0x22" "byte c \<notin> {8, 9, 10, 12, 13}"
    by blast
  then show ?thesis
  proof cases
    case 1
    then have "escape_ascii c = [c]"
      by (simp add: escape_ascii_def)
    moreover have "chunk [c] [c]"
      by (rule chunk_plain) (use 1 in \<open>auto simp: is_html_safe_def\<close>)
    ultimately show ?thesis
      by simp
  next
    case 2
    then have "escape_ascii c = [CHR 0x5C, c]" "unescape_char c = c"
      by (auto simp: escape_ascii_def unescape_char_def)
    then show ?thesis
      using chunk_simple_escape [of c] 2 by auto
  next
    case 3
    then have "c \<in> {CHR 0x08, CHR 0x09, CHR 0x0A, CHR 0x0C, CHR 0x0D}"
      by (simp flip: byte_inject add: byte_def)
    then show ?thesis
      using escape_controls chunk_simple_escape [of "CHR ''b''"] chunk_simple_escape [of "CHR ''t''"]
        chunk_simple_escape [of "CHR ''n''"] chunk_simple_escape [of "CHR ''f''"]
        chunk_simple_escape [of "CHR ''r''"]
      by fastforce
  next
    case 4
    define h where "h = [CHR ''0'', CHR ''0'', hex_char (byte c div 16), hex_char (byte c mod 16)]"
    have "hex_val h = byte c div 16 * 16 + byte c mod 16"
      using assms hex_digit_hex_char [of "byte c div 16"] hex_digit_hex_char [of "byte c mod 16"]
      by (simp add: h_def hex_val_def) (simp add: hex_digit_def is_digit_def less_eq_char_def)
    then have v: "hex_val h = byte c"
      by simp
    have "list_all is_hex h"
      using assms hex_digit_hex_char [of "byte c div 16"] hex_digit_hex_char [of "byte c mod 16"]
      by (simp add: h_def) (simp add: is_hex_def is_digit_def less_eq_char_def)
    then have "chunk (CHR 0x5C # CHR ''u'' # h) (encode_rune (hex_val h))"
      by (rule chunk_unicode) (use v assms in \<open>auto simp: h_def is_surrogate_def\<close>)
    then show ?thesis
      using 4 assms by (simp add: v) (simp add: escape_ascii_def encode_rune_def h_def)
  qed
qed


lemma scan_string_high:
  "(\<And>c. c \<in> set e \<Longrightarrow> 0x80 \<le> byte c) \<Longrightarrow>
     scan_string (e @ x) = map_option (\<lambda>(b, r). (e @ b, r)) (scan_string x)"
proof (induction e)
  case Nil
  then show ?case
    by (simp add: option.map_ident split_beta)
next
  case (Cons c e)
  have "c \<noteq> CHR 0x22" "c \<noteq> CHR 0x5C" "\<not> byte c < 32"
    using Cons.prems [of c] by (auto simp: byte_def)
  then show ?case
    using Cons by (simp add: scan_string_plain option.map_comp comp_def split_beta)
qed

lemma chunk_multibyte:
  assumes "rune_len s = length s" and "1 < length s"
  shows "chunk s s"
proof -
  have high: "0x80 \<le> byte c" if "c \<in> set s" for c
    using rune_high [of c s] assms that by simp
  have "hd s \<noteq> CHR 0x5C"
    using high [of "hd s"] assms(2) by (cases s) (auto simp: byte_def)
  moreover have "rune_len (s @ x) = length s" for x
    using rune_len_append [of s x] assms by linarith
  ultimately show ?thesis
    using assms high by (auto simp: chunk_def scan_string_high unquote_step_def hd_append)
qed

lemma chunk_escapes:
  "chunk (CHR 0x5C # ''ufffd'') rune_error"
  "chunk (CHR 0x5C # ''u2028'') (encode_rune 0x2028)"
  "chunk (CHR 0x5C # ''u2029'') (encode_rune 0x2029)"
proof -
  have "hex_val ''fffd'' = 0xFFFD" "hex_val ''2028'' = 0x2028" "hex_val ''2029'' = 0x2029"
    "list_all is_hex ''fffd''" "list_all is_hex ''2028''" "list_all is_hex ''2029''"
    by (simp_all add: hex_val_def hex_digit_def is_hex_def is_digit_def less_eq_char_def)
  then show "chunk (CHR 0x5C # ''ufffd'') rune_error"
    "chunk (CHR 0x5C # ''u2028'') (encode_rune 0x2028)"
    "chunk (CHR 0x5C # ''u2029'') (encode_rune 0x2029)"
    using chunk_unicode [of "''fffd''"] chunk_unicode [of "''2028''"] chunk_unicode [of "''2029''"]
    by (simp_all add: rune_error_def is_surrogate_def)
qed

lemma chunk_escape_rune:
  assumes "rune_len s \<noteq> 0"
  shows "chunk (escape_rune (take (rune_len s) s)) (take (rune_len s) s)"
proof -
  define r where "r = take (rune_len s) s"
  have r: "rune_len r = length r" "r \<noteq> []"
    using assms rune_len_le [of s] by (auto simp: r_def)
  have "(\<exists>c. r = [c]) \<or> 1 < length r"
    using r(2) by (cases r; cases "tl r") auto
  then consider "r = encode_rune 0x2028" | "r = encode_rune 0x2029" "r \<noteq> encode_rune 0x2028"
    | c where "r = [c]" | "1 < length r" "r \<noteq> encode_rune 0x2028" "r \<noteq> encode_rune 0x2029"
    by blast
  then have "chunk (escape_rune r) r"
  proof cases
    case 3
    then have "byte c < 0x80"
      using r(1) rune_len_1 [of r] by auto
    moreover have "escape_rune r = escape_ascii c"
      using 3 by (simp add: escape_rune_def encode_rune_def)
    ultimately show ?thesis
      using 3 chunk_escape_ascii by simp
  next
    case 4
    then have "escape_rune r = r"
      by (cases r) (auto simp: escape_rune_def)
    then show ?thesis
      using chunk_multibyte [OF r(1) 4(1)] by simp
  qed (use chunk_escapes in \<open>simp_all add: escape_rune_def\<close>)
  then show ?thesis
    by (simp add: r_def)
qed

theorem unquote_quote_body: "unquote (quote_body s) = to_valid s"
proof (induction s rule: quote_body.induct)
  case (1 s)
  show ?case
  proof (cases "s = []")
    case True
    then show ?thesis
      by (simp add: quote_body.simps unquote.simps to_valid.simps)
  next
    case False
    show ?thesis
    proof (cases "rune_len s = 0")
      case True
      then have "unquote (quote_body s) = rune_error @ unquote (quote_body (drop 1 s))"
        using False chunk_unquote [OF chunk_escapes(1)] by (simp add: quote_body.simps [of s])
      then show ?thesis
        using 1(1) [OF False True] False True by (simp add: to_valid.simps [of s])
    next
      case rune: False
      then show ?thesis
        using 1(2) [OF False rune] False chunk_unquote [OF chunk_escape_rune [OF rune]]
        by (simp add: quote_body.simps [of s] to_valid.simps [of s])
    qed
  qed
qed

theorem scan_quote_body: "scan_string (quote_body s @ CHR 0x22 # r) = Some (quote_body s, r)"
proof (induction s rule: quote_body.induct)
  case (1 s)
  have step: "chunk e v \<Longrightarrow> scan_string (t @ CHR 0x22 # r) = Some (t, r) \<Longrightarrow>
      scan_string ((e @ t) @ CHR 0x22 # r) = Some (e @ t, r)" for e v t
    by (simp add: chunk_def)
  show ?case
  proof (cases "s = []")
    case True
    then show ?thesis
      by (simp add: quote_body.simps)
  next
    case False
    show ?thesis
    proof (cases "rune_len s = 0")
      case True
      then show ?thesis
        using 1(1) [OF False True] False step [OF chunk_escapes(1)] by (simp add: quote_body.simps [of s])
    next
      case rune: False
      then show ?thesis
        using 1(2) [OF False rune] False step [OF chunk_escape_rune [OF rune]]
        by (simp add: quote_body.simps [of s])
    qed
  qed
qed

subsection \<open>Lemmas: the parser consumes input, and its fuel is enough\<close>

lemma length_skip_ws: "length (skip_ws s) \<le> length s"
  by (simp add: skip_ws_def length_dropWhile_le)

lemma scan_string_shorter: "scan_string s = Some (b, r) \<Longrightarrow> length r < length s"
  using scan_string_split by fastforce

lemma scan_fraction_shorter: "scan_fraction s = Some (b, r) \<Longrightarrow> length r \<le> length s"
  by (auto simp: scan_fraction_def length_dropWhile_le le_SucI split: list.splits if_splits)

lemma scan_exponent_shorter: "scan_exponent s = Some (b, r) \<Longrightarrow> length r \<le> length s"
  by (auto simp: scan_exponent_def Let_def length_dropWhile_le le_SucI split: list.splits if_splits)

lemma scan_number_shorter:
  assumes "scan_number s = Some (b, r)"
  shows "length r < length s"
proof -
  define sign where "sign = (if s \<noteq> [] \<and> hd s = CHR ''-'' then [CHR ''-''] else [])"
  define s1 where "s1 = drop (length sign) s"
  define ds where "ds = takeWhile is_digit s1"
  define whole where "whole = (if ds \<noteq> [] \<and> hd ds = CHR ''0'' then [CHR ''0''] else ds)"
  obtain f s2 e where *: "ds \<noteq> []" "scan_fraction (drop (length whole) s1) = Some (f, s2)"
      "scan_exponent s2 = Some (e, r)"
    using assms unfolding scan_number_def Let_def sign_def [symmetric] s1_def [symmetric]
      ds_def [symmetric] whole_def [symmetric] by (auto split: if_splits option.splits prod.splits)
  have "0 < length whole"
    using *(1) by (simp add: whole_def)
  moreover have "0 < length s1"
    using *(1) by (cases s1) (simp_all add: ds_def)
  moreover have "length s1 \<le> length s"
    by (simp add: s1_def)
  ultimately have "length (drop (length whole) s1) < length s"
    unfolding length_drop by linarith
  then show ?thesis
    using scan_fraction_shorter [OF *(2)] scan_exponent_shorter [OF *(3)] by linarith
qed

lemma scan_word_shorter:
  assumes "scan_word w x s = Some (v, r)" and "w \<noteq> []"
  shows "length r < length s"
proof -
  have w: "take (length w) s = w" "r = drop (length w) s"
    using assms(1) by (auto simp: scan_word_def split: if_splits)
  have "0 < length w" "length w \<le> length s"
    using assms(2) arg_cong [OF w(1), of length] by auto
  then show ?thesis
    unfolding w(2) length_drop by linarith
qed

lemma scan_literal_shorter:
  assumes "scan_literal s = Some (v, r)"
  shows "length r < length s"
proof -
  have "length r < length s" if "scan_string (tl s) = Some (b, r)" for b
    using scan_string_shorter [OF that] by simp
  then show ?thesis
    using assms by (auto simp: scan_literal_def split: if_splits dest: scan_number_shorter scan_word_shorter)
qed

lemma parse_shorter:
  "parse_value n d s = Some (v, r) \<Longrightarrow> length r < length s"
  "parse_elements n d s = Some (vs, r) \<Longrightarrow> length r < length s"
  "parse_members n d s = Some (ms, r) \<Longrightarrow> length r < length s"
proof (induction n d s and n d s and n d s arbitrary: v r and vs r and ms r
    rule: parse_value_parse_elements_parse_members.induct)
  case (2 n d s)
  note len = length_skip_ws [of s]
  obtain c t where st: "skip_ws s = c # t"
    using 2(3) by (auto split: list.splits)
  have "length (drop 1 (skip_ws t)) \<le> length t"
    using length_skip_ws [of t] by simp
  with 2 st len show ?case
    by (fastforce dest: scan_literal_shorter split: if_splits)
next
  case (4 n d s)
  obtain v r' where v: "parse_value n d s = Some (v, r')"
    using 4(3) by (auto split: option.splits)
  have "length r' < length s"
    by (rule 4(1) [OF v])
  with 4 v length_skip_ws [of r'] show ?case
    by (fastforce split: list.splits if_splits)
next
  case (6 n d s)
  obtain k r1 where k: "scan_string (drop 1 (skip_ws s)) = Some (k, r1)"
    using 6(3) by (auto split: option.splits if_splits)
  obtain v r' where v: "parse_value n d (drop 1 (skip_ws r1)) = Some (v, r')"
    using 6(3) k by (auto split: option.splits if_splits)
  have "length r' < length (drop 1 (skip_ws r1))"
    by (rule 6(1) [OF _ k _ _ v]) (use 6(3) k in \<open>auto split: if_splits\<close>)
  moreover have "length r1 < length s"
    using scan_string_shorter [OF k] length_skip_ws [of s] by simp
  ultimately have "length r' < length s"
    using length_skip_ws [of r1] by simp
  with 6 k v length_skip_ws [of r'] show ?case
    by (fastforce split: list.splits if_splits)
qed simp_all


lemma parse_fuel_mono:
  "2 * length s < n \<Longrightarrow> n \<le> m \<Longrightarrow> parse_value m d s = parse_value n d s"
  "Suc (2 * length s) < n \<Longrightarrow> n \<le> m \<Longrightarrow> parse_elements m d s = parse_elements n d s"
  "2 * length s < n \<Longrightarrow> n \<le> m \<Longrightarrow> parse_members m d s = parse_members n d s"
proof (induction n arbitrary: m d s)
  case (Suc n)
  case 1
  then obtain k where m: "m = Suc k" "n \<le> k"
    by (cases m) auto
  have "Suc (2 * length t) < n" if "skip_ws s = c # t" for c t
    using that length_skip_ws [of s] 1(1) by simp
  then show ?case
    using Suc.IH(2,3) [OF _ m(2)] by (auto simp: m(1) split: list.splits)
next
  case (Suc n)
  case 2
  then obtain k where m: "m = Suc k" "n \<le> k"
    by (cases m) auto
  have "Suc (2 * length t) < n" if "parse_value n d s = Some (v, r)" "skip_ws r = c # t" for v r c t
    using parse_shorter(1) [OF that(1)] that(2) length_skip_ws [of r] 2(1) by simp
  then show ?case
    using Suc.IH(1) [of s k] Suc.IH(2) [OF _ m(2)] m(2) 2(1) by (auto simp: m(1) split: list.splits option.splits)
next
  case (Suc n)
  case 3
  then obtain k where m: "m = Suc k" "n \<le> k"
    by (cases m) auto
  show ?case
  proof (cases "scan_string (drop 1 (skip_ws s))")
    case (Some kr)
    then obtain ky r where k: "scan_string (drop 1 (skip_ws s)) = Some (ky, r)"
      by (cases kr) auto
    have r: "2 * length (drop 1 (skip_ws r)) < n"
      using scan_string_shorter [OF k] length_skip_ws [of s] length_skip_ws [of r] 3(1) by simp
    moreover have "2 * length t < n" if "parse_value n d (drop 1 (skip_ws r)) = Some (v, q)" "skip_ws q = c # t" for v q c t
      using parse_shorter(1) [OF that(1)] that(2) length_skip_ws [of q] r by simp
    ultimately show ?thesis
      using k Suc.IH(1) [OF r m(2)] Suc.IH(3) [OF _ m(2)] by (auto simp: m(1) split: list.splits option.splits)
  qed (simp add: m(1))
qed simp_all

theorem parse_value_fuel: "2 * length s < n \<Longrightarrow> parse_value n d s = parse_value (Suc (2 * length s)) d s"
  by (rule parse_fuel_mono) simp_all

fun json_valid :: "json \<Rightarrow> bool" where
  "json_valid (JStr s) = valid_utf8 s"
| "json_valid (JArr vs) = list_all json_valid vs"
| "json_valid (JObj ms) = list_all (\<lambda>(k, v). valid_utf8 k \<and> json_valid v) ms"
| "json_valid _ = True"

lemma scan_literal_valid: "scan_literal s = Some (v, r) \<Longrightarrow> json_valid v"
  by (auto simp: scan_literal_def scan_word_def valid_utf8_unquote dest: scan_string_scanned split: if_splits)

lemma parse_valid:
  "parse_value n d s = Some (v, r) \<Longrightarrow> json_valid v"
  "parse_elements n d s = Some (vs, r) \<Longrightarrow> list_all json_valid vs"
  "parse_members n d s = Some (ms, r) \<Longrightarrow> list_all (\<lambda>(k, v). valid_utf8 k \<and> json_valid v) ms"
proof (induction n arbitrary: d s v r vs ms)
  case (Suc n)
  case 1
  then show ?case
    by (auto split: list.splits if_splits intro: scan_literal_valid Suc.IH)
next
  case (Suc n)
  case 2
  from Suc.IH show ?case
    using 2 by (auto split: list.splits if_splits option.splits)
next
  case (Suc n)
  case 3
  from Suc.IH valid_utf8_unquote [OF scan_string_scanned] show ?case
    using 3 by (auto split: list.splits if_splits option.splits)
qed simp_all

declare parse_value.simps(2) [simp del]
declare parse_elements.simps(2) [simp del]
declare parse_members.simps(2) [simp del]

lemma Unmarshal_valid: "Unmarshal_tree s = Some j \<Longrightarrow> json_valid j"
  using parse_valid(1) by (auto simp: Unmarshal_tree_def split: option.splits if_splits)

lemma Decode_valid: "Decode_tree s = Some j \<Longrightarrow> json_valid j"
  using parse_valid(1) by (auto simp: Decode_tree_def)

subsection \<open>Lemmas: printing and scanning back\<close>

text \<open>Trees the program prints: integers for numbers, and how deep they nest.\<close>

fun json_ok :: "json \<Rightarrow> bool" where
  "json_ok (JNum r) \<longleftrightarrow> (\<exists>i. r = Itoa i)"
| "json_ok (JStr s) \<longleftrightarrow> valid_utf8 s"
| "json_ok (JArr vs) \<longleftrightarrow> (\<forall>v \<in> set vs. json_ok v)"
| "json_ok (JObj ms) \<longleftrightarrow> (\<forall>(k, v) \<in> set ms. valid_utf8 k \<and> json_ok v)"
| "json_ok _ \<longleftrightarrow> True"

fun json_depth :: "json \<Rightarrow> nat" where
  "json_depth (JArr vs) = Suc (foldr max (map json_depth vs) 0)"
| "json_depth (JObj ms) = Suc (foldr max (map (\<lambda>(k, v). json_depth v) ms) 0)"
| "json_depth _ = 0"

text \<open>What may follow a number without becoming part of it.\<close>

definition num_end :: "string \<Rightarrow> bool" where
  "num_end r \<longleftrightarrow> r = [] \<or> \<not> is_digit (hd r) \<and> hd r \<notin> {CHR ''.'', CHR ''e'', CHR ''E''}"

lemma takeWhile_num: "list_all is_digit ds \<Longrightarrow> num_end r \<Longrightarrow> takeWhile is_digit (ds @ r) = ds"
  by (induction ds) (cases r; auto simp: num_end_def)+

lemma nat_digits_hd: "0 < n \<Longrightarrow> hd (nat_digits n) \<noteq> CHR ''0''"
proof (induction n rule: nat_digits.induct)
  case (1 n)
  show ?case
  proof (cases "n < 10")
    case True
    then have "of_char (digit_char n) \<noteq> (of_char (CHR ''0'') :: nat)"
      using 1(2) by simp
    then have "digit_char n \<noteq> CHR ''0''"
      by metis
    then show ?thesis
      using True by (subst nat_digits.simps) simp
  next
    case False
    then have "0 < n div 10"
      by auto
    then show ?thesis
      using 1(1) False by (subst nat_digits.simps) simp
  qed
qed

lemma scan_end: "num_end r \<Longrightarrow> scan_fraction r = Some ([], r) \<and> scan_exponent r = Some ([], r)"
  by (cases r) (auto simp: num_end_def scan_fraction_def scan_exponent_def)

lemma scan_number_nat:
  assumes "num_end r"
  shows "scan_number (nat_digits n @ r) = Some (nat_digits n, r)"
    "scan_number (CHR ''-'' # nat_digits n @ r) = Some (CHR ''-'' # nat_digits n, r)"
proof -
  have ds: "takeWhile is_digit (nat_digits n @ r) = nat_digits n"
    by (rule takeWhile_num [OF nat_digits_all assms])
  have zero: "nat_digits n = ''0''" if "hd (nat_digits n) = CHR ''0''"
    using that nat_digits_hd [of n] by (cases "0 < n") (auto simp: nat_digits.simps [of 0] digit_char_def)
  have "hd (nat_digits n) \<noteq> CHR ''-''"
    using nat_digits_all [of n] is_digit_not_sign [of "hd (nat_digits n)"] by (cases "nat_digits n") auto
  then show "scan_number (nat_digits n @ r) = Some (nat_digits n, r)"
    using ds zero scan_end [OF assms]
    by (cases "hd (nat_digits n) = CHR ''0''") (auto simp: scan_number_def Let_def hd_append)
  show "scan_number (CHR ''-'' # nat_digits n @ r) = Some (CHR ''-'' # nat_digits n, r)"
    using ds zero scan_end [OF assms]
    by (cases "hd (nat_digits n) = CHR ''0''") (auto simp: scan_number_def Let_def hd_append)
qed

lemma scan_number_Itoa: "num_end r \<Longrightarrow> scan_number (Itoa i @ r) = Some (Itoa i, r)"
  by (simp add: Itoa_def scan_number_nat)

lemma scan_quote: "valid_utf8 s \<Longrightarrow> scan_literal (quote s @ r) = Some (JStr s, r)"
  by (simp add: scan_literal_def quote_def scan_quote_body unquote_quote_body to_valid_id)

text \<open>The first byte of a printed value.\<close>

lemma Itoa_hd: "\<exists>c t. Itoa i = c # t \<and> (is_digit c \<or> c = CHR ''-'')"
  using nat_digits_all [of "nat i"] by (cases "nat_digits (nat i)") (auto simp: Itoa_def)

lemma json_print_hd:
  assumes "json_ok j"
  shows "\<exists>c t. json_print j = c # t \<and> \<not> is_json_space c \<and> c \<noteq> CHR '']'' \<and> c \<noteq> CHR ''}'' \<and>
    (c = CHR ''{'' \<longleftrightarrow> (\<exists>ms. j = JObj ms)) \<and> (c = CHR ''['' \<longleftrightarrow> (\<exists>vs. j = JArr vs))"
proof (cases j)
  case (JNum r)
  then obtain c t where "json_print j = c # t" "is_digit c \<or> c = CHR ''-''"
    using assms Itoa_hd by fastforce
  then show ?thesis
    using JNum by (auto simp: is_json_space_def is_digit_def less_eq_char_def byte_def)
qed (auto simp: quote_def is_json_space_def byte_def)

lemma skip_ws_plain: "\<not> is_json_space c \<Longrightarrow> skip_ws (c # t) = c # t"
  by (simp add: skip_ws_def)


lemma parse_value_print_atom:
  assumes "json_ok j" and "num_end r" and "0 < n" and "\<nexists>vs. j = JArr vs" "\<nexists>ms. j = JObj ms"
  shows "parse_value n d (json_print j @ r) = Some (j, r)"
proof -
  obtain k where n: "n = Suc k"
    using assms(3) by (cases n) auto
  obtain c t where ct: "json_print j = c # t" "\<not> is_json_space c" "c \<noteq> CHR ''{''" "c \<noteq> CHR ''[''"
    using json_print_hd [OF assms(1)] assms(4,5) by auto
  have "scan_literal (json_print j @ r) = Some (j, r)"
  proof (cases j)
    case (JNum x)
    then obtain i where i: "x = Itoa i"
      using assms(1) by auto
    obtain c t where "Itoa i = c # t" "is_digit c \<or> c = CHR ''-''"
      using Itoa_hd by blast
    then show ?thesis
      using JNum i scan_number_Itoa [OF assms(2), of i]
      by (auto simp: scan_literal_def is_digit_def less_eq_char_def)
  qed (use assms scan_quote in \<open>auto simp: scan_literal_def scan_word_def\<close>)
  then show ?thesis
    using ct by (simp add: n parse_value.simps skip_ws_plain)
qed

text \<open>The law for one value, and what it gives for the lists of an array and an object.\<close>

definition prints_back :: "json \<Rightarrow> bool" where
  "prints_back j \<longleftrightarrow> (\<forall>n d r. json_ok j \<longrightarrow> num_end r \<longrightarrow> 2 * length (json_print j @ r) < n \<longrightarrow>
     d + json_depth j \<le> maxNestingDepth \<longrightarrow> parse_value n d (json_print j @ r) = Some (j, r))"

lemma prints_back_atom:
  assumes "\<nexists>vs. j = JArr vs" "\<nexists>ms. j = JObj ms"
  shows "prints_back j"
  unfolding prints_back_def by (intro allI impI parse_value_print_atom [OF _ _ _ assms]) simp_all

lemma num_end_punct: "c \<in> {CHR '','', CHR '']'', CHR ''}''} \<Longrightarrow> num_end (c # r)"
  by (auto simp: num_end_def is_digit_def less_eq_char_def)

lemma punct_no_space: "c \<in> {CHR '','', CHR '']'', CHR ''}'', CHR '':'', CHR 0x22} \<Longrightarrow> skip_ws (c # r) = c # r"
  by (rule skip_ws_plain) (auto simp: is_json_space_def byte_def)

lemma parse_elements_print:
  assumes "\<And>v. v \<in> set vs \<Longrightarrow> prints_back v \<and> json_ok v \<and> d + json_depth v \<le> maxNestingDepth"
    and "vs \<noteq> []" and "Suc (2 * length (join_with '','' (map json_print vs) @ '']'' @ r)) < n"
  shows "parse_elements n d (join_with '','' (map json_print vs) @ '']'' @ r) = Some (vs, r)"
  using assms
proof (induction vs arbitrary: n)
  case (Cons v vs)
  obtain k where n: "n = Suc k"
    using Cons.prems(3) by (cases n) auto
  have reads: "parse_value k d (json_print v @ x) = Some (v, x)"
    if "num_end x" "2 * length (json_print v @ x) < k" for x
    using Cons.prems(1) [of v] that by (simp add: prints_back_def)
  show ?case
  proof (cases vs)
    case Nil
    then show ?thesis
      using reads [of "'']'' @ r"] Cons.prems(3) by (simp add: n parse_elements.simps num_end_punct punct_no_space)
  next
    case more: (Cons w ws)
    let ?x = "join_with '','' (map json_print vs) @ '']'' @ r"
    have s: "join_with '','' (map json_print (v # vs)) @ '']'' @ r = json_print v @ '','' @ ?x"
      using more by simp
    have "parse_elements k d ?x = Some (vs, r)"
      by (rule Cons.IH) (use Cons.prems more n in auto)
    then show ?thesis
      unfolding s using reads [of "'','' @ ?x"] Cons.prems(3) s
      by (simp add: n parse_elements.simps num_end_punct punct_no_space)
  qed
qed simp

lemma parse_members_print:
  fixes ms :: "(string \<times> json) list"
  defines "item \<equiv> \<lambda>(k, v). quote k @ '':'' @ json_print v"
  assumes "\<And>k v. (k, v) \<in> set ms \<Longrightarrow> valid_utf8 k \<and> prints_back v \<and> json_ok v \<and> d + json_depth v \<le> maxNestingDepth"
    and "ms \<noteq> []" and "2 * length (join_with '','' (map item ms) @ ''}'' @ r) < n"
  shows "parse_members n d (join_with '','' (map item ms) @ ''}'' @ r) = Some (ms, r)"
  using assms(2-)
proof (induction ms arbitrary: n)
  case (Cons kv ms)
  obtain k v where kv: "kv = (k, v)"
    by (cases kv)
  obtain m where n: "n = Suc m"
    using Cons.prems(3) by (cases n) auto
  have k: "unquote (quote_body k) = k"
    using Cons.prems(1) [of k v] kv by (simp add: unquote_quote_body to_valid_id)
  have reads: "parse_value m d (json_print v @ x) = Some (v, x)"
    if "num_end x" "2 * length (json_print v @ x) < m" for x
    using Cons.prems(1) [of k v] kv that by (simp add: prints_back_def)
  show ?case
  proof (cases ms)
    case Nil
    then show ?thesis
      using reads [of "''}'' @ r"] Cons.prems(3) kv k
      by (simp add: n item_def parse_members.simps num_end_punct punct_no_space quote_def scan_quote_body)
  next
    case more: (Cons w ws)
    let ?x = "join_with '','' (map item ms) @ ''}'' @ r"
    have s: "join_with '','' (map item (kv # ms)) @ ''}'' @ r = quote k @ '':'' @ json_print v @ '','' @ ?x"
      using more kv by (simp add: item_def)
    have "parse_members m d ?x = Some (ms, r)"
      by (rule Cons.IH) (use Cons.prems more n kv s in \<open>auto simp: quote_def\<close>)
    then show ?thesis
      unfolding s using reads [of "'','' @ ?x"] Cons.prems(3) k kv unfolding s
      by (simp add: n parse_members.simps num_end_punct punct_no_space quote_def scan_quote_body)
  qed
qed simp

lemma depth_member: "x \<in> set xs \<Longrightarrow> f x \<le> foldr max (map f xs) (0 :: nat)"
  by (induction xs) auto

lemma prints_back_all: "prints_back j"
proof (induction j)
  case (JArr vs)
  show ?case
    unfolding prints_back_def
  proof (intro allI impI)
    fix n d r
    assume *: "json_ok (JArr vs)" "num_end r" "2 * length (json_print (JArr vs) @ r) < n"
      "d + json_depth (JArr vs) \<le> maxNestingDepth"
    obtain m where n: "n = Suc m"
      using *(3) by (cases n) auto
    show "parse_value n d (json_print (JArr vs) @ r) = Some (JArr vs, r)"
    proof (cases "vs = []")
      case True
      then show ?thesis
        using * by (simp add: n parse_value.simps skip_ws_def is_json_space_def byte_def)
    next
      case False
      let ?x = "join_with '','' (map json_print vs) @ '']'' @ r"
      have "parse_elements m (Suc d) ?x = Some (vs, r)"
      proof (rule parse_elements_print)
        show "prints_back v \<and> json_ok v \<and> Suc d + json_depth v \<le> maxNestingDepth" if "v \<in> set vs" for v
          using JArr [OF that] * that depth_member [of v vs json_depth] by auto
      qed (use * n False in auto)
      moreover obtain c t where "?x = c # t" "\<not> is_json_space c" "c \<noteq> CHR '']''"
        using False json_print_hd [of "hd vs"] *(1) by (cases vs; cases "tl vs") auto
      ultimately show ?thesis
        using * by (simp add: n parse_value.simps skip_ws_plain is_json_space_def byte_def)
    qed
  qed
next
  case (JObj ms)
  show ?case
    unfolding prints_back_def
  proof (intro allI impI)
    fix n d r
    assume *: "json_ok (JObj ms)" "num_end r" "2 * length (json_print (JObj ms) @ r) < n"
      "d + json_depth (JObj ms) \<le> maxNestingDepth"
    obtain m where n: "n = Suc m"
      using *(3) by (cases n) auto
    show "parse_value n d (json_print (JObj ms) @ r) = Some (JObj ms, r)"
    proof (cases "ms = []")
      case True
      then show ?thesis
        using * by (simp add: n parse_value.simps skip_ws_def is_json_space_def byte_def)
    next
      case False
      let ?x = "join_with '','' (map (\<lambda>(k, v). quote k @ '':'' @ json_print v) ms) @ ''}'' @ r"
      have "parse_members m (Suc d) ?x = Some (ms, r)"
      proof (rule parse_members_print)
        show "valid_utf8 k \<and> prints_back v \<and> json_ok v \<and> Suc d + json_depth v \<le> maxNestingDepth"
          if "(k, v) \<in> set ms" for k v
          using JObj [OF that, of v] * that depth_member [OF that, of "\<lambda>(k, v). json_depth v"] by auto
      qed (use * n False in auto)
      moreover obtain t where "?x = CHR 0x22 # t"
        using False by (cases ms; cases "tl ms") (auto simp: quote_def)
      ultimately show ?thesis
        using * by (simp add: n parse_value.simps skip_ws_plain is_json_space_def byte_def)
    qed
  qed
qed (rule prints_back_atom; simp)+

theorem Unmarshal_print:
  assumes "json_ok j" and "json_depth j \<le> maxNestingDepth"
  shows "Unmarshal_tree (json_print j) = Some j" "Decode_tree (json_print j) = Some j"
proof -
  have "parse_value (Suc (2 * length (json_print j))) 0 (json_print j @ []) = Some (j, [])"
    using prints_back_all [of j] assms unfolding prints_back_def
    by (elim allE [of _ "Suc (2 * length (json_print j))"] allE [of _ 0] allE [of _ "[]"]) (simp add: num_end_def)
  then show "Unmarshal_tree (json_print j) = Some j" "Decode_tree (json_print j) = Some j"
    by (simp_all add: Unmarshal_tree_def Decode_tree_def skip_ws_def)
qed

subsection \<open>Lemmas: struct decoding\<close>

lemma into_int_Itoa:
  "- (2 ^ 63) \<le> i \<Longrightarrow> i < 2 ^ 63 \<Longrightarrow> into_int (JNum (Itoa i)) old = Some i"
  by (simp add: into_int_def Atoi_Itoa)

lemma into_uint_Itoa [simp]: "into_uint TYPE('w::len) (JNum (Itoa (uint w))) old = Some (w :: 'w word)"
proof -
  have "unat w \<le> 2 ^ LENGTH('w) - 1"
    using unsigned_less [of w, where ?'a = nat] by linarith
  moreover have "Itoa (uint w) = nat_digits (unat w)"
    by (simp add: Itoa_def not_less)
  ultimately show ?thesis
    by (simp add: into_uint_def parse_uint_nat_digits)
qed

lemma into_string_JStr [simp]: "into_string (JStr s) old = Some s"
  by (simp add: into_string_def)

lemma into_string_valid: "into_string v old = Some s \<Longrightarrow> json_valid v \<Longrightarrow> valid_utf8 old \<Longrightarrow> valid_utf8 s"
  by (cases v) (auto simp: into_string_def)

text \<open>An invariant of the fields that every member of a valid object keeps holds of the result.\<close>

lemma into_members_invariant:
  assumes "into_members f ms a = Some b" and "I a"
    and "\<And>k v a b. (k, v) \<in> set ms \<Longrightarrow> f k v a = Some b \<Longrightarrow> I a \<Longrightarrow> I b"
  shows "I b"
  using assms
proof (induction f ms a rule: into_members.induct)
  case (2 f k v ms a)
  then obtain c where c: "f k v a = Some c" "into_members f ms c = Some b"
    by (auto split: option.splits)
  have "I c"
    by (rule 2(4) [of k v a c]) (use c 2(3) in simp_all)
  then show ?case
    using 2(1) [OF c(1) c(2) \<open>I c\<close>] 2(4) by (meson list.set_intros(2))
qed simp

lemma into_struct_invariant:
  assumes "into_struct f v a = Some b" and "I a" and "json_valid v"
    and "\<And>k v a b. f k v a = Some b \<Longrightarrow> json_valid v \<Longrightarrow> I a \<Longrightarrow> I b"
  shows "I b"
  using assms(1)
proof (cases v)
  case (JObj ms)
  then have "into_members f ms a = Some b"
    using assms(1) by (simp add: into_struct_def)
  then show ?thesis
    by (rule into_members_invariant [where I = I]) (use assms JObj in \<open>auto simp: list_all_iff\<close>)
qed (use assms in \<open>auto simp: into_struct_def\<close>)

lemma into_elements_all:
  assumes "into_elements f zero vs backing = Some (xs, rest)" and "I zero" and "\<forall>x \<in> set backing. I x"
    and "\<And>v a b. v \<in> set vs \<Longrightarrow> f v a = Some b \<Longrightarrow> I a \<Longrightarrow> I b"
  shows "(\<forall>x \<in> set xs. I x) \<and> (\<forall>x \<in> set rest. I x)"
  using assms
proof (induction vs arbitrary: backing xs)
  case (Cons v vs)
  define old where "old = (case backing of [] \<Rightarrow> zero | x # _ \<Rightarrow> x)"
  obtain x ys where x: "f v old = Some x" "into_elements f zero vs (drop 1 backing) = Some (ys, rest)" "xs = x # ys"
    using Cons.prems(1) unfolding old_def by (auto split: option.splits)
  have "I old"
    using Cons.prems(2,3) by (auto simp: old_def split: list.splits)
  then have "I x"
    using Cons.prems(4) [OF _ x(1)] by simp
  moreover have "(\<forall>x \<in> set ys. I x) \<and> (\<forall>x \<in> set rest. I x)"
  proof (rule Cons.IH [OF x(2) Cons.prems(2)])
    show "\<forall>x \<in> set (drop 1 backing). I x"
      using Cons.prems(3) by (meson in_set_dropD)
    show "\<And>w a b. w \<in> set vs \<Longrightarrow> f w a = Some b \<Longrightarrow> I a \<Longrightarrow> I b"
      using Cons.prems(4) by (meson list.set_intros(2))
  qed
  ultimately show ?case
    by (simp add: x(3))
qed auto

lemma into_slice_all:
  assumes "into_slice f zero v old = Some s" and "I zero" and "\<forall>x \<in> set (fst old @ snd old). I x"
    and "json_valid v" and "\<And>v a b. json_valid v \<Longrightarrow> f v a = Some b \<Longrightarrow> I a \<Longrightarrow> I b"
  shows "\<forall>x \<in> set (fst s @ snd s). I x"
proof (cases v)
  case (JArr vs)
  show ?thesis
  proof (cases vs)
    case (Cons w ws)
    then have "into_elements f zero vs (fst old @ snd old) = Some (fst s, snd s)"
      using assms(1) JArr by (simp add: into_slice_def)
    then have "(\<forall>x \<in> set (fst s). I x) \<and> (\<forall>x \<in> set (snd s). I x)"
    proof (rule into_elements_all [where I = I, OF _ assms(2,3)])
      show "\<And>v a b. v \<in> set vs \<Longrightarrow> f v a = Some b \<Longrightarrow> I a \<Longrightarrow> I b"
        using assms(4,5) JArr by (metis (no_types) json_valid.simps(2) list_all_iff)
    qed
    then show ?thesis
      by auto
  qed (use assms(1) JArr in \<open>auto simp: into_slice_def\<close>)
qed (use assms(1) in \<open>auto simp: into_slice_def\<close>)

lemma into_slice_fresh:
  assumes "\<And>x. x \<in> set xs \<Longrightarrow> f (g x) zero = Some x"
  shows "into_slice f zero (if xs = [] then JNull else JArr (map g xs)) ([], []) = Some (xs, [])"
proof -
  have "into_elements f zero (map g xs) [] = Some (xs, [])"
    using assms by (induction xs) auto
  then show ?thesis
    by (cases xs) (auto simp: into_slice_def)
qed

end
