(* ===== verification/Membership.thy ===== *)
theory Membership
  imports Json_Laws
begin

text \<open>
  \<^verbatim>\<open>internal/membership\<close>: node metadata (\<^verbatim>\<open>metadata.go\<close>) and the view of live data nodes
  built from gossip events (\<^verbatim>\<open>view.go\<close>).

  \<^verbatim>\<open>memberlist.MetaMaxSize\<close> belongs to a third-party package and is the parameter \<open>lim\<close>.  Go
  ranges over a map in an arbitrary order, so \<open>publishCandidateLocked\<close> and its callers take
  that order as an argument, which must enumerate the map's keys (\<open>is_order\<close>).

  The lemmas show that encoding and decoding metadata are inverse on valid UTF-8, that what is
  decoded is always valid UTF-8 and validated, that the published snapshot does not depend on
  the iteration order, and the invariants of every reachable view.
\<close>

subsection \<open>metadata.go\<close>

definition NodeMetaVersion :: u8 where
  "NodeMetaVersion = 1"

definition maxNodeIDBytes :: nat where
  "maxNodeIDBytes = 64"

definition RoleData :: string where
  "RoleData = ''data''"

definition RoleControl :: string where
  "RoleControl = ''control''"

record NodeMeta =
  Version :: u8
  Role :: string
  metaNodeID :: string
  metaAddress :: string

definition zero_meta :: NodeMeta where
  "zero_meta = \<lparr>Version = 0, Role = [], metaNodeID = [], metaAddress = []\<rparr>"

datatype address_error = NotHostPort string | EmptyHost | BadPort string

datatype meta_error =
    UnsupportedVersion u8
  | ControlWithIdentity
  | EmptyNodeID | SpacedNodeID | LongNodeID | PatternNodeID
  | EmptyAddress | SpacedAddress | InvalidAddress address_error
  | UnknownRole string
  | EmptyMetadata
  | OversizedMetadata nat
  | MalformedMetadata

definition validateServiceAddress :: "string \<Rightarrow> address_error + unit" where
  "validateServiceAddress address =
     (case SplitHostPort address of
        None \<Rightarrow> Inl (NotHostPort address)
      | Some (host, portText) \<Rightarrow>
          if TrimSpace host = [] then Inl EmptyHost
          else case Atoi portText of
              None \<Rightarrow> Inl (BadPort portText)
            | Some port \<Rightarrow> if port < 1 \<or> port > 65535 then Inl (BadPort portText) else Inr ())"

definition validateNodeMeta :: "NodeMeta \<Rightarrow> meta_error + unit" where
  "validateNodeMeta meta =
     (if Version meta \<noteq> NodeMetaVersion then Inl (UnsupportedVersion (Version meta))
      else if Role meta = RoleControl then
        (if metaNodeID meta \<noteq> [] \<or> metaAddress meta \<noteq> [] then Inl ControlWithIdentity else Inr ())
      else if Role meta = RoleData then
        (if TrimSpace (metaNodeID meta) = [] then Inl EmptyNodeID
         else if metaNodeID meta \<noteq> TrimSpace (metaNodeID meta) then Inl SpacedNodeID
         else if length (metaNodeID meta) > maxNodeIDBytes then Inl LongNodeID
         else if \<not> nodeIDPattern (metaNodeID meta) then Inl PatternNodeID
         else if TrimSpace (metaAddress meta) = [] then Inl EmptyAddress
         else if metaAddress meta \<noteq> TrimSpace (metaAddress meta) then Inl SpacedAddress
         else case validateServiceAddress (metaAddress meta) of
             Inl e \<Rightarrow> Inl (InvalidAddress e)
           | Inr _ \<Rightarrow> Inr ())
      else Inl (UnknownRole (Role meta)))"

text \<open>The JSON object of the struct, and storing one member of an object in its fields.\<close>

definition meta_json :: "NodeMeta \<Rightarrow> json" where
  "meta_json meta =
     JObj ([(''version'', JNum (Itoa (uint (Version meta)))), (''role'', JStr (Role meta))]
       @ (if metaNodeID meta = [] then [] else [(''node_id'', JStr (metaNodeID meta))])
       @ (if metaAddress meta = [] then [] else [(''address'', JStr (metaAddress meta))]))"

definition meta_field :: "string \<Rightarrow> json \<Rightarrow> NodeMeta \<Rightarrow> NodeMeta option" where
  "meta_field key v meta =
     (if field_match ''version'' key then
        map_option (\<lambda>x. meta\<lparr>Version := x\<rparr>) (into_uint TYPE(8) v (Version meta))
      else if field_match ''role'' key then
        map_option (\<lambda>x. meta\<lparr>Role := x\<rparr>) (into_string v (Role meta))
      else if field_match ''node_id'' key then
        map_option (\<lambda>x. meta\<lparr>metaNodeID := x\<rparr>) (into_string v (metaNodeID meta))
      else if field_match ''address'' key then
        map_option (\<lambda>x. meta\<lparr>metaAddress := x\<rparr>) (into_string v (metaAddress meta))
      else Some meta)"

definition EncodeNodeMeta :: "nat \<Rightarrow> NodeMeta \<Rightarrow> meta_error + bytes" where
  "EncodeNodeMeta lim meta =
     (case validateNodeMeta meta of
        Inl e \<Rightarrow> Inl e
      | Inr _ \<Rightarrow>
          (let raw = json_print (meta_json meta)
           in if length raw > lim then Inl (OversizedMetadata (length raw)) else Inr raw))"

definition DecodeNodeMeta :: "nat \<Rightarrow> bytes \<Rightarrow> meta_error + NodeMeta" where
  "DecodeNodeMeta lim raw =
     (if raw = [] then Inl EmptyMetadata
      else if length raw > lim then Inl (OversizedMetadata (length raw))
      else case Option.bind (Unmarshal_tree raw) (\<lambda>v. into_struct meta_field v zero_meta) of
          None \<Rightarrow> Inl MalformedMetadata
        | Some meta \<Rightarrow>
            (case validateNodeMeta meta of Inl e \<Rightarrow> Inl e | Inr _ \<Rightarrow> Inr meta))"

subsection \<open>view.go\<close>

datatype Node = Node (NodeID: string) (Address: string)

text \<open>The order of \<^verbatim>\<open>sort.Slice\<close>'s comparison: by \<^verbatim>\<open>NodeID\<close>, then by \<^verbatim>\<open>Address\<close>.\<close>

instantiation Node :: linorder
begin

definition less_Node :: "Node \<Rightarrow> Node \<Rightarrow> bool" where
  "less_Node a b \<longleftrightarrow> (if NodeID a \<noteq> NodeID b then NodeID a < NodeID b else Address a < Address b)"

definition less_eq_Node :: "Node \<Rightarrow> Node \<Rightarrow> bool" where
  "less_eq_Node a b \<longleftrightarrow> a = b \<or> a < b" for a b :: Node

instance
proof
  fix x y z :: Node
  show "x < y \<longleftrightarrow> x \<le> y \<and> \<not> y \<le> x"
    by (auto simp: less_Node_def less_eq_Node_def split: if_splits)
  show "x \<le> x"
    by (simp add: less_eq_Node_def)
  show "x \<le> y \<Longrightarrow> y \<le> z \<Longrightarrow> x \<le> z"
    by (auto simp: less_Node_def less_eq_Node_def split: if_splits)
  show "x \<le> y \<Longrightarrow> y \<le> x \<Longrightarrow> x = y"
    by (auto simp: less_Node_def less_eq_Node_def split: if_splits)
  show "x \<le> y \<or> y \<le> x"
    by (auto simp: less_Node_def less_eq_Node_def intro: Node.expand)
qed

end

record Snapshot =
  Generation :: u64
  Nodes :: "Node list"
  ReplicationFactor :: "int option"

record memberRecord =
  recMeta :: NodeMeta
  recRaw :: bytes

record view =
  records :: "(string, memberRecord) fmap"
  current :: Snapshot

definition newView :: view where
  "newView = \<lparr>records = fmempty, current = \<lparr>Generation = 0, Nodes = [], ReplicationFactor = None\<rparr>\<rparr>"

definition cloneSnapshot :: "Snapshot \<Rightarrow> Snapshot" where
  "cloneSnapshot s =
     \<lparr>Generation = Generation s, Nodes = [] @ Nodes s,
      ReplicationFactor = (case ReplicationFactor s of None \<Rightarrow> None | Some factor \<Rightarrow> Some factor)\<rparr>"

definition view_Snapshot :: "view \<Rightarrow> Snapshot" where
  "view_Snapshot v = cloneSnapshot (current v)"

fun nodesEqual :: "Node list \<Rightarrow> Node list \<Rightarrow> bool" where
  "nodesEqual (a # as) (b # bs) \<longleftrightarrow> a = b \<and> nodesEqual as bs"
| "nodesEqual [] [] \<longleftrightarrow> True"
| "nodesEqual _ _ \<longleftrightarrow> False"

text \<open>One iteration over the records; \<open>Inl ()\<close> is the early return on an ambiguity.\<close>

definition scan_record ::
    "memberRecord \<Rightarrow> Node list \<times> string list \<times> string list \<Rightarrow> unit + Node list \<times> string list \<times> string list" where
  "scan_record record = (\<lambda>(nodes, seenIDs, seenAddresses).
     if Role (recMeta record) \<noteq> RoleData then Inr (nodes, seenIDs, seenAddresses)
     else if metaNodeID (recMeta record) \<in> set seenIDs then Inl ()
     else if metaAddress (recMeta record) \<in> set seenAddresses then Inl ()
     else Inr (nodes @ [Node (metaNodeID (recMeta record)) (metaAddress (recMeta record))],
               metaNodeID (recMeta record) # seenIDs, metaAddress (recMeta record) # seenAddresses))"

definition ranged :: "string list \<Rightarrow> (string, 'v) fmap \<Rightarrow> 'v list" where
  "ranged order m = map (\<lambda>k. the (fmlookup m k)) order"

definition publishCandidateLocked :: "string list \<Rightarrow> view \<Rightarrow> view" where
  "publishCandidateLocked order v =
     (case foldE scan_record (ranged order (records v)) ([], [], []) of
        Inl _ \<Rightarrow> v
      | Inr (nodes, _, _) \<Rightarrow>
          (let nodes = sort nodes
           in if nodesEqual (Nodes (current v)) nodes then v
              else v\<lparr>current := \<lparr>Generation = Generation (current v) + 1, Nodes = nodes,
                                 ReplicationFactor = None\<rparr>\<rparr>))"

definition upsert :: "nat \<Rightarrow> string list \<Rightarrow> string \<Rightarrow> bytes \<Rightarrow> view \<Rightarrow> view \<times> meta_error option" where
  "upsert lim order memberName rw v =
     (case DecodeNodeMeta lim rw of
        Inl e \<Rightarrow> (v, Some e)
      | Inr m \<Rightarrow>
          if (case fmlookup (records v) memberName of None \<Rightarrow> False | Some previous \<Rightarrow> recRaw previous = rw)
          then (v, None)
          else (publishCandidateLocked order
                  (v\<lparr>records := fmupd memberName \<lparr>recMeta = m, recRaw = rw\<rparr> (records v)\<rparr>), None))"

definition remove :: "string list \<Rightarrow> string \<Rightarrow> view \<Rightarrow> view" where
  "remove order memberName v =
     (case fmlookup (records v) memberName of
        None \<Rightarrow> v
      | Some _ \<Rightarrow> publishCandidateLocked order (v\<lparr>records := fmdrop memberName (records v)\<rparr>))"

text \<open>The gossip library's node as the delegates receive it.\<close>

record gossipNode =
  gName :: string
  gMeta :: bytes

definition NotifyJoin :: "nat \<Rightarrow> string list \<Rightarrow> gossipNode \<Rightarrow> view \<Rightarrow> view" where
  "NotifyJoin lim order node v = fst (upsert lim order (gName node) (gMeta node) v)"

definition NotifyUpdate :: "nat \<Rightarrow> string list \<Rightarrow> gossipNode \<Rightarrow> view \<Rightarrow> view" where
  "NotifyUpdate lim order node v = fst (upsert lim order (gName node) (gMeta node) v)"

definition NotifyLeave :: "string list \<Rightarrow> gossipNode \<Rightarrow> view \<Rightarrow> view" where
  "NotifyLeave order node v = remove order (gName node) v"

datatype alive_error = EmptyMemberName | BadMetadata meta_error

definition NotifyAlive :: "nat \<Rightarrow> gossipNode option \<Rightarrow> alive_error option" where
  "NotifyAlive lim node =
     (case node of
        None \<Rightarrow> Some EmptyMemberName
      | Some n \<Rightarrow>
          if gName n = [] then Some EmptyMemberName
          else case DecodeNodeMeta lim (gMeta n) of Inl e \<Rightarrow> Some (BadMetadata e) | Inr _ \<Rightarrow> None)"

subsection \<open>Lemmas: metadata\<close>

lemma meta_keys:
  "field_match ''version'' ''version''"
  "\<not> field_match ''version'' ''role''" "field_match ''role'' ''role''"
  "\<not> field_match ''version'' ''node_id''" "\<not> field_match ''role'' ''node_id''"
  "field_match ''node_id'' ''node_id''"
  "\<not> field_match ''version'' ''address''" "\<not> field_match ''role'' ''address''"
  "\<not> field_match ''node_id'' ''address''" "field_match ''address'' ''address''"
  by code_simp+

lemma meta_fields_back: "into_struct meta_field (meta_json m) zero_meta = Some m"
  by (cases m)
    (simp add: meta_json_def into_struct_def meta_field_def meta_keys zero_meta_def into_uint_Itoa)

lemma is_id_char_ascii: "is_id_char c \<Longrightarrow> byte c < 0x80"
  by (auto simp: is_id_char_def is_alnum_def less_eq_char_def byte_def)

lemma nodeIDPattern_valid_utf8: "nodeIDPattern s \<Longrightarrow> valid_utf8 s"
  by (auto intro!: valid_utf8_ascii is_id_char_ascii dest: nodeIDPattern_chars)

lemma validateNodeMeta_ok_iff:
  "validateNodeMeta m = Inr () \<longleftrightarrow> Version m = NodeMetaVersion \<and>
     (Role m = RoleControl \<and> metaNodeID m = [] \<and> metaAddress m = [] \<or>
      Role m = RoleData \<and> nodeIDPattern (metaNodeID m) \<and> length (metaNodeID m) \<le> maxNodeIDBytes \<and>
      TrimSpace (metaAddress m) = metaAddress m \<and> validateServiceAddress (metaAddress m) = Inr ())"
proof -
  have "nodeIDPattern (metaNodeID m) \<Longrightarrow> TrimSpace (metaNodeID m) = metaNodeID m \<and> metaNodeID m \<noteq> []"
    by (auto simp: TrimSpace_nodeIDPattern nodeIDPattern_def)
  moreover have "validateServiceAddress [] \<noteq> Inr ()"
    by (simp add: validateServiceAddress_def SplitHostPort_def last_index_def first_index_def)
  moreover have "RoleData \<noteq> RoleControl"
    by (simp add: RoleData_def RoleControl_def)
  ultimately show ?thesis
    unfolding validateNodeMeta_def by (auto split: sum.splits)
qed

lemma meta_json_ok:
  assumes "validateNodeMeta m = Inr ()" and "valid_utf8 (metaAddress m)"
  shows "json_ok (meta_json m)" "json_depth (meta_json m) \<le> maxNestingDepth"
proof -
  have ascii: "valid_utf8 ''version''" "valid_utf8 ''role''" "valid_utf8 ''node_id''" "valid_utf8 ''address''"
      "valid_utf8 ''data''" "valid_utf8 ''control''"
    by (auto intro!: valid_utf8_ascii simp: byte_def)
  show "json_ok (meta_json m)"
    using assms ascii
    by (auto simp: meta_json_def validateNodeMeta_ok_iff RoleData_def RoleControl_def
        dest: nodeIDPattern_valid_utf8)
  show "json_depth (meta_json m) \<le> maxNestingDepth"
    by (simp add: meta_json_def maxNestingDepth_def)
qed

lemma json_print_meta_ne [simp]: "json_print (meta_json m) \<noteq> []"
  by (simp add: meta_json_def)

lemma Decode_Encode:
  assumes "EncodeNodeMeta lim m = Inr b" and "valid_utf8 (metaAddress m)"
  shows "DecodeNodeMeta lim b = Inr m"
proof -
  have v: "validateNodeMeta m = Inr ()" and b: "b = json_print (meta_json m)" "length b \<le> lim"
    using assms(1) by (auto simp: EncodeNodeMeta_def Let_def split: sum.splits if_splits)
  have "Unmarshal_tree b = Some (meta_json m)"
    using Unmarshal_print(1) [OF meta_json_ok [OF v assms(2)]] b by simp
  then show ?thesis
    using v b by (auto simp: DecodeNodeMeta_def meta_fields_back)
qed

definition meta_utf8 :: "NodeMeta \<Rightarrow> bool" where
  "meta_utf8 m \<longleftrightarrow> valid_utf8 (Role m) \<and> valid_utf8 (metaNodeID m) \<and> valid_utf8 (metaAddress m)"

lemma meta_field_utf8: "meta_field k v m = Some m' \<Longrightarrow> json_valid v \<Longrightarrow> meta_utf8 m \<Longrightarrow> meta_utf8 m'"
  by (auto simp: meta_field_def meta_utf8_def intro: into_string_valid split: if_splits)

lemma DecodeNodeMeta_sound:
  assumes "DecodeNodeMeta lim b = Inr m"
  shows "validateNodeMeta m = Inr () \<and> meta_utf8 m \<and> b \<noteq> [] \<and> length b \<le> lim"
proof -
  obtain v where v: "Unmarshal_tree b = Some v" "into_struct meta_field v zero_meta = Some m"
      "validateNodeMeta m = Inr ()" "b \<noteq> []" "length b \<le> lim"
    using assms by (auto simp: DecodeNodeMeta_def bind_eq_Some_conv split: if_splits option.splits sum.splits)
  have "meta_utf8 m"
    using v(2)
  proof (rule into_struct_invariant [where I = meta_utf8])
    show "meta_utf8 zero_meta"
      by (simp add: meta_utf8_def zero_meta_def)
  qed (auto intro: meta_field_utf8 Unmarshal_valid [OF v(1)])
  with v show ?thesis
    by simp
qed

subsection \<open>Lemmas: the candidate node list\<close>

definition is_order :: "string list \<Rightarrow> (string, 'v) fmap \<Rightarrow> bool" where
  "is_order order m \<longleftrightarrow> distinct order \<and> set order = fmdom' m"

definition record_node :: "memberRecord \<Rightarrow> Node" where
  "record_node r = Node (metaNodeID (recMeta r)) (metaAddress (recMeta r))"

definition data_nodes :: "memberRecord list \<Rightarrow> Node list" where
  "data_nodes rs = map record_node (filter (\<lambda>r. Role (recMeta r) = RoleData) rs)"

definition unambiguous :: "Node list \<Rightarrow> bool" where
  "unambiguous ns \<longleftrightarrow> distinct (map NodeID ns) \<and> distinct (map Address ns)"

lemma nodesEqual_iff [simp]: "nodesEqual as bs \<longleftrightarrow> as = bs"
  by (induction as bs rule: nodesEqual.induct) auto

lemma foldE_scan_record_from:
  "foldE scan_record rs (ns, ids, ads) =
     (if distinct (map NodeID (data_nodes rs)) \<and> set (map NodeID (data_nodes rs)) \<inter> set ids = {} \<and>
         distinct (map Address (data_nodes rs)) \<and> set (map Address (data_nodes rs)) \<inter> set ads = {}
      then Inr (ns @ data_nodes rs, rev (map NodeID (data_nodes rs)) @ ids, rev (map Address (data_nodes rs)) @ ads)
      else Inl ())"
proof (induction rs arbitrary: ns ids ads)
  case (Cons r rs)
  show ?case
  proof (cases "Role (recMeta r) = RoleData")
    case True
    then show ?thesis
      using Cons by (simp add: scan_record_def data_nodes_def record_node_def)
  next
    case False
    then show ?thesis
      using Cons by (simp add: scan_record_def data_nodes_def)
  qed
qed (simp add: data_nodes_def)

lemma foldE_scan_record:
  "foldE scan_record rs ([], [], []) =
     (if unambiguous (data_nodes rs)
      then Inr (data_nodes rs, rev (map NodeID (data_nodes rs)), rev (map Address (data_nodes rs)))
      else Inl ())"
  by (simp add: foldE_scan_record_from unambiguous_def)

lemma publishCandidateLocked_eq:
  "publishCandidateLocked order v =
     (let ns = data_nodes (ranged order (records v))
      in if unambiguous ns \<and> Nodes (current v) \<noteq> sort ns
         then v\<lparr>current := \<lparr>Generation = Generation (current v) + 1, Nodes = sort ns, ReplicationFactor = None\<rparr>\<rparr>
         else v)"
  by (simp add: publishCandidateLocked_def foldE_scan_record Let_def)

lemma is_order_mset: "is_order o1 m \<Longrightarrow> is_order o2 m \<Longrightarrow> mset o1 = mset o2"
  using set_eq_iff_mset_eq_distinct [of o1 o2] by (simp add: is_order_def)

lemma data_nodes_mset:
  assumes "is_order o1 m" and "is_order o2 m"
  shows "mset (data_nodes (ranged o1 m)) = mset (data_nodes (ranged o2 m))"
  using is_order_mset [OF assms] by (simp add: data_nodes_def ranged_def)

lemma unambiguous_mset: "mset xs = mset ys \<Longrightarrow> unambiguous xs = unambiguous ys"
  unfolding unambiguous_def by (metis mset_eq_imp_distinct_iff mset_map)

lemma publish_order_independent:
  assumes "is_order o1 (records v)" and "is_order o2 (records v)"
  shows "publishCandidateLocked o1 v = publishCandidateLocked o2 v"
  using data_nodes_mset [OF assms] unambiguous_mset [OF data_nodes_mset [OF assms]]
    sort_mset_cong [OF data_nodes_mset [OF assms]]
  by (simp add: publishCandidateLocked_eq Let_def)

text \<open>The node list a record map stands for, independent of any iteration order.\<close>

definition live_nodes :: "(string, memberRecord) fmap \<Rightarrow> Node list" where
  "live_nodes m = sort (data_nodes (ranged (sorted_list_of_set (fmdom' m)) m))"

lemma canonical_order: "is_order (sorted_list_of_set (fmdom' m)) m"
  by (simp add: is_order_def)

lemma live_nodes_order: "is_order order m \<Longrightarrow> sort (data_nodes (ranged order m)) = live_nodes m"
  unfolding live_nodes_def by (rule sort_mset_cong [OF data_nodes_mset [OF _ canonical_order]])

lemma unambiguous_live:
  "is_order order m \<Longrightarrow> unambiguous (data_nodes (ranged order m)) = unambiguous (live_nodes m)"
  using unambiguous_mset [of "data_nodes (ranged order m)" "live_nodes m"] live_nodes_order [of order m]
  by (metis mset_sort)

lemma publish_live:
  assumes "is_order order (records v)"
  shows "publishCandidateLocked order v =
    (if unambiguous (live_nodes (records v)) \<and> Nodes (current v) \<noteq> live_nodes (records v)
     then v\<lparr>current := \<lparr>Generation = Generation (current v) + 1, Nodes = live_nodes (records v), ReplicationFactor = None\<rparr>\<rparr>
     else v)"
  using live_nodes_order [OF assms] unambiguous_live [OF assms] by (simp add: publishCandidateLocked_eq Let_def)

subsection \<open>Reachable views\<close>

text \<open>One gossip callback, for any order in which the records are visited.\<close>

inductive view_step :: "nat \<Rightarrow> view \<Rightarrow> view \<Rightarrow> bool" for lim where
  join: "is_order order (records (NotifyJoin lim order node v)) \<Longrightarrow> view_step lim v (NotifyJoin lim order node v)"
| update: "is_order order (records (NotifyUpdate lim order node v)) \<Longrightarrow> view_step lim v (NotifyUpdate lim order node v)"
| leave: "is_order order (records (NotifyLeave order node v)) \<Longrightarrow> view_step lim v (NotifyLeave order node v)"

inductive_cases view_stepE: "view_step lim v v'"

inductive view_reach :: "nat \<Rightarrow> view \<Rightarrow> bool" for lim where
  start: "view_reach lim newView"
| step: "view_reach lim v \<Longrightarrow> view_step lim v v' \<Longrightarrow> view_reach lim v'"

text \<open>What every callback does: the records change first, and the snapshot follows them.\<close>

lemma publish_records [simp]: "records (publishCandidateLocked order v) = records v"
  by (simp add: publishCandidateLocked_eq Let_def)

definition records_decoded :: "nat \<Rightarrow> (string, memberRecord) fmap \<Rightarrow> bool" where
  "records_decoded lim m \<longleftrightarrow>
     (\<forall>k r. fmlookup m k = Some r \<longrightarrow> DecodeNodeMeta lim (recRaw r) = Inr (recMeta r))"

definition republished :: "nat \<Rightarrow> view \<Rightarrow> view \<Rightarrow> bool" where
  "republished lim v v' \<longleftrightarrow> (\<exists>m order. records_decoded lim m \<and> is_order order m \<and>
     v' = publishCandidateLocked order (v\<lparr>records := m\<rparr>))"

lemma republishedI:
  "v' = publishCandidateLocked order (v\<lparr>records := m\<rparr>) \<Longrightarrow> is_order order (records v') \<Longrightarrow>
     records_decoded lim m \<Longrightarrow> republished lim v v'"
  by (auto simp: republished_def)

lemma upsert_republished:
  assumes "is_order order (records (fst (upsert lim order name b v)))" and "records_decoded lim (records v)"
  shows "fst (upsert lim order name b v) = v \<or> republished lim v (fst (upsert lim order name b v))"
proof (cases "DecodeNodeMeta lim b")
  case (Inr m)
  have "records_decoded lim (fmupd name \<lparr>recMeta = m, recRaw = b\<rparr> (records v))"
    using assms(2) Inr by (simp add: records_decoded_def)
  then show ?thesis
    using assms(1) Inr by (auto simp: upsert_def intro!: republishedI split: option.splits if_splits)
qed (simp add: upsert_def)

lemma remove_republished:
  assumes "is_order order (records (remove order name v))" and "records_decoded lim (records v)"
  shows "remove order name v = v \<or> republished lim v (remove order name v)"
proof -
  have "records_decoded lim (fmdrop name (records v))"
    using assms(2) by (simp add: records_decoded_def)
  then show ?thesis
    using assms(1) by (auto simp: remove_def intro!: republishedI split: option.splits)
qed

lemma view_step_republished:
  assumes "view_step lim v v'" and "records_decoded lim (records v)"
  shows "v' = v \<or> republished lim v v'"
  using assms(1)
proof cases
  case (join order node)
  with upsert_republished [OF _ assms(2)] show ?thesis
    unfolding NotifyJoin_def by blast
next
  case (update order node)
  with upsert_republished [OF _ assms(2)] show ?thesis
    unfolding NotifyUpdate_def by blast
next
  case (leave order node)
  with remove_republished [OF _ assms(2)] show ?thesis
    unfolding NotifyLeave_def by blast
qed

definition node_ok :: "Node \<Rightarrow> bool" where
  "node_ok n \<longleftrightarrow> nodeIDPattern (NodeID n) \<and> length (NodeID n) \<le> maxNodeIDBytes \<and>
     validateServiceAddress (Address n) = Inr () \<and> valid_utf8 (Address n)"

definition wf_nodes :: "Node list \<Rightarrow> bool" where
  "wf_nodes ns \<longleftrightarrow> sorted ns \<and> unambiguous ns \<and> (\<forall>n \<in> set ns. node_ok n)"

lemma live_nodes_ok:
  assumes "records_decoded lim m" and "n \<in> set (live_nodes m)"
  shows "node_ok n"
proof -
  obtain k r where r: "fmlookup m k = Some r" "Role (recMeta r) = RoleData" "n = record_node r"
    using assms(2)
    by (auto simp: live_nodes_def data_nodes_def ranged_def fmlookup_dom'_iff)
  then have "DecodeNodeMeta lim (recRaw r) = Inr (recMeta r)"
    using assms(1) by (simp add: records_decoded_def)
  from DecodeNodeMeta_sound [OF this] r show ?thesis
    by (auto simp: validateNodeMeta_ok_iff node_ok_def record_node_def meta_utf8_def RoleData_def RoleControl_def)
qed

definition view_inv :: "nat \<Rightarrow> view \<Rightarrow> bool" where
  "view_inv lim v \<longleftrightarrow> records_decoded lim (records v) \<and> wf_nodes (Nodes (current v)) \<and>
     ReplicationFactor (current v) = None \<and>
     (unambiguous (live_nodes (records v)) \<longrightarrow> Nodes (current v) = live_nodes (records v))"

lemma live_nodes_empty [simp]: "live_nodes fmempty = []"
  by (simp add: live_nodes_def data_nodes_def ranged_def)

lemma view_inv_new: "view_inv lim newView"
  by (simp add: view_inv_def newView_def records_decoded_def wf_nodes_def unambiguous_def)

lemma view_inv_publish:
  assumes "view_inv lim v" and "records_decoded lim m" and "is_order order m"
  shows "view_inv lim (publishCandidateLocked order (v\<lparr>records := m\<rparr>))"
proof -
  have "sorted (live_nodes m)"
    by (simp add: live_nodes_def)
  then show ?thesis
    using assms live_nodes_ok [OF assms(2)]
    by (auto simp: publish_live view_inv_def wf_nodes_def)
qed

lemma view_inv_step: "view_inv lim v \<Longrightarrow> view_step lim v v' \<Longrightarrow> view_inv lim v'"
  using view_step_republished [of lim v v'] view_inv_publish [of lim v]
  by (auto simp: view_inv_def [of lim v] republished_def)

lemma view_inv_reach: "view_reach lim v \<Longrightarrow> view_inv lim v"
  by (induction rule: view_reach.induct) (auto intro: view_inv_new view_inv_step)

subsection \<open>Properties\<close>

text \<open>C22: Metadata that encodes decodes to itself, when its address is valid UTF-8 (a data node's identifier always is).\<close>

theorem NodeMeta_roundtrip:
  assumes "EncodeNodeMeta lim m = Inr b" and "valid_utf8 (metaAddress m)"
  shows "DecodeNodeMeta lim b = Inr m"
  using assms by (rule Decode_Encode)

theorem NodeMeta_roundtrip_witness:
  "\<exists>b. EncodeNodeMeta 512 \<lparr>Version = 1, Role = ''data'', metaNodeID = ''node-0'', metaAddress = ''10.0.0.1:7001''\<rparr> = Inr b \<and>
     DecodeNodeMeta 512 b = Inr \<lparr>Version = 1, Role = ''data'', metaNodeID = ''node-0'', metaAddress = ''10.0.0.1:7001''\<rparr>"
proof -
  let ?m = "\<lparr>Version = 1, Role = ''data'', metaNodeID = ''node-0'', metaAddress = ''10.0.0.1:7001''\<rparr>"
  have "EncodeNodeMeta 512 ?m = Inr (json_print (meta_json ?m))"
    by code_simp
  moreover have "valid_utf8 (metaAddress ?m)"
    by code_simp
  ultimately show ?thesis
    using NodeMeta_roundtrip by blast
qed



text \<open>
  C24: Whatever callbacks have run and in whatever order Go visited the records, the published
  nodes are sorted, have pairwise different identifiers and addresses and valid metadata, and
  they are exactly the data nodes of the records whenever those are not ambiguous.
\<close>

theorem view_reachable:
  assumes "view_reach lim v"
  shows "wf_nodes (Nodes (view_Snapshot v)) \<and> ReplicationFactor (view_Snapshot v) = None \<and>
    (unambiguous (live_nodes (records v)) \<longrightarrow> Nodes (view_Snapshot v) = live_nodes (records v))"
  using view_inv_reach [OF assms] by (simp add: view_inv_def view_Snapshot_def cloneSnapshot_def)

definition sample_node :: gossipNode where
  "sample_node = \<lparr>gName = ''side-0'', gMeta = ''{'' @ quote ''version'' @ '':1,'' @ quote ''role'' @ '':'' @ quote ''data''
     @ '','' @ quote ''node_id'' @ '':'' @ quote ''node-0'' @ '','' @ quote ''address'' @ '':'' @ quote ''h:7'' @ ''}''\<rparr>"

definition sample_meta :: NodeMeta where
  "sample_meta = \<lparr>Version = 1, Role = RoleData, metaNodeID = ''node-0'', metaAddress = ''h:7''\<rparr>"

definition sample_view :: view where
  "sample_view = \<lparr>records = fmupd ''side-0'' \<lparr>recMeta = sample_meta, recRaw = gMeta sample_node\<rparr> fmempty,
     current = \<lparr>Generation = 1, Nodes = [Node ''node-0'' ''h:7''], ReplicationFactor = None\<rparr>\<rparr>"

lemma sample_decode: "DecodeNodeMeta 512 (gMeta sample_node) = Inr sample_meta"
  by code_simp

lemma sample_join: "NotifyJoin 512 [''side-0''] sample_node newView = sample_view"
  by (simp add: NotifyJoin_def upsert_def sample_decode newView_def publishCandidateLocked_eq sample_view_def
      ranged_def data_nodes_def record_node_def unambiguous_def)
    (simp add: sample_meta_def sample_node_def)

lemma sample_step: "view_step 512 newView sample_view"
  using view_step.join [of "[''side-0'']" 512 sample_node newView]
  by (simp add: sample_join) (simp add: sample_view_def is_order_def)

lemma sample_reach: "view_reach 512 sample_view"
  by (rule view_reach.step [OF view_reach.start sample_step])

theorem view_reachable_witness:
  "view_reach 512 sample_view \<and> Nodes (view_Snapshot sample_view) = [Node ''node-0'' ''h:7''] \<and>
     wf_nodes (Nodes (view_Snapshot sample_view))"
  using sample_reach view_reachable [OF sample_reach]
  by (simp add: view_Snapshot_def cloneSnapshot_def sample_view_def)

text \<open>
  A callback changes the snapshot only by publishing different nodes under the next
  generation, and never when the records it leaves are ambiguous.
\<close>

theorem view_generation:
  assumes "view_reach lim v" and "view_step lim v v'"
  shows "current v' = current v \<or>
    unambiguous (live_nodes (records v')) \<and> Nodes (current v') \<noteq> Nodes (current v) \<and>
    Generation (current v') = Generation (current v) + 1"
proof -
  have "v' = v \<or> republished lim v v'"
    using view_step_republished [OF assms(2)] view_inv_reach [OF assms(1)] by (simp add: view_inv_def)
  then show ?thesis
    by (auto simp: republished_def publish_live split: if_splits)
qed

theorem view_generation_witness:
  "view_step 512 newView sample_view \<and> current sample_view \<noteq> current newView \<and>
     Generation (current sample_view) = Generation (current newView) + 1"
  using view_generation [OF view_reach.start sample_step] sample_step
  by (auto simp: sample_view_def newView_def)

text \<open>
  Two replicas that hold the same raw metadata for the same members publish the same nodes,
  whatever events brought them there, unless that metadata is ambiguous.
\<close>

theorem view_convergence:
  assumes "view_reach lim v" and "view_reach lim w"
    and "\<forall>k. map_option recRaw (fmlookup (records v) k) = map_option recRaw (fmlookup (records w) k)"
    and "unambiguous (live_nodes (records v))"
  shows "Nodes (view_Snapshot v) = Nodes (view_Snapshot w)"
proof -
  have dec: "records_decoded lim (records v)" "records_decoded lim (records w)"
    using view_inv_reach assms(1,2) by (auto simp: view_inv_def)
  have "fmlookup (records v) k = fmlookup (records w) k" for k
    using assms(3) [rule_format, of k] dec
    by (cases "fmlookup (records v) k"; cases "fmlookup (records w) k")
      (auto simp: records_decoded_def intro!: memberRecord.equality, metis sum.inject(2))
  then have "records v = records w"
    by (rule fmap_ext)
  then show ?thesis
    using view_inv_reach [OF assms(1)] view_inv_reach [OF assms(2)] assms(4)
    by (simp add: view_inv_def view_Snapshot_def cloneSnapshot_def)
qed

definition left_view :: view where
  "left_view = \<lparr>records = fmempty, current = \<lparr>Generation = 2, Nodes = [], ReplicationFactor = None\<rparr>\<rparr>"

definition rejoined_view :: view where
  "rejoined_view = sample_view\<lparr>current := (current sample_view)\<lparr>Generation := 3\<rparr>\<rparr>"

lemma left_step: "view_step 512 sample_view left_view"
proof -
  have "NotifyLeave [] sample_node sample_view = left_view"
    by (simp add: NotifyLeave_def remove_def sample_node_def sample_view_def publishCandidateLocked_eq
        ranged_def data_nodes_def unambiguous_def left_view_def fmdrop_fmupd_same)
  then show ?thesis
    using view_step.leave [of "[]" sample_node sample_view 512] by (simp add: left_view_def is_order_def)
qed

lemma rejoined_step: "view_step 512 left_view rejoined_view"
proof -
  have "NotifyJoin 512 [''side-0''] sample_node left_view = rejoined_view"
    by (simp add: NotifyJoin_def upsert_def sample_decode left_view_def publishCandidateLocked_eq
        rejoined_view_def ranged_def data_nodes_def record_node_def unambiguous_def)
      (simp add: sample_view_def sample_meta_def sample_node_def)
  then show ?thesis
    using view_step.join [of "[''side-0'']" 512 sample_node left_view]
    by (simp add: rejoined_view_def sample_view_def is_order_def)
qed

lemma rejoined_reach: "view_reach 512 rejoined_view"
  using sample_reach left_step rejoined_step by (meson view_reach.step)

theorem view_convergence_witness:
  "view_reach 512 sample_view \<and> view_reach 512 rejoined_view \<and> sample_view \<noteq> rejoined_view \<and>
     Nodes (view_Snapshot sample_view) = Nodes (view_Snapshot rejoined_view)"
proof -
  have "unambiguous (live_nodes (records sample_view))"
    by (simp add: sample_view_def live_nodes_def ranged_def data_nodes_def record_node_def unambiguous_def)
  then show ?thesis
    using view_convergence [OF sample_reach rejoined_reach] sample_reach rejoined_reach
    by (simp add: rejoined_view_def) (simp add: sample_view_def)
qed

end
