(* ===== verification/Membership_Manager.thy ===== *)
theory Membership_Manager
  imports Membership
begin

text \<open>
  \<^verbatim>\<open>internal/membership/manager.go\<close>: one gossip participant and its life cycle.

  The gossip library is third-party code.  \<open>mlConfig\<close> holds the fields of its configuration the
  package sets or leaves at the library's defaults, which are parameters; the outcome of its
  \<^verbatim>\<open>Create\<close>, \<^verbatim>\<open>Join\<close>, \<^verbatim>\<open>Leave\<close> and \<^verbatim>\<open>Shutdown\<close> are parameters too, and every call made to it is
  recorded (\<open>ml_call\<close>).  The life-cycle methods hold one mutex for their whole body, so
  concurrent use is some sequence of whole calls.
\<close>

subsection \<open>Configuration\<close>

definition Second :: int where
  "Second = 1000000000"

definition DefaultLeaveTimeout :: int where
  "DefaultLeaveTimeout = 2 * Second"

definition DefaultTCPTimeout :: int where
  "DefaultTCPTimeout = Second"

record mgrConfig =
  mcName :: string
  mcRole :: string
  mcNodeID :: string
  mcNodeAddress :: string
  mcBindAddr :: string
  mcBindPort :: int
  mcAdvertiseAddr :: string
  mcAdvertisePort :: int
  mcClusterLabel :: string
  mcSecretKey :: bytes
  mcLocal :: bool
  mcProbeInterval :: int
  mcProbeTimeout :: int
  mcTCPTimeout :: int
  mcGossipInterval :: int
  mcPushPullInterval :: int
  mcSuspicionMult :: int
  mcLeaveTimeout :: int

record mlConfig =
  mlName :: string
  mlBindAddr :: string
  mlBindPort :: int
  mlAdvertiseAddr :: string
  mlAdvertisePort :: int
  mlLabel :: string
  mlSecretKey :: bytes
  mlMeta :: bytes
  mlProbeInterval :: int
  mlProbeTimeout :: int
  mlTCPTimeout :: int
  mlGossipInterval :: int
  mlPushPullInterval :: int
  mlSuspicionMult :: int

datatype config_problem =
    MgrNameEmpty | MgrNameSpaced
  | MgrBindEmpty | MgrBindNotIP string
  | MgrBindPort int
  | MgrAdvertiseNotIP string
  | MgrAdvertisePort int
  | MgrAdvertisePortMissing | MgrAdvertiseAddrMissing
  | MgrLabelEmpty | MgrLabelLong nat
  | MgrSecretKey nat
  | MgrNegativeDuration
  | MgrNegativeMult
  | MgrProbeTimeout int int

definition validateConfig :: "nat \<Rightarrow> mgrConfig \<Rightarrow> config_problem list" where
  "validateConfig labelMax cfg =
     (if TrimSpace (mcName cfg) = [] then [MgrNameEmpty]
      else if mcName cfg \<noteq> TrimSpace (mcName cfg) then [MgrNameSpaced] else [])
     @ (if mcBindAddr cfg = [] then [MgrBindEmpty]
        else if ParseIP (mcBindAddr cfg) = None then [MgrBindNotIP (mcBindAddr cfg)] else [])
     @ (if mcBindPort cfg < 0 \<or> mcBindPort cfg > 65535 then [MgrBindPort (mcBindPort cfg)] else [])
     @ (if mcAdvertiseAddr cfg \<noteq> [] \<and> ParseIP (mcAdvertiseAddr cfg) = None
        then [MgrAdvertiseNotIP (mcAdvertiseAddr cfg)] else [])
     @ (if mcAdvertisePort cfg < 0 \<or> mcAdvertisePort cfg > 65535 then [MgrAdvertisePort (mcAdvertisePort cfg)] else [])
     @ (if mcAdvertiseAddr cfg \<noteq> [] \<and> mcAdvertisePort cfg = 0 then [MgrAdvertisePortMissing] else [])
     @ (if mcAdvertiseAddr cfg = [] \<and> mcAdvertisePort cfg \<noteq> 0 then [MgrAdvertiseAddrMissing] else [])
     @ (if mcClusterLabel cfg = [] then [MgrLabelEmpty]
        else if length (mcClusterLabel cfg) > labelMax then [MgrLabelLong (length (mcClusterLabel cfg))] else [])
     @ (if length (mcSecretKey cfg) \<noteq> 0 \<and> length (mcSecretKey cfg) \<noteq> 16 \<and> length (mcSecretKey cfg) \<noteq> 24
           \<and> length (mcSecretKey cfg) \<noteq> 32
        then [MgrSecretKey (length (mcSecretKey cfg))] else [])
     @ (if mcProbeInterval cfg < 0 \<or> mcProbeTimeout cfg < 0 \<or> mcTCPTimeout cfg < 0 \<or> mcGossipInterval cfg < 0
           \<or> mcPushPullInterval cfg < 0 \<or> mcLeaveTimeout cfg < 0
        then [MgrNegativeDuration] else [])
     @ (if mcSuspicionMult cfg < 0 then [MgrNegativeMult] else [])
     @ (if mcProbeInterval cfg > 0 \<and> mcProbeTimeout cfg > mcProbeInterval cfg
        then [MgrProbeTimeout (mcProbeTimeout cfg) (mcProbeInterval cfg)] else [])"

subsection \<open>Starting\<close>

text \<open>\<open>closeErr\<close> is the list \<^verbatim>\<open>errors.Join\<close> wraps; the empty list is nil.\<close>

record 'e Manager =
  mgView :: view
  leaveTimeout :: int
  left :: bool
  leaveErr :: "'e option"
  closed :: bool
  closeErr :: "'e list"

datatype 'e mgr_error =
    LocalMetadata meta_error
  | MgrConfigInvalid "config_problem list"
  | CreateFailed 'e

definition local_meta :: "mgrConfig \<Rightarrow> NodeMeta" where
  "local_meta cfg =
     (let meta = \<lparr>Version = NodeMetaVersion, Role = mcRole cfg, metaNodeID = [], metaAddress = []\<rparr>
      in if mcRole cfg = RoleData then meta\<lparr>metaNodeID := mcNodeID cfg, metaAddress := mcNodeAddress cfg\<rparr> else meta)"

definition list_config :: "mlConfig \<Rightarrow> mlConfig \<Rightarrow> bytes \<Rightarrow> mgrConfig \<Rightarrow> mlConfig" where
  "list_config lan loc rawMeta cfg =
     (let base = (if mcLocal cfg then loc else lan)
      in base\<lparr>mlName := mcName cfg, mlBindAddr := mcBindAddr cfg, mlBindPort := mcBindPort cfg,
          mlAdvertiseAddr := mcAdvertiseAddr cfg, mlAdvertisePort := mcAdvertisePort cfg,
          mlLabel := mcClusterLabel cfg, mlSecretKey := mcSecretKey cfg, mlMeta := rawMeta,
          mlProbeInterval := (if mcProbeInterval cfg > 0 then mcProbeInterval cfg else mlProbeInterval base),
          mlProbeTimeout := (if mcProbeTimeout cfg > 0 then mcProbeTimeout cfg else mlProbeTimeout base),
          mlTCPTimeout := (if mcTCPTimeout cfg > 0 then mcTCPTimeout cfg else mlTCPTimeout base),
          mlGossipInterval := (if mcGossipInterval cfg > 0 then mcGossipInterval cfg else mlGossipInterval base),
          mlPushPullInterval := (if mcPushPullInterval cfg > 0 then mcPushPullInterval cfg else mlPushPullInterval base),
          mlSuspicionMult := (if mcSuspicionMult cfg > 0 then mcSuspicionMult cfg else mlSuspicionMult base)\<rparr>)"

definition manager_New ::
    "nat \<Rightarrow> nat \<Rightarrow> mlConfig \<Rightarrow> mlConfig \<Rightarrow> (mlConfig \<Rightarrow> 'e option) \<Rightarrow> mgrConfig \<Rightarrow> 'e mgr_error + mlConfig \<times> 'e Manager" where
  "manager_New lim labelMax lan loc create cfg =
     (case EncodeNodeMeta lim (local_meta cfg) of
        Inl e \<Rightarrow> Inl (LocalMetadata e)
      | Inr rawMeta \<Rightarrow>
          if validateConfig labelMax cfg \<noteq> [] then Inl (MgrConfigInvalid (validateConfig labelMax cfg))
          else
            (let base = list_config lan loc rawMeta cfg
             in case create base of
                  Some e \<Rightarrow> Inl (CreateFailed e)
                | None \<Rightarrow> Inr (base,
                    \<lparr>mgView = newView,
                     leaveTimeout = (if mcLeaveTimeout cfg = 0 then DefaultLeaveTimeout else mcLeaveTimeout cfg),
                     left = False, leaveErr = None, closed = False, closeErr = []\<rparr>)))"

definition manager_Snapshot :: "'e Manager \<Rightarrow> Snapshot" where
  "manager_Snapshot m = view_Snapshot (mgView m)"

text \<open>The delegate that hands the encoded metadata to the library (\<open>None\<close>: nil).\<close>

definition delegate_NodeMeta :: "bytes \<Rightarrow> int \<Rightarrow> bytes option" where
  "delegate_NodeMeta raw limit = (if int (length raw) > limit then None else Some raw)"

subsection \<open>Life cycle\<close>

datatype ml_call = MlJoin "string list" | MlLeave int | MlShutdown

datatype 'e life_error = ErrClosed | ErrLeft | JoinFailed 'e

definition Join ::
    "(string list \<Rightarrow> int \<times> 'e option) \<Rightarrow> string list \<Rightarrow> 'e Manager \<Rightarrow> ml_call list \<times> 'e Manager \<times> int \<times> 'e life_error option" where
  "Join join seeds m =
     (if closed m then ([], m, 0, Some ErrClosed)
      else if left m then ([], m, 0, Some ErrLeft)
      else (let (n, err) = join seeds in ([MlJoin seeds], m, n, map_option JoinFailed err)))"

definition leaveLocked :: "(int \<Rightarrow> 'e option) \<Rightarrow> int \<Rightarrow> 'e Manager \<Rightarrow> ml_call list \<times> 'e Manager \<times> 'e option" where
  "leaveLocked leave timeout m =
     (if left m then ([], m, leaveErr m)
      else
        (let timeout = (if timeout \<le> 0 then leaveTimeout m else timeout);
             err = leave timeout
         in ([MlLeave timeout], m\<lparr>leaveErr := err, left := True\<rparr>, err)))"

datatype 'e leave_result = LeaveClosed | LeaveDone "'e option"

definition Leave :: "(int \<Rightarrow> 'e option) \<Rightarrow> int \<Rightarrow> 'e Manager \<Rightarrow> ml_call list \<times> 'e Manager \<times> 'e leave_result" where
  "Leave leave timeout m =
     (if closed m then ([], m, LeaveClosed)
      else (let (calls, m', err) = leaveLocked leave timeout m in (calls, m', LeaveDone err)))"

definition Close :: "(int \<Rightarrow> 'e option) \<Rightarrow> 'e option \<Rightarrow> 'e Manager \<Rightarrow> ml_call list \<times> 'e Manager \<times> 'e list" where
  "Close leave shutdown m =
     (if closed m then ([], m, closeErr m)
      else
        (let (calls, m', lErr) = leaveLocked leave (leaveTimeout m) m;
             errs = (case lErr of None \<Rightarrow> [] | Some e \<Rightarrow> [e]) @ (case shutdown of None \<Rightarrow> [] | Some e \<Rightarrow> [e])
         in (calls @ [MlShutdown], m'\<lparr>closed := True, closeErr := errs\<rparr>, errs)))"

definition Shutdown :: "'e option \<Rightarrow> 'e Manager \<Rightarrow> ml_call list \<times> 'e Manager \<times> 'e list" where
  "Shutdown shutdown m =
     (if closed m then ([], m, closeErr m)
      else (let errs = (case shutdown of None \<Rightarrow> [] | Some e \<Rightarrow> [e])
            in ([MlShutdown], m\<lparr>closeErr := errs, closed := True\<rparr>, errs)))"

subsection \<open>Sequences of calls\<close>

text \<open>One call of the life cycle with what the gossip library answers.\<close>

inductive mgr_step :: "'e Manager \<Rightarrow> ml_call list \<Rightarrow> 'e Manager \<Rightarrow> bool" where
  join: "Join join seeds m = (calls, m', r) \<Longrightarrow> mgr_step m calls m'"
| leave: "Leave leave timeout m = (calls, m', r) \<Longrightarrow> mgr_step m calls m'"
| close: "Close leave shutdown m = (calls, m', r) \<Longrightarrow> mgr_step m calls m'"
| shutdown: "Shutdown shutdown m = (calls, m', r) \<Longrightarrow> mgr_step m calls m'"

inductive_cases mgr_stepE: "mgr_step m calls m'"

inductive mgr_run :: "'e Manager \<Rightarrow> ml_call list \<Rightarrow> 'e Manager \<Rightarrow> bool" where
  none: "mgr_run m [] m"
| more: "mgr_run m calls m' \<Longrightarrow> mgr_step m' calls' m'' \<Longrightarrow> mgr_run m (calls @ calls') m''"

definition is_leave :: "ml_call \<Rightarrow> bool" where
  "is_leave c = (case c of MlLeave _ \<Rightarrow> True | _ \<Rightarrow> False)"

text \<open>What the calls made so far look like.\<close>

definition calls_inv :: "ml_call list \<Rightarrow> 'e Manager \<Rightarrow> bool" where
  "calls_inv calls m \<longleftrightarrow>
     (\<exists>joins leave shutdown. calls = joins @ leave @ shutdown \<and> list_all (\<lambda>c. \<exists>seeds. c = MlJoin seeds) joins \<and>
        (if left m then \<exists>t. leave = [MlLeave t] else leave = []) \<and> shutdown = (if closed m then [MlShutdown] else []))"

lemma leaveLocked_cases:
  "leaveLocked leave timeout m = (calls, m', r) \<Longrightarrow>
     left m' \<and> closed m' = closed m \<and> closeErr m' = closeErr m \<and> r = leaveErr m' \<and>
     (if left m then calls = [] \<and> m' = m else \<exists>t. calls = [MlLeave t])"
  by (auto simp: leaveLocked_def Let_def split: if_splits)

lemma mgr_step_closed: "mgr_step m calls m' \<Longrightarrow> closed m \<Longrightarrow> calls = [] \<and> m' = m"
  by (auto elim!: mgr_stepE simp: Join_def Leave_def Close_def Shutdown_def)

lemma calls_inv_step:
  assumes "calls_inv calls m" and "mgr_step m calls' m'"
  shows "calls_inv (calls @ calls') m'"
proof (cases "closed m")
  case True
  then show ?thesis
    using mgr_step_closed [OF assms(2)] assms(1) by simp
next
  case open': False
  then obtain joins lv where c: "calls = joins @ lv" "list_all (\<lambda>c. \<exists>seeds. c = MlJoin seeds) joins"
      "if left m then \<exists>t. lv = [MlLeave t] else lv = []"
    using assms(1) by (auto simp: calls_inv_def)
  have grown: "calls_inv (calls @ calls') m'" if "calls' = ex @ lv' @ sd" "left m \<longrightarrow> lv' = [] \<and> left m' \<and> ex = []"
      "\<not> left m \<longrightarrow> (if left m' then \<exists>t. lv' = [MlLeave t] else lv' = [])"
      "list_all (\<lambda>c. \<exists>seeds. c = MlJoin seeds) ex" "sd = (if closed m' then [MlShutdown] else [])" for ex lv' sd
    unfolding calls_inv_def using c that
    by (intro exI [of _ "joins @ ex"] exI [of _ "lv @ lv'"] exI [of _ sd]) (auto split: if_splits)
  from assms(2) show ?thesis
  proof cases
    case (join f seeds r)
    then show ?thesis
      using open' by (intro grown [of calls' "[]" "[]"]) (auto simp: Join_def split_beta split: if_splits)
  next
    case (leave f timeout r)
    then show ?thesis
      using open' by (intro grown [of "[]" calls' "[]"])
        (auto simp: Leave_def dest!: leaveLocked_cases split: prod.splits if_splits)
  next
    case (close f sh r)
    then obtain cs m1 e where l: "leaveLocked f (leaveTimeout m) m = (cs, m1, e)" "calls' = cs @ [MlShutdown]"
        "left m' = left m1" "closed m'"
      using open' by (auto simp: Close_def Let_def split: prod.splits)
    then show ?thesis
      using leaveLocked_cases [OF l(1)] by (intro grown [of "[]" cs "[MlShutdown]"]) (auto split: if_splits)
  next
    case (shutdown sh r)
    then show ?thesis
      using open' by (intro grown [of "[]" "[]" calls']) (auto simp: Shutdown_def Let_def)
  qed
qed

lemma calls_inv_run:
  "mgr_run m calls m' \<Longrightarrow> \<not> left m \<Longrightarrow> \<not> closed m \<Longrightarrow> calls_inv calls m'"
proof (induction rule: mgr_run.induct)
  case (none m)
  then show ?case
    by (simp add: calls_inv_def)
next
  case (more m calls m' calls' m'')
  then show ?case
    using calls_inv_step by blast
qed

subsection \<open>Properties\<close>

lemma manager_New_ok:
  assumes "manager_New lim labelMax lan loc create cfg = Inr (base, m)"
  shows "EncodeNodeMeta lim (local_meta cfg) = Inr (mlMeta base) \<and> validateConfig labelMax cfg = [] \<and>
    mlName base = mcName cfg \<and> \<not> left m \<and> \<not> closed m \<and> create base = None"
proof -
  obtain raw where raw: "EncodeNodeMeta lim (local_meta cfg) = Inr raw"
    using assms by (cases "EncodeNodeMeta lim (local_meta cfg)") (simp_all add: manager_New_def)
  have v: "validateConfig labelMax cfg = []"
    using assms raw by (cases "validateConfig labelMax cfg = []") (simp_all add: manager_New_def)
  have c: "create (list_config lan loc raw cfg) = None"
    using assms raw v by (cases "create (list_config lan loc raw cfg)") (simp_all add: manager_New_def Let_def)
  then have "base = list_config lan loc raw cfg" "\<not> left m" "\<not> closed m"
    using assms raw v by (auto simp: manager_New_def Let_def)
  with raw v c show ?thesis
    by (simp add: list_config_def Let_def)
qed

text \<open>
  A participant that starts is never turned away by its peers: the metadata it advertises
  under its name passes their check of every incoming member, and decodes to its own role,
  identity and address.
\<close>

theorem manager_New_admitted:
  assumes "manager_New lim labelMax lan loc create cfg = Inr (base, m)" and "valid_utf8 (mcNodeAddress cfg)"
  shows "NotifyAlive lim (Some \<lparr>gName = mlName base, gMeta = mlMeta base\<rparr>) = None \<and>
    DecodeNodeMeta lim (mlMeta base) = Inr (local_meta cfg)"
proof -
  have "DecodeNodeMeta lim (mlMeta base) = Inr (local_meta cfg)"
    by (rule Decode_Encode) (use manager_New_ok [OF assms(1)] assms(2) in \<open>auto simp: local_meta_def Let_def\<close>)
  moreover have "mcName cfg \<noteq> []"
  proof
    assume "mcName cfg = []"
    moreover have "TrimSpace [] = []"
      by (rule TrimSpace_id_chars) simp
    ultimately show False
      using manager_New_ok [OF assms(1)] by (simp add: validateConfig_def)
  qed
  ultimately show ?thesis
    using manager_New_ok [OF assms(1)] by (simp add: NotifyAlive_def)
qed

definition sample_mgr :: mgrConfig where
  "sample_mgr = \<lparr>mcName = ''side-0'', mcRole = ''data'', mcNodeID = ''node-0'', mcNodeAddress = ''10.0.0.1:7100'',
     mcBindAddr = ''10.0.0.1'', mcBindPort = 7201, mcAdvertiseAddr = [], mcAdvertisePort = 0, mcClusterLabel = ''dev'',
     mcSecretKey = [], mcLocal = False, mcProbeInterval = 0, mcProbeTimeout = 0, mcTCPTimeout = 0, mcGossipInterval = 0,
     mcPushPullInterval = 0, mcSuspicionMult = 0, mcLeaveTimeout = 0\<rparr>"

definition sample_ml :: mlConfig where
  "sample_ml = \<lparr>mlName = [], mlBindAddr = [], mlBindPort = 0, mlAdvertiseAddr = [], mlAdvertisePort = 0, mlLabel = [],
     mlSecretKey = [], mlMeta = [], mlProbeInterval = 1, mlProbeTimeout = 1, mlTCPTimeout = 1, mlGossipInterval = 1,
     mlPushPullInterval = 1, mlSuspicionMult = 4\<rparr>"

lemma sample_mgr_starts:
  "\<exists>base m. manager_New 512 255 sample_ml sample_ml (\<lambda>_. None :: unit option) sample_mgr = Inr (base, m)"
proof -
  have "EncodeNodeMeta 512 (local_meta sample_mgr) = Inr (json_print (meta_json (local_meta sample_mgr)))"
    by code_simp
  moreover have "validateConfig 255 sample_mgr = []"
    by code_simp
  ultimately show ?thesis
    by (simp add: manager_New_def Let_def)
qed

theorem manager_New_admitted_witness:
  "\<exists>base m. manager_New 512 255 sample_ml sample_ml (\<lambda>_. None :: unit option) sample_mgr = Inr (base, m) \<and>
     NotifyAlive 512 (Some \<lparr>gName = mlName base, gMeta = mlMeta base\<rparr>) = None"
proof -
  have "valid_utf8 (mcNodeAddress sample_mgr)"
    by code_simp
  then show ?thesis
    using sample_mgr_starts manager_New_admitted by blast
qed

text \<open>
  Whatever callers do, in any order and however often, the gossip library is told to leave at
  most once and to shut down at most once, nothing is asked of it after the shutdown, and once
  closed every further \<open>Close\<close> and \<open>Shutdown\<close> returns the first outcome.
\<close>

theorem manager_lifecycle:
  assumes "manager_New lim labelMax lan loc create cfg = Inr (base, m)" and "mgr_run m calls m'"
  shows "length (filter is_leave calls) \<le> 1 \<and> MlShutdown \<notin> set (butlast calls) \<and>
    (closed m' \<longleftrightarrow> MlShutdown \<in> set calls) \<and> (left m' \<longleftrightarrow> (\<exists>c \<in> set calls. is_leave c)) \<and>
    (closed m' \<longrightarrow> (\<forall>leave sh. Close leave sh m' = ([], m', closeErr m') \<and> Shutdown sh m' = ([], m', closeErr m')))"
proof -
  obtain joins lv sd where c: "calls = joins @ lv @ sd" "list_all (\<lambda>c. \<exists>seeds. c = MlJoin seeds) joins"
      "if left m' then \<exists>t. lv = [MlLeave t] else lv = []" "sd = (if closed m' then [MlShutdown] else [])"
    using calls_inv_run [OF assms(2)] manager_New_ok [OF assms(1)] by (auto simp: calls_inv_def)
  have j: "c \<in> set joins \<Longrightarrow> \<not> is_leave c \<and> c \<noteq> MlShutdown" for c
    using c(2) by (auto simp: list_all_iff is_leave_def)
  then have "filter is_leave joins = []"
    by (auto simp: filter_empty_conv)
  then show ?thesis
    using c(3,4) j unfolding c(1)
    by (auto simp: is_leave_def butlast_append Close_def Shutdown_def dest: in_set_butlastD split: if_splits)
qed

theorem manager_lifecycle_witness:
  "\<exists>base m m'. manager_New 512 255 sample_ml sample_ml (\<lambda>_. None :: unit option) sample_mgr = Inr (base, m) \<and>
     mgr_run m [MlLeave 5, MlShutdown] m' \<and> closed m' \<and> Close (\<lambda>_. Some ()) None m' = ([], m', closeErr m')"
proof -
  obtain base m where m: "manager_New 512 255 sample_ml sample_ml (\<lambda>_. None :: unit option) sample_mgr = Inr (base, m)"
    using sample_mgr_starts by blast
  note open' = manager_New_ok [OF m]
  let ?m1 = "m\<lparr>leaveErr := Some (), left := True\<rparr>"
  let ?m2 = "?m1\<lparr>closed := True, closeErr := [()]\<rparr>"
  have "Leave (\<lambda>_. Some ()) 5 m = ([MlLeave 5], ?m1, LeaveDone (Some ()))"
    using open' by (simp add: Leave_def leaveLocked_def Let_def)
  moreover have "Close (\<lambda>_. None) None ?m1 = ([MlShutdown], ?m2, [()])"
    using open' by (simp add: Close_def leaveLocked_def Let_def)
  ultimately have "mgr_run m (([] @ [MlLeave 5]) @ [MlShutdown]) ?m2"
    by (intro mgr_run.more [OF mgr_run.more [OF mgr_run.none]]) (rule mgr_step.leave mgr_step.close, assumption)+
  then have run: "mgr_run m [MlLeave 5, MlShutdown] ?m2"
    by simp
  have "closed ?m2"
    by simp
  then have "Close (\<lambda>_. Some ()) None ?m2 = ([], ?m2, closeErr ?m2)"
    using manager_lifecycle [OF m run] by blast
  with m run \<open>closed ?m2\<close> show ?thesis
    by blast
qed

end
