(* ===== verification/Metastore.thy ===== *)
theory Metastore
  imports Membership
begin

text \<open>
  \<^verbatim>\<open>internal/metastore/state.go\<close> and \<^verbatim>\<open>fsm.go\<close>: the replicated state, the JSON commands of the
  Raft log, the state machine that applies them, and its snapshots.

  A decoded command keeps its node slice with the backing array the decoder left behind
  (\<open>Node slice\<close>); the code only ever reads the elements, its first component.  The snapshot
  sink is the Raft library's: its \<^verbatim>\<open>Write\<close> and \<^verbatim>\<open>Close\<close> are parameters of \<open>Persist\<close>, which
  returns the calls it makes.  The reader of \<open>Restore\<close> is the bytes it delivers.

  The lemmas show the command and snapshot round trips, the invariant of every state the
  machine reaches, what a generation means, and that restoring a snapshot and applying the rest
  of the log is the same as applying the whole log.
\<close>

subsection \<open>state.go\<close>

definition stateVersion :: int where
  "stateVersion = 1"

record State =
  sNodes :: "Node list"
  sReplicationFactor :: int
  sGeneration :: u64

definition zero_state :: State where
  "zero_state = \<lparr>sNodes = [], sReplicationFactor = 0, sGeneration = 0\<rparr>"

definition Clone :: "State \<Rightarrow> State" where
  "Clone s = \<lparr>sNodes = [] @ sNodes s, sReplicationFactor = sReplicationFactor s, sGeneration = sGeneration s\<rparr>"

definition State_Snapshot :: "State \<Rightarrow> Snapshot" where
  "State_Snapshot s =
     \<lparr>Generation = sGeneration s, Nodes = [] @ sNodes s, ReplicationFactor = Some (sReplicationFactor s)\<rparr>"

definition SameContent :: "State \<Rightarrow> State \<Rightarrow> bool" where
  "SameContent s other \<longleftrightarrow>
     (if sReplicationFactor s \<noteq> sReplicationFactor other \<or> length (sNodes s) \<noteq> length (sNodes other) then False
      else list_all (\<lambda>i. sNodes s ! i = sNodes other ! i) [0..<length (sNodes s)])"

definition normalizeNodes :: "Node list \<Rightarrow> Node list" where
  "normalizeNodes nodes = sort ([] @ nodes)"

record command =
  cVersion :: int
  cNodes :: "Node slice"
  cReplicationFactor :: int

text \<open>The JSON of a node, and of a slice of nodes: a nil slice is \<^verbatim>\<open>null\<close>.\<close>

definition node_json :: "Node \<Rightarrow> json" where
  "node_json n = JObj [(''NodeID'', JStr (NodeID n)), (''Address'', JStr (Address n))]"

definition nodes_json :: "Node list \<Rightarrow> json" where
  "nodes_json ns = (if ns = [] then JNull else JArr (map node_json ns))"

definition node_field :: "string \<Rightarrow> json \<Rightarrow> Node \<Rightarrow> Node option" where
  "node_field key v n =
     (if field_match ''NodeID'' key then map_option (\<lambda>x. Node x (Address n)) (into_string v (NodeID n))
      else if field_match ''Address'' key then map_option (\<lambda>x. Node (NodeID n) x) (into_string v (Address n))
      else Some n)"

definition into_nodes :: "json \<Rightarrow> Node slice \<Rightarrow> Node slice option" where
  "into_nodes = into_slice (into_struct node_field) (Node [] [])"

definition command_json :: "command \<Rightarrow> json" where
  "command_json c =
     JObj [(''version'', JNum (Itoa (cVersion c))), (''nodes'', nodes_json (fst (cNodes c))),
           (''replication_factor'', JNum (Itoa (cReplicationFactor c)))]"

definition command_field :: "string \<Rightarrow> json \<Rightarrow> command \<Rightarrow> command option" where
  "command_field key v c =
     (if field_match ''version'' key then
        map_option (\<lambda>x. c\<lparr>cVersion := x\<rparr>) (into_int v (cVersion c))
      else if field_match ''nodes'' key then
        map_option (\<lambda>x. c\<lparr>cNodes := x\<rparr>) (into_nodes v (cNodes c))
      else if field_match ''replication_factor'' key then
        map_option (\<lambda>x. c\<lparr>cReplicationFactor := x\<rparr>) (into_int v (cReplicationFactor c))
      else Some c)"

definition zero_command :: command where
  "zero_command = \<lparr>cVersion = 0, cNodes = ([], []), cReplicationFactor = 0\<rparr>"

datatype command_error =
    MalformedCommand
  | CommandVersion int
  | CommandIncompleteNode
  | CommandNegativeFactor int

definition encodeCommand :: "State \<Rightarrow> bytes" where
  "encodeCommand s =
     json_print (command_json
       \<lparr>cVersion = stateVersion, cNodes = (normalizeNodes (sNodes s), []),
        cReplicationFactor = sReplicationFactor s\<rparr>)"

definition incomplete :: "Node \<Rightarrow> bool" where
  "incomplete node \<longleftrightarrow> NodeID node = [] \<or> Address node = []"

definition decodeCommand :: "bytes \<Rightarrow> command_error + command" where
  "decodeCommand b =
     (case Option.bind (Unmarshal_tree b) (\<lambda>v. into_struct command_field v zero_command) of
        None \<Rightarrow> Inl MalformedCommand
      | Some cmd \<Rightarrow>
          if cVersion cmd \<noteq> stateVersion then Inl (CommandVersion (cVersion cmd))
          else if list_ex incomplete (fst (cNodes cmd)) then Inl CommandIncompleteNode
          else if cReplicationFactor cmd < 0 then Inl (CommandNegativeFactor (cReplicationFactor cmd))
          else Inr cmd)"

subsection \<open>fsm.go\<close>

record fsm =
  state :: State
  applied :: u64

definition newFSM :: fsm where
  "newFSM = \<lparr>state = zero_state, applied = 0\<rparr>"

definition fsm_State :: "fsm \<Rightarrow> State" where
  "fsm_State f = Clone (state f)"

definition AppliedIndex :: "fsm \<Rightarrow> u64" where
  "AppliedIndex f = applied f"

text \<open>\<^verbatim>\<open>raft.Log\<close>, as far as the state machine reads it.\<close>

record raftLog =
  Index :: u64
  Data :: bytes

datatype apply_error = ApplyIndex u64 command_error

definition noteApplied :: "u64 \<Rightarrow> fsm \<Rightarrow> fsm" where
  "noteApplied index f = (if index > applied f then f\<lparr>applied := index\<rparr> else f)"

definition Apply :: "raftLog \<Rightarrow> fsm \<Rightarrow> fsm \<times> (apply_error + State)" where
  "Apply entry f =
     (case decodeCommand (Data entry) of
        Inl err \<Rightarrow> (noteApplied (Index entry) f, Inl (ApplyIndex (Index entry) err))
      | Inr cmd \<Rightarrow>
          (let next = \<lparr>sNodes = normalizeNodes (fst (cNodes cmd)),
                       sReplicationFactor = cReplicationFactor cmd, sGeneration = 0\<rparr>;
               f' = (if Index entry > applied f then f\<lparr>applied := Index entry\<rparr> else f)
           in if SameContent (state f') next then (f', Inr (Clone (state f')))
              else (let next' = next\<lparr>sGeneration := Index entry\<rparr>
                    in (f'\<lparr>state := next'\<rparr>, Inr (Clone next')))))"

record persistedState =
  pVersion :: int
  pNodes :: "Node slice"
  pReplicationFactor :: int
  pGeneration :: u64
  pAppliedIndex :: u64

record fsmSnapshot =
  snap_state :: State
  snap_applied :: u64

definition fsm_Snapshot :: "fsm \<Rightarrow> fsmSnapshot" where
  "fsm_Snapshot f = \<lparr>snap_state = Clone (state f), snap_applied = applied f\<rparr>"

definition persisted_json :: "persistedState \<Rightarrow> json" where
  "persisted_json p =
     JObj ([(''version'', JNum (Itoa (pVersion p))), (''nodes'', nodes_json (fst (pNodes p))),
            (''replication_factor'', JNum (Itoa (pReplicationFactor p))),
            (''generation'', JNum (Itoa (uint (pGeneration p))))]
       @ (if pAppliedIndex p = 0 then [] else [(''applied_index'', JNum (Itoa (uint (pAppliedIndex p))))]))"

definition persisted_field :: "string \<Rightarrow> json \<Rightarrow> persistedState \<Rightarrow> persistedState option" where
  "persisted_field key v p =
     (if field_match ''version'' key then
        map_option (\<lambda>x. p\<lparr>pVersion := x\<rparr>) (into_int v (pVersion p))
      else if field_match ''nodes'' key then
        map_option (\<lambda>x. p\<lparr>pNodes := x\<rparr>) (into_nodes v (pNodes p))
      else if field_match ''replication_factor'' key then
        map_option (\<lambda>x. p\<lparr>pReplicationFactor := x\<rparr>) (into_int v (pReplicationFactor p))
      else if field_match ''generation'' key then
        map_option (\<lambda>x. p\<lparr>pGeneration := x\<rparr>) (into_uint TYPE(64) v (pGeneration p))
      else if field_match ''applied_index'' key then
        map_option (\<lambda>x. p\<lparr>pAppliedIndex := x\<rparr>) (into_uint TYPE(64) v (pAppliedIndex p))
      else Some p)"

definition zero_persisted :: persistedState where
  "zero_persisted =
     \<lparr>pVersion = 0, pNodes = ([], []), pReplicationFactor = 0, pGeneration = 0, pAppliedIndex = 0\<rparr>"

datatype sink_call = SinkWrite bytes | SinkCancel | SinkClose

datatype 'e persist_error = WriteFailed 'e | CloseFailed 'e

definition snapshot_bytes :: "fsmSnapshot \<Rightarrow> bytes" where
  "snapshot_bytes s =
     json_print (persisted_json
       \<lparr>pVersion = stateVersion, pNodes = (sNodes (snap_state s), []),
        pReplicationFactor = sReplicationFactor (snap_state s),
        pGeneration = sGeneration (snap_state s), pAppliedIndex = snap_applied s\<rparr>)"

definition Persist ::
    "(bytes \<Rightarrow> 'e option) \<Rightarrow> 'e option \<Rightarrow> fsmSnapshot \<Rightarrow> sink_call list \<times> 'e persist_error option" where
  "Persist sinkWrite sinkClose s =
     (let b = snapshot_bytes s
      in case sinkWrite b of
           Some e \<Rightarrow> ([SinkWrite b, SinkCancel], Some (WriteFailed e))
         | None \<Rightarrow> ([SinkWrite b, SinkClose], map_option CloseFailed sinkClose))"

datatype restore_error =
    MalformedSnapshot
  | SnapshotVersion int
  | SnapshotNegativeFactor int
  | SnapshotIncompleteNode

definition Restore :: "bytes \<Rightarrow> fsm \<Rightarrow> fsm \<times> restore_error option" where
  "Restore reader f =
     (case Option.bind (Decode_tree reader) (\<lambda>v. into_struct persisted_field v zero_persisted) of
        None \<Rightarrow> (f, Some MalformedSnapshot)
      | Some persisted \<Rightarrow>
          if pVersion persisted \<noteq> stateVersion then (f, Some (SnapshotVersion (pVersion persisted)))
          else if pReplicationFactor persisted < 0 then
            (f, Some (SnapshotNegativeFactor (pReplicationFactor persisted)))
          else if list_ex incomplete (fst (pNodes persisted)) then (f, Some SnapshotIncompleteNode)
          else
            (f\<lparr>state := \<lparr>sNodes = normalizeNodes (fst (pNodes persisted)),
                         sReplicationFactor = pReplicationFactor persisted,
                         sGeneration = pGeneration persisted\<rparr>,
               applied := (if pAppliedIndex persisted < pGeneration persisted then pGeneration persisted
                           else pAppliedIndex persisted)\<rparr>,
             None))"

subsection \<open>Lemmas: content and normal form\<close>

lemma SameContent_iff:
  "SameContent s t \<longleftrightarrow> sReplicationFactor s = sReplicationFactor t \<and> sNodes s = sNodes t"
  by (auto simp: SameContent_def list_all_iff intro: nth_equalityI)

lemma Clone_id [simp]: "Clone s = s"
  by (simp add: Clone_def)

lemma normalizeNodes_simps [simp]:
  "sorted (normalizeNodes ns)" "set (normalizeNodes ns) = set ns" "mset (normalizeNodes ns) = mset ns"
  "sorted ns \<Longrightarrow> normalizeNodes ns = ns" "normalizeNodes ns = [] \<longleftrightarrow> ns = []"
proof -
  show "normalizeNodes ns = [] \<longleftrightarrow> ns = []"
    unfolding normalizeNodes_def by (metis append_Nil length_0_conv length_sort)
qed (simp_all add: normalizeNodes_def sorted_sort_id)

lemma normalizeNodes_mset: "mset ns = mset ms \<Longrightarrow> normalizeNodes ns = normalizeNodes ms"
  unfolding normalizeNodes_def by (rule sort_mset_cong) simp

subsection \<open>Lemmas: the JSON of commands and snapshots\<close>

definition node_utf8 :: "Node \<Rightarrow> bool" where
  "node_utf8 n \<longleftrightarrow> valid_utf8 (NodeID n) \<and> valid_utf8 (Address n)"

lemma Atoi_int64: "Atoi s = Some i \<Longrightarrow> int64 i"
  by (cases s) (auto simp: int64_def parse_uint_def split: if_splits)

lemma into_int_int64: "into_int v old = Some i \<Longrightarrow> int64 old \<Longrightarrow> int64 i"
  by (auto simp: into_int_def Atoi_int64 split: json.splits)

lemma metastore_keys:
  "field_match ''NodeID'' ''NodeID''" "\<not> field_match ''NodeID'' ''Address''" "field_match ''Address'' ''Address''"
  "field_match ''nodes'' ''nodes''" "\<not> field_match ''version'' ''nodes''"
  "\<not> field_match ''version'' ''replication_factor''" "\<not> field_match ''nodes'' ''replication_factor''"
  "field_match ''replication_factor'' ''replication_factor''"
  "\<not> field_match ''version'' ''generation''" "\<not> field_match ''nodes'' ''generation''"
  "\<not> field_match ''replication_factor'' ''generation''" "field_match ''generation'' ''generation''"
  "\<not> field_match ''version'' ''applied_index''" "\<not> field_match ''nodes'' ''applied_index''"
  "\<not> field_match ''replication_factor'' ''applied_index''" "\<not> field_match ''generation'' ''applied_index''"
  "field_match ''applied_index'' ''applied_index''"
  by code_simp+

lemmas struct_keys = meta_keys metastore_keys

lemma node_fields_back: "into_struct node_field (node_json n) (Node [] []) = Some n"
  by (simp add: node_json_def into_struct_def node_field_def struct_keys)

lemma into_nodes_back [simp]: "into_nodes (nodes_json ns) ([], []) = Some (ns, [])"
  unfolding into_nodes_def nodes_json_def by (rule into_slice_fresh) (rule node_fields_back)

lemma ascii_keys:
  "valid_utf8 ''NodeID''" "valid_utf8 ''Address''" "valid_utf8 ''version''" "valid_utf8 ''nodes''"
  "valid_utf8 ''replication_factor''" "valid_utf8 ''generation''" "valid_utf8 ''applied_index''"
  by (auto intro!: valid_utf8_ascii simp: byte_def)

lemma json_ok_Itoa [simp]: "json_ok (JNum (Itoa i))"
  by auto

lemma nodes_json_ok: "(\<And>n. n \<in> set ns \<Longrightarrow> node_utf8 n) \<Longrightarrow> json_ok (nodes_json ns)"
  by (auto simp: nodes_json_def node_json_def node_utf8_def ascii_keys)

lemma nodes_json_depth: "json_depth (nodes_json ns) \<le> 2"
proof -
  have "foldr max (map json_depth (map node_json ns)) 0 \<le> 1"
    by (induction ns) (auto simp: node_json_def)
  then show ?thesis
    by (simp add: nodes_json_def)
qed

lemma command_json_ok:
  assumes "\<And>n. n \<in> set (fst (cNodes c)) \<Longrightarrow> node_utf8 n"
  shows "json_ok (command_json c)" "json_depth (command_json c) \<le> maxNestingDepth"
  using nodes_json_ok [OF assms] nodes_json_depth [of "fst (cNodes c)"]
  by (auto simp: command_json_def ascii_keys maxNestingDepth_def simp del: json_ok.simps(1))

lemma persisted_json_ok:
  assumes "\<And>n. n \<in> set (fst (pNodes p)) \<Longrightarrow> node_utf8 n"
  shows "json_ok (persisted_json p)" "json_depth (persisted_json p) \<le> maxNestingDepth"
  using nodes_json_ok [OF assms] nodes_json_depth [of "fst (pNodes p)"]
  by (auto simp: persisted_json_def ascii_keys maxNestingDepth_def simp del: json_ok.simps(1))

lemma command_fields_back:
  assumes "int64 (cVersion c)" and "int64 (cReplicationFactor c)" and "snd (cNodes c) = []"
  shows "into_struct command_field (command_json c) zero_command = Some c"
  using assms
  by (cases c; cases "cNodes c")
    (simp add: command_json_def into_struct_def command_field_def struct_keys zero_command_def into_int_Itoa int64_def)

lemma persisted_fields_back:
  assumes "int64 (pVersion p)" and "int64 (pReplicationFactor p)" and "snd (pNodes p) = []"
  shows "into_struct persisted_field (persisted_json p) zero_persisted = Some p"
  using assms
  by (cases p; cases "pNodes p")
    (simp add: persisted_json_def into_struct_def persisted_field_def struct_keys zero_persisted_def into_int_Itoa int64_def)

lemma node_field_utf8: "node_field k v n = Some m \<Longrightarrow> json_valid v \<Longrightarrow> node_utf8 n \<Longrightarrow> node_utf8 m"
  by (auto simp: node_field_def node_utf8_def intro: into_string_valid split: if_splits)

lemma into_nodes_utf8:
  assumes "into_nodes v old = Some s" and "json_valid v" and "\<forall>n \<in> set (fst old @ snd old). node_utf8 n"
  shows "\<forall>n \<in> set (fst s @ snd s). node_utf8 n"
proof (rule into_slice_all [where I = node_utf8, OF assms(1) [unfolded into_nodes_def]])
  show "node_utf8 b" if "json_valid v" "into_struct node_field v a = Some b" "node_utf8 a" for v a b
    by (rule into_struct_invariant [where I = node_utf8, OF that(2,3,1)]) (rule node_field_utf8)
qed (use assms in \<open>auto simp: node_utf8_def\<close>)

subsection \<open>Lemmas: commands\<close>

text \<open>What a state machine may hold: complete nodes of valid UTF-8 and a factor a Go \<^verbatim>\<open>int\<close> holds.\<close>

definition content_ok :: "Node list \<Rightarrow> int \<Rightarrow> bool" where
  "content_ok ns factor \<longleftrightarrow> (\<forall>n \<in> set ns. \<not> incomplete n \<and> node_utf8 n) \<and> 0 \<le> factor \<and> factor < 2 ^ 63"

lemma content_ok_normalize [simp]: "content_ok (normalizeNodes ns) factor = content_ok ns factor"
  by (simp add: content_ok_def)

definition command_utf8 :: "command \<Rightarrow> bool" where
  "command_utf8 c \<longleftrightarrow> (\<forall>n \<in> set (fst (cNodes c) @ snd (cNodes c)). node_utf8 n) \<and> int64 (cReplicationFactor c)"

lemma command_field_utf8:
  "command_field k v c = Some c' \<Longrightarrow> json_valid v \<Longrightarrow> command_utf8 c \<Longrightarrow> command_utf8 c'"
  using into_nodes_utf8 [of v "cNodes c"]
  by (auto simp: command_field_def command_utf8_def intro: into_int_int64 split: if_splits)

lemma decodeCommand_ok:
  assumes "decodeCommand b = Inr cmd"
  shows "content_ok (fst (cNodes cmd)) (cReplicationFactor cmd)"
proof -
  obtain v where v: "Unmarshal_tree b = Some v" "into_struct command_field v zero_command = Some cmd"
      "\<not> list_ex incomplete (fst (cNodes cmd))" "0 \<le> cReplicationFactor cmd"
    using assms by (auto simp: decodeCommand_def bind_eq_Some_conv split: option.splits if_splits)
  have "command_utf8 cmd"
    using v(2)
  proof (rule into_struct_invariant [where I = command_utf8])
    show "command_utf8 zero_command"
      by (simp add: command_utf8_def zero_command_def int64_def)
  qed (auto intro: command_field_utf8 Unmarshal_valid [OF v(1)])
  with v show ?thesis
    by (auto simp: command_utf8_def content_ok_def int64_def list_ex_iff)
qed

lemma decode_encodeCommand:
  assumes "content_ok (sNodes s) (sReplicationFactor s)"
  shows "decodeCommand (encodeCommand s) =
    Inr \<lparr>cVersion = stateVersion, cNodes = (normalizeNodes (sNodes s), []), cReplicationFactor = sReplicationFactor s\<rparr>"
proof -
  let ?c = "\<lparr>cVersion = stateVersion, cNodes = (normalizeNodes (sNodes s), []), cReplicationFactor = sReplicationFactor s\<rparr>"
  have "Unmarshal_tree (encodeCommand s) = Some (command_json ?c)"
    unfolding encodeCommand_def by (intro Unmarshal_print(1) command_json_ok) (use assms in \<open>auto simp: content_ok_def\<close>)
  moreover have "into_struct command_field (command_json ?c) zero_command = Some ?c"
    by (rule command_fields_back) (use assms in \<open>auto simp: content_ok_def int64_def stateVersion_def\<close>)
  ultimately show ?thesis
    using assms by (auto simp: decodeCommand_def content_ok_def list_ex_iff)
qed

subsection \<open>Lemmas: the state machine\<close>

definition fsm_inv :: "fsm \<Rightarrow> bool" where
  "fsm_inv f \<longleftrightarrow> content_ok (sNodes (state f)) (sReplicationFactor (state f)) \<and>
     sorted (sNodes (state f)) \<and> sGeneration (state f) \<le> applied f"

lemma fsm_inv_new: "fsm_inv newFSM"
  by (simp add: fsm_inv_def newFSM_def zero_state_def content_ok_def)

lemma noteApplied_simps [simp]:
  "state (noteApplied i f) = state f" "applied (noteApplied i f) = max (applied f) i"
  by (auto simp: noteApplied_def max_def)

text \<open>\<open>Apply\<close> with the state and the mark separated.\<close>

lemma Apply_state:
  "state (fst (Apply entry f)) =
     (case decodeCommand (Data entry) of
        Inl _ \<Rightarrow> state f
      | Inr cmd \<Rightarrow>
          if sNodes (state f) = normalizeNodes (fst (cNodes cmd)) \<and> sReplicationFactor (state f) = cReplicationFactor cmd
          then state f
          else \<lparr>sNodes = normalizeNodes (fst (cNodes cmd)), sReplicationFactor = cReplicationFactor cmd,
                sGeneration = Index entry\<rparr>)"
  by (auto simp: Apply_def Let_def SameContent_iff split: sum.splits)

lemma Apply_applied: "applied (fst (Apply entry f)) = max (applied f) (Index entry)"
  by (auto simp: Apply_def Let_def max_def noteApplied_def split: sum.splits)

lemma fsm_inv_Apply: "fsm_inv f \<Longrightarrow> fsm_inv (fst (Apply entry f))"
  using decodeCommand_ok [of "Data entry"]
  by (auto simp: fsm_inv_def Apply_state Apply_applied max_def split: sum.splits)

definition apply_log :: "raftLog list \<Rightarrow> fsm \<Rightarrow> fsm" where
  "apply_log entries f = fold (\<lambda>entry f. fst (Apply entry f)) entries f"

lemma apply_log_simps [simp]:
  "apply_log [] f = f" "apply_log (e # es) f = apply_log es (fst (Apply e f))"
  "apply_log (es @ es') f = apply_log es' (apply_log es f)"
  by (simp_all add: apply_log_def)

lemma fsm_inv_apply_log: "fsm_inv f \<Longrightarrow> fsm_inv (apply_log es f)"
  by (induction es arbitrary: f) (auto intro: fsm_inv_Apply)

lemma Restore_snapshot_bytes:
  assumes "fsm_inv f"
  shows "Restore (snapshot_bytes (fsm_Snapshot f)) g = (f, None)"
proof -
  let ?p = "\<lparr>pVersion = stateVersion, pNodes = (sNodes (state f), []),
        pReplicationFactor = sReplicationFactor (state f),
        pGeneration = sGeneration (state f), pAppliedIndex = applied f\<rparr>"
  have "Decode_tree (snapshot_bytes (fsm_Snapshot f)) = Some (persisted_json ?p)"
    unfolding snapshot_bytes_def fsm_Snapshot_def
    using Unmarshal_print(2) [OF persisted_json_ok, of ?p] assms by (auto simp: fsm_inv_def content_ok_def)
  moreover have "into_struct persisted_field (persisted_json ?p) zero_persisted = Some ?p"
    by (rule persisted_fields_back) (use assms in \<open>auto simp: fsm_inv_def content_ok_def int64_def stateVersion_def\<close>)
  ultimately show ?thesis
    using assms by (auto simp: Restore_def fsm_inv_def content_ok_def list_ex_iff)
qed

text \<open>A log whose indices increase from above the mark: a changed state carries a newer generation.\<close>

lemma apply_log_generation:
  assumes "sorted_wrt (<) (applied f # map Index es)"
  shows "state (apply_log es f) = state f \<or> applied f < sGeneration (state (apply_log es f))"
  using assms
proof (induction es arbitrary: f)
  case (Cons e es)
  let ?f = "fst (Apply e f)"
  have a: "applied ?f = Index e" "applied f < Index e"
    using Cons.prems by (auto simp: Apply_applied)
  have "state (apply_log es ?f) = state ?f \<or> Index e < sGeneration (state (apply_log es ?f))"
    using Cons.IH [of ?f] Cons.prems a by simp
  moreover have "state ?f = state f \<or> sGeneration (state ?f) = Index e"
    by (auto simp: Apply_state split: sum.splits)
  ultimately show ?case
    using a(2) by auto
qed simp

lemma apply_log_applied:
  assumes "sorted_wrt (<) (applied f # map Index es)"
  shows "applied (apply_log es f) = last (applied f # map Index es)"
  using assms by (induction es arbitrary: f) (auto simp: Apply_applied max_def)

subsection \<open>Properties\<close>

text \<open>
  C25: Committing the encoding of a desired state installs exactly its nodes, in canonical
  order, and its factor; the generation becomes the entry's index if that changes the content
  and stays otherwise.
\<close>

theorem Apply_installs:
  assumes "content_ok (sNodes desired) (sReplicationFactor desired)"
  shows "let (f', r) = Apply \<lparr>Index = i, Data = encodeCommand desired\<rparr> f
    in sNodes (state f') = normalizeNodes (sNodes desired) \<and>
       sReplicationFactor (state f') = sReplicationFactor desired \<and>
       sGeneration (state f') =
         (if SameContent (state f) (desired\<lparr>sNodes := normalizeNodes (sNodes desired)\<rparr>) then sGeneration (state f) else i) \<and>
       applied f' = max (applied f) i \<and> r = Inr (state f')"
  using decode_encodeCommand [OF assms]
  by (auto simp: Apply_def Let_def SameContent_iff max_def)

definition sample_state :: State where
  "sample_state = \<lparr>sNodes = [Node ''node-1'' ''h:2'', Node ''node-0'' ''h:1''], sReplicationFactor = 1, sGeneration = 0\<rparr>"

lemma sample_content: "content_ok (sNodes sample_state) (sReplicationFactor sample_state)"
  by (auto simp: content_ok_def sample_state_def incomplete_def node_utf8_def byte_def intro!: valid_utf8_ascii)

lemma sample_normal: "normalizeNodes (sNodes sample_state) = [Node ''node-0'' ''h:1'', Node ''node-1'' ''h:2'']"
  by (simp add: normalizeNodes_def sample_state_def less_eq_Node_def less_Node_def)

theorem Apply_installs_witness:
  "sNodes (state (fst (Apply \<lparr>Index = 3, Data = encodeCommand sample_state\<rparr> newFSM))) =
     [Node ''node-0'' ''h:1'', Node ''node-1'' ''h:2'']"
  using Apply_installs [OF sample_content, of 3 newFSM] by (simp add: sample_normal split_beta Let_def)

text \<open>
  C26: Whatever entries the log holds, well formed or not, the state machine keeps its nodes
  sorted, complete and valid UTF-8, its factor non-negative, and its generation at or below the
  highest index it has consumed, which never goes back.
\<close>

theorem fsm_reachable:
  "let f = apply_log es newFSM
   in sorted (sNodes (state f)) \<and> content_ok (sNodes (state f)) (sReplicationFactor (state f)) \<and>
      sGeneration (state f) \<le> applied f \<and> applied f \<le> applied (fst (Apply e f))"
  using fsm_inv_apply_log [OF fsm_inv_new, of es] by (simp add: fsm_inv_def Let_def Apply_applied)



text \<open>
  C9: Log compaction is transparent.  The bytes a snapshot writes after a prefix of the log,
  restored on any replica and followed by the rest of the log, give the state machine that
  applied the whole log, generation and consumed mark included.
\<close>

theorem snapshot_compaction:
  assumes "Persist sinkWrite sinkClose (fsm_Snapshot (apply_log es newFSM)) = ([SinkWrite b, SinkClose], None)"
  shows "snd (Restore b g) = None \<and> apply_log es' (fst (Restore b g)) = apply_log (es @ es') newFSM"
proof -
  have "b = snapshot_bytes (fsm_Snapshot (apply_log es newFSM))"
    using assms by (auto simp: Persist_def Let_def split: option.splits)
  then show ?thesis
    using Restore_snapshot_bytes [OF fsm_inv_apply_log [OF fsm_inv_new]] by simp
qed

theorem snapshot_compaction_witness:
  "\<exists>b. let es = [\<lparr>Index = 3, Data = encodeCommand sample_state\<rparr>]
    in Persist (\<lambda>_. None :: unit option) None (fsm_Snapshot (apply_log es newFSM)) = ([SinkWrite b, SinkClose], None) \<and>
       apply_log [\<lparr>Index = 4, Data = ''{}''\<rparr>] (fst (Restore b newFSM)) =
       apply_log (es @ [\<lparr>Index = 4, Data = ''{}''\<rparr>]) newFSM"
proof -
  let ?es = "[\<lparr>Index = 3, Data = encodeCommand sample_state\<rparr>]"
  let ?b = "snapshot_bytes (fsm_Snapshot (apply_log ?es newFSM))"
  have p: "Persist (\<lambda>_. None :: unit option) None (fsm_Snapshot (apply_log ?es newFSM)) = ([SinkWrite ?b, SinkClose], None)"
    by (simp add: Persist_def Let_def)
  from snapshot_compaction [OF p, of newFSM "[\<lparr>Index = 4, Data = ''{}''\<rparr>]"] p show ?thesis
    unfolding Let_def by blast
qed

text \<open>Two prefixes of one log with the same generation hold the same state.\<close>

lemma prefix_generation:
  assumes "sorted_wrt (<) (0 # map Index (es @ es'))"
    and "sGeneration (state (apply_log es newFSM)) = sGeneration (state (apply_log (es @ es') newFSM))"
  shows "state (apply_log es newFSM) = state (apply_log (es @ es') newFSM)"
proof -
  let ?f = "apply_log es newFSM"
  have "applied newFSM = 0"
    by (simp add: newFSM_def)
  then have a: "applied ?f = last (0 # map Index es)"
    using apply_log_applied [of newFSM es] assms(1) by (simp add: sorted_wrt_append)
  have "sorted_wrt (<) (applied ?f # map Index es')"
    using assms(1) unfolding a by (cases es rule: rev_cases) (auto simp: sorted_wrt_append)
  from apply_log_generation [OF this]
  have "state (apply_log es' ?f) = state ?f \<or> applied ?f < sGeneration (state (apply_log es' ?f))" .
  moreover have "\<not> applied ?f < sGeneration (state ?f)"
    using fsm_inv_apply_log [OF fsm_inv_new, of es] by (simp add: fsm_inv_def not_less)
  ultimately show ?thesis
    using assms(2) unfolding apply_log_simps by metis
qed

text \<open>
  C10: A generation identifies the committed state: two replicas that have applied prefixes of
  one log (indices increase) and report the same generation hold the same nodes and factor.
\<close>

theorem generation_identifies_state:
  assumes "sorted_wrt (<) (0 # map Index (es @ es'))"
    and "sGeneration (state (apply_log es newFSM)) = sGeneration (state (apply_log (es @ es') newFSM))"
  shows "state (apply_log es newFSM) = state (apply_log (es @ es') newFSM)"
  using assms by (rule prefix_generation)

theorem generation_identifies_state_witness:
  "let e = \<lparr>Index = 3, Data = encodeCommand sample_state\<rparr>; e' = \<lparr>Index = 4, Data = encodeCommand sample_state\<rparr>
   in state (apply_log [e] newFSM) = state (apply_log [e, e'] newFSM) \<and>
      sGeneration (state (apply_log [e] newFSM)) = 3"
proof -
  let ?e = "\<lparr>Index = 3, Data = encodeCommand sample_state\<rparr>"
  let ?e' = "\<lparr>Index = 4, Data = encodeCommand sample_state\<rparr>"
  have g: "sGeneration (state (apply_log [?e] newFSM)) = 3"
    "sGeneration (state (apply_log ([?e] @ [?e']) newFSM)) = 3"
    by (auto simp: Apply_state decode_encodeCommand [OF sample_content] sample_normal newFSM_def zero_state_def
        dest: sym [where s = "[]"])
  have "state (apply_log [?e] newFSM) = state (apply_log ([?e] @ [?e']) newFSM)"
    by (rule generation_identifies_state) (simp, simp only: g)
  then show ?thesis
    using g(1) by (simp add: Let_def)
qed

end
