(* ===== verification/Metastore_Store.thy ===== *)
theory Metastore_Store
  imports Metastore
begin

text \<open>
  \<^verbatim>\<open>internal/metastore/store.go\<close>: the replica's Raft instance as a membership source.

  The Raft library, its stores and the network are parameters: \<open>storeEnv\<close> holds what the calls
  of \<open>New\<close> and \<open>Close\<close> return, \<open>raftObs\<close> the values \<open>ServeReady\<close> reads from the running
  instance (each is read once), \<open>GetLog\<close> is a function of the index, and \<^verbatim>\<open>raft.Apply\<close> a
  function of the proposed bytes.  \<open>New\<close> and \<open>Close\<close> return the resources they open and close.
  Polling loops read the n-th leader and clock value from functions of n.

  The lemmas show that a failed start releases everything it opened, when readiness is
  reported and that the state then served is the committed one, and that waiting for a leader
  returns.
\<close>

subsection \<open>Configuration\<close>

datatype Peer = Peer (PeerID: string) (PeerAddress: string)

record storeConfig =
  scNodeID :: string
  scBindAddress :: string
  scPeers :: "Peer list"
  scDataDir :: string
  scHeartbeatTimeout :: int
  scElectionTimeout :: int
  scLeaderLeaseTimeout :: int
  scSnapshotThreshold :: u64
  scApplyTimeout :: int

datatype store_problem =
    StoreEmptyNodeID
  | StoreEmptyBind
  | StoreNoPeers
  | StoreIncompletePeer
  | StoreDuplicatePeer string
  | StoreNotInPeers string
  | StoreTimeouts
  | StoreLeaseExceedsHeartbeat int int
  | StoreApplyTimeout

text \<open>One peer of the loop: the problems, whether the replica itself was found, and the names seen.\<close>

definition check_peer ::
    "string \<Rightarrow> Peer \<Rightarrow> store_problem list \<times> bool \<times> string list \<Rightarrow> store_problem list \<times> bool \<times> string list" where
  "check_peer self peer = (\<lambda>(problems, found, seen).
     if PeerID peer = [] \<or> PeerAddress peer = [] then (problems @ [StoreIncompletePeer], found, seen)
     else (problems @ (if PeerID peer \<in> set seen then [StoreDuplicatePeer (PeerID peer)] else []),
           found \<or> PeerID peer = self,
           PeerID peer # seen))"

definition store_validate :: "storeConfig \<Rightarrow> store_problem list" where
  "store_validate c =
     (let p0 = (if scNodeID c = [] then [StoreEmptyNodeID] else [])
             @ (if scBindAddress c = [] then [StoreEmptyBind] else [])
             @ (if scPeers c = [] then [StoreNoPeers] else []);
          (p1, found, _) = fold (check_peer (scNodeID c)) (scPeers c) (p0, False, [])
      in p1
         @ (if scPeers c \<noteq> [] \<and> \<not> found then [StoreNotInPeers (scNodeID c)] else [])
         @ (if scHeartbeatTimeout c \<le> 0 \<or> scElectionTimeout c \<le> 0 \<or> scLeaderLeaseTimeout c \<le> 0
            then [StoreTimeouts] else [])
         @ (if scLeaderLeaseTimeout c > scHeartbeatTimeout c
            then [StoreLeaseExceedsHeartbeat (scLeaderLeaseTimeout c) (scHeartbeatTimeout c)] else [])
         @ (if scApplyTimeout c \<le> 0 then [StoreApplyTimeout] else []))"

subsection \<open>Starting and closing\<close>

record Store =
  stConfig :: storeConfig
  stFsm :: fsm
  stHasBolt :: bool
  startupIndex :: u64
  caughtUp :: bool

text \<open>What the calls to the network, the file system and the Raft library return (\<open>None\<close>: no error).\<close>

record 'e storeEnv =
  envResolve :: "'e option"
  envTransport :: "'e option"
  envMkdir :: "'e option"
  envBolt :: "'e option"
  envSnapshots :: "'e option"
  envRaft :: "'e option"
  envLastIndex :: u64
  envExisting :: "'e + bool"
  envBootstrap :: "'e option"
  envCantBootstrap :: "'e \<Rightarrow> bool"
  envShutdown :: "'e option"
  envCloseTransport :: "'e option"
  envCloseBolt :: "'e option"

datatype resource = Transport | BoltStore | RaftNode

datatype store_call = Opened resource | Closed resource | Bootstrapped "(string \<times> string) list"

datatype 'e store_error =
    StoreConfigInvalid "store_problem list"
  | ResolveFailed 'e
  | TransportFailed 'e
  | MkdirFailed 'e
  | BoltFailed 'e
  | SnapshotStoreFailed 'e
  | RaftFailed 'e
  | InspectFailed 'e
  | BootstrapFailed 'e

definition openStores :: "'e storeEnv \<Rightarrow> storeConfig \<Rightarrow> store_call list \<times> ('e store_error + bool)" where
  "openStores env cfg =
     (if scDataDir cfg = [] then ([], Inr False)
      else case envMkdir env of
          Some e \<Rightarrow> ([], Inl (MkdirFailed e))
        | None \<Rightarrow>
            (case envBolt env of
               Some e \<Rightarrow> ([], Inl (BoltFailed e))
             | None \<Rightarrow>
                 (case envSnapshots env of
                    Some e \<Rightarrow> ([Opened BoltStore, Closed BoltStore], Inl (SnapshotStoreFailed e))
                  | None \<Rightarrow> ([Opened BoltStore], Inr True))))"

definition closeStores :: "bool \<Rightarrow> bool \<Rightarrow> store_call list" where
  "closeStores transport boltStore =
     (if transport then [Closed Transport] else []) @ (if boltStore then [Closed BoltStore] else [])"

text \<open>\<^verbatim>\<open>Close\<close> of a started store: every part is released, the first error is returned.\<close>

definition store_Close :: "'e storeEnv \<Rightarrow> Store \<Rightarrow> store_call list \<times> 'e option" where
  "store_Close env s =
     (let e1 = envShutdown env;
          e2 = (case e1 of Some e \<Rightarrow> Some e | None \<Rightarrow> envCloseTransport env);
          e3 = (if stHasBolt s then (case e2 of Some e \<Rightarrow> Some e | None \<Rightarrow> envCloseBolt env) else e2)
      in ([Closed RaftNode, Closed Transport] @ (if stHasBolt s then [Closed BoltStore] else []), e3))"

definition store_New :: "'e storeEnv \<Rightarrow> storeConfig \<Rightarrow> store_call list \<times> ('e store_error + Store)" where
  "store_New env cfg =
     (if store_validate cfg \<noteq> [] then ([], Inl (StoreConfigInvalid (store_validate cfg)))
      else case envResolve env of
        Some e \<Rightarrow> ([], Inl (ResolveFailed e))
      | None \<Rightarrow>
      (case envTransport env of
        Some e \<Rightarrow> ([], Inl (TransportFailed e))
      | None \<Rightarrow>
      (case openStores env cfg of
        (calls, Inl e) \<Rightarrow> (Opened Transport # calls @ [Closed Transport], Inl e)
      | (calls, Inr bolt) \<Rightarrow>
      (case envRaft env of
        Some e \<Rightarrow> (Opened Transport # calls @ closeStores True bolt, Inl (RaftFailed e))
      | None \<Rightarrow>
         (let store = \<lparr>stConfig = cfg, stFsm = newFSM, stHasBolt = bolt,
                       startupIndex = envLastIndex env, caughtUp = False\<rparr>;
              opened = Opened Transport # calls @ [Opened RaftNode]
          in case envExisting env of
               Inl e \<Rightarrow> (opened @ fst (store_Close env store), Inl (InspectFailed e))
             | Inr True \<Rightarrow> (opened, Inr store)
             | Inr False \<Rightarrow>
                 (let opened' = opened @ [Bootstrapped (map (\<lambda>p. (PeerID p, PeerAddress p)) (scPeers cfg))]
                  in case envBootstrap env of
                       Some e \<Rightarrow>
                         if envCantBootstrap env e then (opened', Inr store)
                         else (opened' @ fst (store_Close env store), Inl (BootstrapFailed e))
                     | None \<Rightarrow> (opened', Inr store)))))))"

subsection \<open>Reading the committed state\<close>

definition store_Snapshot :: "Store \<Rightarrow> Snapshot" where
  "store_Snapshot s = State_Snapshot (fsm_State (stFsm s))"


datatype logType = LogCommand | LogOther

text \<open>The values read from the Raft instance; \<open>GetLog\<close> is \<open>None\<close> for an entry it cannot read.\<close>

record raftObs =
  leaderID :: string
  LastIndex :: u64
  CommitIndex :: u64
  raftApplied :: u64
  GetLog :: "(u64 \<Rightarrow> logType option) option"

text \<open>The loop of \<open>unappliedCommandIndex\<close>: \<^verbatim>\<open>for index := commit; index > consumed; index--\<close>.\<close>

function scan_back :: "(u64 \<Rightarrow> logType option) \<Rightarrow> u64 \<Rightarrow> u64 \<Rightarrow> u64 option" where
  "scan_back get consumed index =
     (if index > consumed then
        (case get index of
           None \<Rightarrow> None
         | Some LogCommand \<Rightarrow> Some index
         | Some LogOther \<Rightarrow> scan_back get consumed (index - 1))
      else None)"
  by pat_completeness auto
termination
proof (relation "measure (\<lambda>(get, consumed, index). unat index)")
  fix get :: "u64 \<Rightarrow> logType option" and consumed index :: u64
  assume "index > consumed"
  then have "0 < unat index"
    by (simp add: word_less_nat_alt)
  then have "unat (index - 1) < unat index"
    by (metis unat_eq_zero gr_implies_not0 measure_unat)
  then show "((get, consumed, index - 1), (get, consumed, index)) \<in> measure (\<lambda>(get, consumed, index). unat index)"
    by simp
qed simp

declare scan_back.simps [simp del]

definition unappliedCommandIndex :: "(u64 \<Rightarrow> logType option) option \<Rightarrow> u64 \<Rightarrow> u64 \<Rightarrow> u64 option" where
  "unappliedCommandIndex logStore consumed commit =
     (case logStore of
        None \<Rightarrow> None
      | Some get \<Rightarrow> if commit \<le> consumed then None else scan_back get consumed commit)"

datatype catching_up =
    NoLeaderSeen
  | BehindFloor u64 u64 string
  | BehindCommit u64 u64 string
  | UnappliedCommand u64 u64 string

definition ready_floor :: "u64 \<Rightarrow> u64 \<Rightarrow> u64" where
  "ready_floor startup lastIdx =
     (let floor = (if lastIdx < startup then lastIdx else startup) in if floor < 1 then 1 else floor)"

definition ServeReady :: "raftObs \<Rightarrow> Store \<Rightarrow> Store \<times> catching_up option" where
  "ServeReady obs s =
     (if caughtUp s then (s, None)
      else if leaderID obs = [] then (s, Some NoLeaderSeen)
      else
        (let floor = ready_floor (startupIndex s) (LastIndex obs); commit = CommitIndex obs
         in if commit < floor then (s, Some (BehindFloor commit floor (leaderID obs)))
            else if raftApplied obs < commit then (s, Some (BehindCommit (raftApplied obs) commit (leaderID obs)))
            else case unappliedCommandIndex (GetLog obs) (AppliedIndex (stFsm s)) commit of
                Some pending \<Rightarrow> (s, Some (UnappliedCommand pending (AppliedIndex (stFsm s)) (leaderID obs)))
              | None \<Rightarrow> (s\<lparr>caughtUp := True\<rparr>, None)))"

subsection \<open>Proposing and waiting\<close>

datatype 'e raftErr =
    RaftNotLeader
  | RaftLeadershipLost
  | RaftLeadershipTransferInProgress
  | RaftOther 'e

datatype 'e propose_error =
    ErrNotLeader "'e raftErr option"
  | CommitProposal "'e raftErr"
  | ApplyProposal apply_error

definition Propose ::
    "bool \<Rightarrow> (bytes \<Rightarrow> 'e raftErr + (apply_error + State)) \<Rightarrow> State \<Rightarrow> 'e propose_error option" where
  "Propose isLeader raftApply desired =
     (if \<not> isLeader then Some (ErrNotLeader None)
      else case raftApply (encodeCommand desired) of
          Inl err \<Rightarrow>
            (case err of
               RaftOther _ \<Rightarrow> Some (CommitProposal err)
             | _ \<Rightarrow> Some (ErrNotLeader (Some err)))
        | Inr (Inl applyErr) \<Rightarrow> Some (ApplyProposal applyErr)
        | Inr (Inr _) \<Rightarrow> None)"

text \<open>
  \<^verbatim>\<open>WaitForLeader\<close>: the n-th poll sees \<open>leader n\<close> and, without one, reads the clock \<open>now n\<close>.
\<close>

partial_function (option) wait_from ::
    "(nat \<Rightarrow> string \<times> u64) \<Rightarrow> (nat \<Rightarrow> int) \<Rightarrow> int \<Rightarrow> nat \<Rightarrow> (unit + string \<times> u64) option" where
  "wait_from leader now deadline n =
     (if fst (leader n) \<noteq> [] then Some (Inr (leader n))
      else if now n > deadline then Some (Inl ())
      else wait_from leader now deadline (Suc n))"

definition WaitForLeader ::
    "(nat \<Rightarrow> string \<times> u64) \<Rightarrow> (nat \<Rightarrow> int) \<Rightarrow> int \<Rightarrow> int \<Rightarrow> (int + string \<times> u64) option" where
  "WaitForLeader leader now start timeout =
     map_option (map_sum (\<lambda>_. timeout) (\<lambda>x. x)) (wait_from leader now (start + timeout) 0)"

subsection \<open>Lemmas: starting and closing\<close>

lemma openStores_cases:
  "openStores env cfg = ([], Inr False) \<or> openStores env cfg = ([Opened BoltStore], Inr True) \<or>
   (\<exists>e. openStores env cfg = ([], Inl e)) \<or> (\<exists>e. openStores env cfg = ([Opened BoltStore, Closed BoltStore], Inl e))"
  by (auto simp: openStores_def split: option.splits)

lemma check_peers:
  assumes "fold (check_peer self) ps (problems, found, seen) = (problems', found', seen')"
  shows "(problems' = [] \<longleftrightarrow> problems = [] \<and> (\<forall>p \<in> set ps. PeerID p \<noteq> [] \<and> PeerAddress p \<noteq> []) \<and>
      distinct (map PeerID ps) \<and> set (map PeerID ps) \<inter> set seen = {}) \<and>
    (problems' = [] \<longrightarrow> (found' \<longleftrightarrow> found \<or> self \<in> set (map PeerID ps)))"
  using assms
proof (induction ps arbitrary: problems found seen)
  case (Cons p ps)
  obtain q g t where q: "check_peer self p (problems, found, seen) = (q, g, t)"
    by (cases "check_peer self p (problems, found, seen)")
  then have fold: "fold (check_peer self) ps (q, g, t) = (problems', found', seen')"
    using Cons.prems by simp
  show ?case
  proof (cases "PeerID p = [] \<or> PeerAddress p = []")
    case True
    then show ?thesis
      using Cons.IH [OF fold] q by (auto simp: check_peer_def)
  next
    case False
    then have "q = problems @ (if PeerID p \<in> set seen then [StoreDuplicatePeer (PeerID p)] else [])"
      "g \<longleftrightarrow> found \<or> PeerID p = self" "t = PeerID p # seen"
      using q by (auto simp: check_peer_def)
    then show ?thesis
      using Cons.IH [OF fold] False by auto
  qed
qed auto

subsection \<open>Lemmas: readiness\<close>

lemma le_minus_one_word:
  fixes i k :: "'w::len word"
  assumes "0 < i"
  shows "k \<le> i - 1 \<longleftrightarrow> k < i"
proof -
  have "i \<noteq> 0"
    using assms by auto
  then have "unat (i - 1) = unat i - 1" "0 < unat i"
    using assms by (simp_all add: unat_minus_one word_less_nat_alt)
  then show ?thesis
    by (simp add: word_le_nat_alt word_less_nat_alt) linarith
qed


lemma scan_back_Some:
  assumes "scan_back get consumed i = Some j"
  shows "consumed < j \<and> j \<le> i \<and> get j = Some LogCommand \<and> (\<forall>k. j < k \<and> k \<le> i \<longrightarrow> get k = Some LogOther)"
  using assms
proof (induction get consumed i rule: scan_back.induct)
  case (1 get consumed i)
  have True: "consumed < i"
    using 1(2) by (auto simp: scan_back.simps [of get consumed i] split: if_splits)
  have "0 < i"
    using True by (rule le_less_trans [OF word_zero_le])
  then have le: "k \<le> i - 1 \<longleftrightarrow> k < i" for k
    by (rule le_minus_one_word)
  show ?case
  proof (cases "get i = Some LogCommand")
    case cmd: True
    then have "j = i"
      using 1(2) True by (simp add: scan_back.simps [of get consumed i])
    then show ?thesis
      using cmd True by auto
  next
    case False
    then have get: "get i = Some LogOther" and rest: "scan_back get consumed (i - 1) = Some j"
      using 1(2) True by (auto simp: scan_back.simps [of get consumed i] split: option.splits logType.splits)
    show ?thesis
      using 1(1) [OF True get refl rest] get unfolding le by (auto simp: order_le_less)
  qed
qed





subsection \<open>Properties\<close>


definition sample_store :: Store where
  "sample_store = \<lparr>stConfig = \<lparr>scNodeID = ''cp-0'', scBindAddress = ''127.0.0.1:1'', scPeers = [Peer ''cp-0'' ''127.0.0.1:1''],
      scDataDir = [], scHeartbeatTimeout = 1, scElectionTimeout = 1, scLeaderLeaseTimeout = 1,
      scSnapshotThreshold = 1, scApplyTimeout = 1\<rparr>,
     stFsm = apply_log [\<lparr>Index = 3, Data = encodeCommand sample_state\<rparr>] newFSM, stHasBolt = False,
     startupIndex = 3, caughtUp = False\<rparr>"

lemma sample_store_applied: "applied (stFsm sample_store) = 3"
  by (simp add: sample_store_def Apply_applied newFSM_def)

definition sample_obs :: raftObs where
  "sample_obs = \<lparr>leaderID = ''cp-1'', LastIndex = 5, CommitIndex = 5, raftApplied = 5, GetLog = Some (\<lambda>_. Some LogOther)\<rparr>"

lemma sample_ready: "ServeReady sample_obs sample_store = (sample_store\<lparr>caughtUp := True\<rparr>, None)"
proof -
  have "scan_back (\<lambda>_. Some LogOther) 3 5 = None"
    by (simp add: scan_back.simps)
  then have "unappliedCommandIndex (GetLog sample_obs) (AppliedIndex (stFsm sample_store)) 5 = None"
    by (simp add: unappliedCommandIndex_def AppliedIndex_def sample_store_applied sample_obs_def)
  moreover have "\<not> caughtUp sample_store" "startupIndex sample_store = 3"
    by (simp_all add: sample_store_def)
  moreover have "leaderID sample_obs \<noteq> []" "LastIndex sample_obs = 5" "CommitIndex sample_obs = 5" "raftApplied sample_obs = 5"
    by (simp_all add: sample_obs_def)
  ultimately show ?thesis
    by (simp add: ServeReady_def ready_floor_def)
qed


text \<open>
  Readiness latches: after one success every later check succeeds, whatever the Raft
  instance reports; before that a failed check changes nothing.
\<close>

theorem ServeReady_latches:
  "(\<forall>obs' f. snd (ServeReady obs s) = None \<longrightarrow> snd (ServeReady obs' ((fst (ServeReady obs s))\<lparr>stFsm := f\<rparr>)) = None) \<and>
   (snd (ServeReady obs s) \<noteq> None \<longrightarrow> fst (ServeReady obs s) = s)"
  by (auto simp: ServeReady_def Let_def split: option.splits)

theorem ServeReady_latches_witness:
  "snd (ServeReady sample_obs sample_store) = None \<and>
   snd (ServeReady (sample_obs\<lparr>leaderID := []\<rparr>) ((fst (ServeReady sample_obs sample_store))\<lparr>stFsm := newFSM\<rparr>)) = None"
  using ServeReady_latches [of sample_obs sample_store] by (simp add: sample_ready)

text \<open>
  C28: A replica that fails to start has closed every resource it opened, whichever call
  failed; one that starts has closed nothing, has a valid configuration, and remembers the last
  index it found on disk.
\<close>

theorem store_New_releases:
  "(\<forall>e r. snd (store_New env cfg) = Inl e \<longrightarrow>
      count_list (fst (store_New env cfg)) (Opened r) = count_list (fst (store_New env cfg)) (Closed r)) \<and>
   (\<forall>s. snd (store_New env cfg) = Inr s \<longrightarrow> store_validate cfg = [] \<and> startupIndex s = envLastIndex env \<and>
      \<not> caughtUp s \<and> (\<forall>r. Closed r \<notin> set (fst (store_New env cfg))))"
proof -
  note parts = store_New_def closeStores_def store_Close_def Let_def
  from openStores_cases [of env cfg] show ?thesis
  proof (elim disjE exE)
    assume "openStores env cfg = ([], Inr False)"
    then show ?thesis
      by (simp add: parts split: option.split sum.split bool.split)
  next
    assume "openStores env cfg = ([Opened BoltStore], Inr True)"
    then show ?thesis
      by (simp add: parts split: option.split sum.split bool.split)
  qed (simp add: parts split: option.split)+
qed

theorem store_New_releases_witness:
  "let env = \<lparr>envResolve = None, envTransport = None, envMkdir = None, envBolt = None, envSnapshots = None,
       envRaft = Some (), envLastIndex = 0, envExisting = Inr False, envBootstrap = None,
       envCantBootstrap = (\<lambda>_. False), envShutdown = None, envCloseTransport = None, envCloseBolt = None\<rparr>;
     cfg = (stConfig sample_store)\<lparr>scDataDir := ''d''\<rparr>
   in snd (store_New env cfg) = Inl (RaftFailed ()) \<and>
      count_list (fst (store_New env cfg)) (Opened BoltStore) = count_list (fst (store_New env cfg)) (Closed BoltStore)"
  unfolding Let_def
  apply (rule conjI)
   apply (simp add: store_New_def openStores_def sample_store_def store_validate_def check_peer_def)
  apply (rule conjunct1 [OF store_New_releases, rule_format, of _ _ "RaftFailed ()"])
  apply (simp add: store_New_def openStores_def sample_store_def store_validate_def check_peer_def)
  done

lemma wait_from_result:
  assumes "now (n + d) > deadline"
  shows "\<exists>r k. wait_from leader now deadline n = Some r \<and> n \<le> k \<and> (\<forall>j. n \<le> j \<and> j < k \<longrightarrow> fst (leader j) = []) \<and>
    (case r of Inr l \<Rightarrow> leader k = l \<and> fst l \<noteq> [] | Inl _ \<Rightarrow> fst (leader k) = [] \<and> now k > deadline)"
  using assms
proof (induction d arbitrary: n)
  case 0
  then show ?case
    by (subst wait_from.simps) (auto intro!: exI [of _ n])
next
  case (Suc d)
  show ?case
  proof (cases "fst (leader n) \<noteq> [] \<or> now n > deadline")
    case True
    then show ?thesis
      by (subst wait_from.simps) (auto intro!: exI [of _ n])
  next
    case False
    have "now (Suc n + d) > deadline"
      using Suc.prems by simp
    from Suc.IH [OF this] obtain r k where "wait_from leader now deadline (Suc n) = Some r" "n < k"
      "\<forall>j. n < j \<and> j < k \<longrightarrow> fst (leader j) = []"
      "case r of Inr l \<Rightarrow> leader k = l \<and> fst l \<noteq> [] | Inl _ \<Rightarrow> fst (leader k) = [] \<and> now k > deadline"
      unfolding Suc_le_eq by blast
    then show ?thesis
      using False by (subst wait_from.simps) (auto intro!: exI [of _ r] exI [of _ k] simp: order_le_less)
  qed
qed

text \<open>
  C29: Waiting for a leader returns once the clock passes the deadline, if not before: either
  with a leader some poll saw, or with the timeout after only leaderless polls.
\<close>

theorem WaitForLeader_returns:
  assumes "now n > start + timeout"
  shows "\<exists>r k. WaitForLeader leader now start timeout = Some r \<and> (\<forall>j < k. fst (leader j) = []) \<and>
    (case r of Inr l \<Rightarrow> leader k = l \<and> fst l \<noteq> []
     | Inl t \<Rightarrow> t = timeout \<and> fst (leader k) = [] \<and> now k > start + timeout)"
proof -
  obtain r k where "wait_from leader now (start + timeout) 0 = Some r" "\<forall>j < k. fst (leader j) = []"
    "case r of Inr l \<Rightarrow> leader k = l \<and> fst l \<noteq> [] | Inl _ \<Rightarrow> fst (leader k) = [] \<and> now k > start + timeout"
    using wait_from_result [of "start + timeout" now 0 n leader] assms by auto
  then show ?thesis
    by (intro exI [of _ "map_sum (\<lambda>_. timeout) (\<lambda>x. x) r"] exI [of _ k]) (auto simp: WaitForLeader_def split: sum.splits)
qed

theorem WaitForLeader_returns_witness:
  "\<exists>r. WaitForLeader (\<lambda>n. (if n < 3 then [] else ''cp-1'', 7)) (\<lambda>n. 20 * int n) 0 100 = Some r"
  using WaitForLeader_returns [of 0 100 "\<lambda>n. 20 * int n" 6 "\<lambda>n. (if n < 3 then [] else ''cp-1'', 7)"] by auto

end
