(* ===== verification/Metastore_Bridge.thy ===== *)
theory Metastore_Bridge
  imports Metastore_Store
begin

text \<open>
  \<^verbatim>\<open>internal/metastore/bridge.go\<close>: the loop that proposes the leader's gossip view to the Raft
  group.

  One \<open>tick\<close> holds what an iteration of \<open>Run\<close> reads from outside: whether the replica leads,
  the clock when leadership is noticed and when the settle rule is checked, the gossip
  snapshot, the committed state and the outcome of a proposal.  The logger is left out.  Times
  and durations are nanoseconds.
\<close>

record Bridge =
  factor :: int
  interval :: int
  settleWindow :: int
  proposals :: u64
  deferrals :: u64

record bridgeConfig =
  bcHasStore :: bool
  bcHasGossip :: bool
  bcReplicationFactor :: int
  bcInterval :: int
  bcSettleWindow :: int

datatype bridge_error = BridgeNoStore | BridgeNoGossip | BridgeInterval | BridgeFactor

definition NewBridge :: "bridgeConfig \<Rightarrow> bridge_error + Bridge" where
  "NewBridge cfg =
     (if \<not> bcHasStore cfg then Inl BridgeNoStore
      else if \<not> bcHasGossip cfg then Inl BridgeNoGossip
      else if bcInterval cfg \<le> 0 then Inl BridgeInterval
      else if bcReplicationFactor cfg < 0 then Inl BridgeFactor
      else
        (let settle = (if bcSettleWindow cfg \<le> 0 then wrap64 (10 * bcInterval cfg) else bcSettleWindow cfg)
         in Inr \<lparr>factor = bcReplicationFactor cfg, interval = bcInterval cfg, settleWindow = settle,
                 proposals = 0, deferrals = 0\<rparr>))"

definition proposeAllowed :: "Bridge \<Rightarrow> State \<Rightarrow> State \<Rightarrow> int \<Rightarrow> int \<Rightarrow> bool" where
  "proposeAllowed b committed desired leaderSince now \<longleftrightarrow>
     (if length (sNodes desired) > 0 \<or> length (sNodes committed) = 0 then True
      else if now - leaderSince \<ge> settleWindow b then True
      else False)"

record 'e tick =
  tkLeader :: bool
  tkGain :: int
  tkNow :: int
  tkObserved :: Snapshot
  tkCommitted :: State
  tkPropose :: "State \<Rightarrow> 'e propose_error option"

datatype 'e action = Unchanged | Deferred | Proposed State "'e propose_error option"

definition reconcile :: "int \<Rightarrow> 'e tick \<Rightarrow> Bridge \<Rightarrow> Bridge \<times> 'e action" where
  "reconcile leaderSince t b =
     (let committed = tkCommitted t;
          desired = \<lparr>sNodes = normalizeNodes (Nodes (tkObserved t)), sReplicationFactor = factor b, sGeneration = 0\<rparr>
      in if SameContent committed desired then (b, Unchanged)
         else if \<not> proposeAllowed b committed desired leaderSince (tkNow t)
              then (b\<lparr>deferrals := deferrals b + 1\<rparr>, Deferred)
         else case tkPropose t desired of
             Some err \<Rightarrow> (b, Proposed desired (Some err))
           | None \<Rightarrow> (b\<lparr>proposals := proposals b + 1\<rparr>, Proposed desired None))"

text \<open>One iteration of \<open>Run\<close>; \<open>leaderSince\<close> is \<open>None\<close> while the replica follows.\<close>

definition Run_tick :: "'e tick \<Rightarrow> int option \<times> Bridge \<Rightarrow> (int option \<times> Bridge) \<times> 'e action" where
  "Run_tick t = (\<lambda>(leaderSince, b).
     if \<not> tkLeader t then ((None, b), Unchanged)
     else
       (let since = (case leaderSince of None \<Rightarrow> tkGain t | Some s \<Rightarrow> s);
            (b', act) = reconcile since t b
        in ((Some since, b'), act)))"

fun Run :: "'e tick list \<Rightarrow> int option \<times> Bridge \<Rightarrow> (int option \<times> Bridge) \<times> 'e action list" where
  "Run [] s = (s, [])"
| "Run (t # ts) s =
     (let (s', act) = Run_tick t s; (s'', acts) = Run ts s' in (s'', act # acts))"

definition Stats :: "Bridge \<Rightarrow> u64 \<times> u64" where
  "Stats b = (proposals b, deferrals b)"

subsection \<open>Lemmas\<close>

lemma reconcile_keeps [simp]:
  "factor (fst (reconcile since t b)) = factor b" "settleWindow (fst (reconcile since t b)) = settleWindow b"
  by (auto simp: reconcile_def Let_def split: option.splits)

lemma reconcile_proposed:
  assumes "snd (reconcile since t b) = Proposed d r"
  shows "d = \<lparr>sNodes = normalizeNodes (Nodes (tkObserved t)), sReplicationFactor = factor b, sGeneration = 0\<rparr> \<and>
    \<not> SameContent (tkCommitted t) d \<and> proposeAllowed b (tkCommitted t) d since (tkNow t) \<and> r = tkPropose t d"
  using assms by (auto simp: reconcile_def Let_def split: if_splits option.splits)

lemma Run_length: "length (snd (Run ts s)) = length ts"
  by (induction ts arbitrary: s) (auto simp: split_beta Let_def)

text \<open>When leadership was gained: the first tick of the current run of leading ticks.\<close>

definition gained_at :: "'e tick list \<Rightarrow> nat \<Rightarrow> nat \<Rightarrow> bool" where
  "gained_at ts j i \<longleftrightarrow> j \<le> i \<and> i < length ts \<and> (\<forall>k. j \<le> k \<and> k \<le> i \<longrightarrow> tkLeader (ts ! k)) \<and>
     (j = 0 \<or> \<not> tkLeader (ts ! (j - 1)))"

lemma Run_snoc:
  "Run (ts @ [t]) s =
     (let (s', acts) = Run ts s; (s'', act) = Run_tick t s' in (s'', acts @ [act]))"
  by (induction ts arbitrary: s) (auto simp: split_beta Let_def)

lemma Run_tick_keeps: "settleWindow (snd (fst (Run_tick t s))) = settleWindow (snd s) \<and>
    factor (snd (fst (Run_tick t s))) = factor (snd s)"
  by (cases s) (auto simp: Run_tick_def Let_def split_beta)

lemma Run_keeps: "settleWindow (snd (fst (Run ts s))) = settleWindow (snd s) \<and>
    factor (snd (fst (Run ts s))) = factor (snd s)"
  by (induction ts arbitrary: s) (auto simp: split_beta Let_def Run_tick_keeps)

lemma gained_at_snoc:
  "gained_at ts j i \<Longrightarrow> i = length ts - 1 \<Longrightarrow> tkLeader t \<Longrightarrow> gained_at (ts @ [t]) j (length ts)"
  by (auto simp: gained_at_def nth_append less_Suc_eq_le)

text \<open>The time \<open>Run\<close> remembers is the one of the tick at which it gained leadership.\<close>

lemma Run_since:
  "case fst (fst (Run ts (None, b))) of
     None \<Rightarrow> ts = [] \<or> \<not> tkLeader (last ts)
   | Some g \<Rightarrow> \<exists>j. gained_at ts j (length ts - 1) \<and> g = tkGain (ts ! j)"
proof (induction ts rule: rev_induct)
  case (snoc t ts)
  obtain since b' acts where run: "Run ts (None, b) = ((since, b'), acts)"
    by (metis prod.exhaust)
  show ?case
  proof (cases "tkLeader t")
    case lead: True
    show ?thesis
    proof (cases since)
      case None
      then have "ts = [] \<or> \<not> tkLeader (last ts)"
        using snoc run by simp
      then have "gained_at (ts @ [t]) (length ts) (length ts)"
        using lead by (cases ts rule: rev_cases) (auto simp: gained_at_def nth_append)
      then show ?thesis
        using lead None run by (auto simp: Run_snoc Run_tick_def split_beta Let_def nth_append intro!: exI [of _ "length ts"])
    next
      case (Some g)
      then obtain j where j: "gained_at ts j (length ts - 1)" "g = tkGain (ts ! j)"
        using snoc run by auto
      then have "j < length ts"
        by (auto simp: gained_at_def)
      then show ?thesis
        using lead Some run gained_at_snoc [OF j(1) refl lead] j(2)
        by (auto simp: Run_snoc Run_tick_def split_beta Let_def nth_append intro!: exI [of _ j])
    qed
  qed (use run in \<open>simp add: Run_snoc Run_tick_def\<close>)
qed simp

lemma Run_nth:
  "i < length ts \<Longrightarrow> snd (Run ts s) ! i = snd (Run_tick (ts ! i) (fst (Run (take i ts) s)))"
proof (induction ts rule: rev_induct)
  case (snoc t ts)
  show ?case
  proof (cases "i < length ts")
    case True
    then show ?thesis
      using snoc.IH by (simp add: Run_snoc split_beta Let_def nth_append Run_length)
  next
    case False
    then have "i = length ts"
      using snoc.prems by simp
    then show ?thesis
      using Run_length [of ts s] by (simp add: Run_snoc split_beta Let_def nth_append)
  qed
qed simp

lemma gained_at_take:
  assumes "gained_at (take i ts) j (length (take i ts) - 1)" and "i < length ts" and "tkLeader (ts ! i)"
  shows "gained_at ts j i"
proof -
  have i: "0 < i" "length (take i ts) = i"
    using assms(1,2) by (auto simp: gained_at_def)
  show ?thesis
    unfolding gained_at_def
  proof (intro conjI allI impI)
    show "tkLeader (ts ! k)" if "j \<le> k \<and> k \<le> i" for k
      using assms i that by (cases "k = i") (auto simp: gained_at_def)
  qed (use assms i in \<open>auto simp: gained_at_def\<close>)
qed

text \<open>Each action of a run is a reconciliation since the tick that gained leadership.\<close>

lemma Run_action:
  assumes "i < length ts" and "snd (Run ts (None, b)) ! i \<noteq> Unchanged"
  shows "\<exists>j. gained_at ts j i \<and>
    snd (Run ts (None, b)) ! i = snd (reconcile (tkGain (ts ! j)) (ts ! i) (snd (fst (Run (take i ts) (None, b)))))"
proof -
  obtain since b' acts where run: "Run (take i ts) (None, b) = ((since, b'), acts)"
    by (metis prod.exhaust)
  have lead: "tkLeader (ts ! i)"
    using assms by (auto simp: Run_nth run Run_tick_def split: if_splits)
  note since = Run_since [of "take i ts" b, unfolded run fst_conv]
  show ?thesis
  proof (cases since)
    case None
    then have "i = 0 \<or> \<not> tkLeader (ts ! (i - 1))"
      using since assms(1) by (cases i) (auto simp: last_conv_nth take_Suc_conv_app_nth)
    then have "gained_at ts i i"
      using lead assms(1) by (auto simp: gained_at_def order_antisym)
    then show ?thesis
      using None lead assms(1) by (auto simp: Run_nth run Run_tick_def split_beta Let_def)
  next
    case (Some g)
    then obtain j where "gained_at (take i ts) j (length (take i ts) - 1)" "g = tkGain (take i ts ! j)"
      using since by auto
    moreover from this have "j < i"
      using assms(1) by (auto simp: gained_at_def)
    ultimately show ?thesis
      using Some lead assms(1) gained_at_take [of i ts j]
      by (auto simp: Run_nth run Run_tick_def split_beta Let_def)
  qed
qed

subsection \<open>Properties\<close>

text \<open>
  C11: The bridge never commits an empty membership over a non-empty one before the settle
  window has passed since the tick at which the replica gained the leadership it still holds;
  and whatever it proposes is its own gossip view in canonical order with its configured factor.
\<close>

theorem Bridge_safe_proposals:
  assumes "i < length ts" and "snd (Run ts (None, b)) ! i = Proposed d r"
  shows "sNodes d = normalizeNodes (Nodes (tkObserved (ts ! i))) \<and> sReplicationFactor d = factor b \<and>
    \<not> SameContent (tkCommitted (ts ! i)) d \<and>
    (\<exists>j. gained_at ts j i \<and>
      (sNodes d = [] \<and> sNodes (tkCommitted (ts ! i)) \<noteq> [] \<longrightarrow>
        settleWindow b \<le> tkNow (ts ! i) - tkGain (ts ! j)))"
proof -
  let ?b = "snd (fst (Run (take i ts) (None, b)))"
  obtain j where j: "gained_at ts j i" "snd (reconcile (tkGain (ts ! j)) (ts ! i) ?b) = Proposed d r"
    using Run_action [OF assms(1), of b] assms(2) by auto
  have "settleWindow ?b = settleWindow b" "factor ?b = factor b"
    using Run_keeps [of "take i ts" "(None, b)"] by simp_all
  then show ?thesis
    using reconcile_proposed [OF j(2)] j(1) by (auto simp: proposeAllowed_def split: if_splits)
qed

definition sample_tick :: "unit tick" where
  "sample_tick = \<lparr>tkLeader = True, tkGain = 5, tkNow = 6,
     tkObserved = \<lparr>Generation = 1, Nodes = [Node ''node-0'' ''h:1''], ReplicationFactor = None\<rparr>,
     tkCommitted = zero_state, tkPropose = (\<lambda>_. None)\<rparr>"

definition sample_bridge :: Bridge where
  "sample_bridge = \<lparr>factor = 1, interval = 10, settleWindow = 100, proposals = 0, deferrals = 0\<rparr>"

theorem Bridge_safe_proposals_witness:
  "let ts = [sample_tick, sample_tick\<lparr>tkNow := 105, tkObserved := (tkObserved sample_tick)\<lparr>Nodes := []\<rparr>,
       tkCommitted := sample_state\<rparr>]
   in \<exists>d. snd (Run ts (None, sample_bridge)) ! 1 = Proposed d None \<and> sNodes d = [] \<and>
        (\<exists>j. gained_at ts j 1 \<and> settleWindow sample_bridge \<le> tkNow (ts ! 1) - tkGain (ts ! j))"
proof -
  let ?t = "sample_tick\<lparr>tkNow := 105, tkObserved := (tkObserved sample_tick)\<lparr>Nodes := []\<rparr>, tkCommitted := sample_state\<rparr>"
  let ?d = "\<lparr>sNodes = [], sReplicationFactor = 1, sGeneration = 0\<rparr>"
  have run: "snd (Run [sample_tick, ?t] (None, sample_bridge)) ! 1 = Proposed ?d None"
    by (simp add: Run_tick_def reconcile_def Let_def sample_tick_def sample_bridge_def SameContent_iff
        zero_state_def sample_state_def proposeAllowed_def normalizeNodes_def)
  have "tkCommitted ([sample_tick, ?t] ! 1) = sample_state" "sNodes sample_state \<noteq> []"
    by (simp_all add: sample_state_def)
  then show ?thesis
    using Bridge_safe_proposals [OF _ run] run unfolding Let_def by (intro exI [of _ ?d]) auto
qed

text \<open>The two counters are the numbers of committed proposals and of deferrals, as 64-bit counters.\<close>

theorem Bridge_Stats:
  "Stats (snd (fst (Run ts (since, b)))) =
     (proposals b + of_nat (length (filter (\<lambda>a. \<exists>d. a = Proposed d None) (snd (Run ts (since, b))))),
      deferrals b + of_nat (length (filter (\<lambda>a. a = Deferred) (snd (Run ts (since, b))))))"
proof (induction ts arbitrary: since b)
  case (Cons t ts)
  obtain since' b' act where t: "Run_tick t (since, b) = ((since', b'), act)"
    by (metis prod.exhaust)
  have "proposals b' = proposals b + (if \<exists>d. act = Proposed d None then 1 else 0) \<and>
      deferrals b' = deferrals b + (if act = Deferred then 1 else 0)"
    using t by (auto simp: Run_tick_def reconcile_def Let_def split_beta split: if_splits option.splits)
  then show ?case
    using Cons [of since' b'] t by (auto simp: Stats_def split_beta Let_def)
qed (simp add: Stats_def)

end
