(* ===== verification/Topology.thy ===== *)
theory Topology
  imports Router
begin

text \<open>
  \<^verbatim>\<open>internal/topology/topology.go\<close>: fetching the node list and the shard map until they describe
  one topology, validating it, and its content-derived fingerprint.

  Protobuf messages are records of the fields the code reads; a repeated or map field of message
  pointers may hold a nil pointer (\<open>None\<close>).  A nil Go map reads like an empty one, so both
  are the empty finite map.  The metadata client is a parameter of \<open>Fetch\<close>: the
  context error and the two responses of every attempt.

  \<open>prefix_code\<close> is the interface of the encoders the fingerprint is built from: appending
  anything to an encoding leaves it decodable.  It is interpreted on the length-prefixed
  strings, the node pairs and the shard entries, and gives that the hashed byte stream
  determines the topology.  The remaining lemmas show what \<open>validate\<close> guarantees and that it
  accepts every well-formed pair of responses.
\<close>

subsection \<open>Data\<close>

definition maxCoherenceAttempts :: nat where
  "maxCoherenceAttempts = 8"

definition FingerprintSize :: nat where
  "FingerprintSize = 32"

record Topology =
  tGeneration :: u64
  tFingerprint :: bytes
  tShardCount :: u32
  tShardMap :: "(u32, string) fmap"
  tNodes :: "(string, string) fmap"
  tOwners :: "(u32, ShardOwners) fmap"
  tReplicationFactor :: u32
  tRaftLeaderID :: string
  tRaftTerm :: u64

definition topology_Replicas :: "Topology \<Rightarrow> u32 \<Rightarrow> string list" where
  "topology_Replicas s shard = (case fmlookup (tOwners s) shard of None \<Rightarrow> [] | Some o' \<Rightarrow> Replicas o')"

record NodeInfo =
  niNodeId :: string
  niAddress :: string
  niAlive :: bool

record GetNodeListResponse =
  nlNodes :: "NodeInfo option list"
  nlGeneration :: u64
  nlFingerprint :: bytes

record GetShardMapResponse =
  smShardToNodeId :: "(u32, string) fmap"
  smGeneration :: u64
  smFingerprint :: bytes
  smShardCount :: u32
  smShardToOwners :: "(u32, ShardOwners option) fmap"
  smReplicationFactor :: u32
  smRaftLeaderId :: string
  smRaftTerm :: u64

subsection \<open>Fingerprint\<close>

record FingerprintInput =
  fiShardCount :: u32
  fiReplicationFactor :: u32
  fiNodes :: "(string, string) fmap"
  fiShardMap :: "(u32, string) fmap"
  fiOwners :: "(u32, ShardOwners) fmap"

definition topology_FingerprintInput :: "Topology \<Rightarrow> FingerprintInput" where
  "topology_FingerprintInput s =
     \<lparr>fiShardCount = tShardCount s, fiReplicationFactor = tReplicationFactor s, fiNodes = tNodes s,
      fiShardMap = tShardMap s, fiOwners = tOwners s\<rparr>"

definition writeUint32 :: "u32 \<Rightarrow> bytes \<Rightarrow> bytes" where
  "writeUint32 v dst = dst @ be32 v"

definition writeBytes :: "bytes \<Rightarrow> bytes \<Rightarrow> bytes" where
  "writeBytes v dst = writeUint32 (word_of_nat (length v)) dst @ v"

definition domain_tag :: bytes where
  "domain_tag = ''pulsekv-topology-v2'' @ [CHR 0x00]"

text \<open>The bytes written to the hash, in order.\<close>

definition fingerprint_stream :: "FingerprintInput \<Rightarrow> bytes" where
  "fingerprint_stream inp =
     (let ids = sorted_list_of_fset (fmdom (fiNodes inp));
          h = domain_tag;
          h = writeUint32 (fiShardCount inp) h;
          h = writeUint32 (fiReplicationFactor inp) h;
          h = writeUint32 (word_of_nat (length ids)) h;
          h = fold (\<lambda>nid h. writeBytes (fmget (fiNodes inp) nid) (writeBytes nid h)) ids h;
          h = writeUint32 (word_of_nat (fmlen (fiShardMap inp))) h;
          h = for_u32 (\<lambda>shard h.
                case fmlookup (fiShardMap inp) shard of
                  None \<Rightarrow> h
                | Some owner \<Rightarrow> writeBytes owner (writeUint32 shard h)) 0 (fiShardCount inp) h;
          h = writeUint32 (word_of_nat (fmlen (fiOwners inp))) h
      in for_u32 (\<lambda>shard h.
           case fmlookup (fiOwners inp) shard of
             None \<Rightarrow> h
           | Some owners \<Rightarrow>
               fold writeBytes (Replicas owners)
                 (writeUint32 (word_of_nat (length (Replicas owners)))
                   (writeBytes (Primary owners) (writeUint32 shard h)))) 0 (fiShardCount inp) h)"

definition Fingerprint :: "FingerprintInput \<Rightarrow> bytes" where
  "Fingerprint inp = sha256 (fingerprint_stream inp)"

subsection \<open>validate\<close>

datatype topology_error =
    ZeroShardCount
  | IncompleteNode
  | DuplicateNodeID string
  | DuplicateAddress string string string
  | ShardMapTooLarge
  | OwnersWithoutNodes
  | ShardOwnerCount nat u32
  | OwnerEntryCount nat u32
  | MissingShard u32
  | UnknownOwner u32 string
  | MissingOwnerEntry u32
  | PrimaryDisagrees u32 string string
  | TooManyReplicas u32 nat nat
  | UnknownReplica u32 string
  | RepeatedReplica u32 string

definition check_node ::
    "NodeInfo option \<Rightarrow> (string, string) fmap \<times> (string, string) fmap
       \<Rightarrow> topology_error + (string, string) fmap \<times> (string, string) fmap" where
  "check_node node = (\<lambda>(byID, byAddress).
     case node of
       None \<Rightarrow> Inl IncompleteNode
     | Some n \<Rightarrow>
         if niNodeId n = [] \<or> niAddress n = [] then Inl IncompleteNode
         else if fmlookup byID (niNodeId n) \<noteq> None then Inl (DuplicateNodeID (niNodeId n))
         else case fmlookup byAddress (niAddress n) of
             Some previousID \<Rightarrow> Inl (DuplicateAddress (niAddress n) previousID (niNodeId n))
           | None \<Rightarrow> Inr (fmupd (niNodeId n) (niAddress n) byID, fmupd (niAddress n) (niNodeId n) byAddress))"

definition check_replica ::
    "(string, string) fmap \<Rightarrow> u32 \<Rightarrow> string \<Rightarrow> string list \<times> string list
       \<Rightarrow> topology_error + string list \<times> string list" where
  "check_replica byID shard replica = (\<lambda>(seen, replicas).
     if fmlookup byID replica = None then Inl (UnknownReplica shard replica)
     else if replica \<in> set seen then Inl (RepeatedReplica shard replica)
     else Inr (replica # seen, replicas @ [replica]))"

text \<open>One shard of the loop; \<open>hasOwners\<close> is \<^verbatim>\<open>owners != nil\<close>.\<close>

definition check_shard ::
    "(string, string) fmap \<Rightarrow> (u32, string) fmap \<Rightarrow> (u32, ShardOwners option) fmap \<Rightarrow> bool \<Rightarrow> u32
       \<Rightarrow> (u32, string) fmap \<times> (u32, ShardOwners) fmap
       \<Rightarrow> topology_error + (u32, string) fmap \<times> (u32, ShardOwners) fmap" where
  "check_shard byID shardMap ownerMap hasOwners shard = (\<lambda>(shards, owners).
     case fmlookup shardMap shard of
       None \<Rightarrow> Inl (MissingShard shard)
     | Some owner \<Rightarrow>
         if fmlookup byID owner = None then Inl (UnknownOwner shard owner)
         else if \<not> hasOwners then Inr (fmupd shard owner shards, owners)
         else case fmlookup ownerMap shard of
             None \<Rightarrow> Inl (MissingOwnerEntry shard)
           | Some None \<Rightarrow> Inl (MissingOwnerEntry shard)
           | Some (Some entry) \<Rightarrow>
               if Primary entry \<noteq> owner then Inl (PrimaryDisagrees shard (Primary entry) owner)
               else if (word_of_nat (length (Replicas entry)) :: u32) > word_of_nat (fmlen byID)
                 then Inl (TooManyReplicas shard (length (Replicas entry)) (fmlen byID))
               else case foldE (check_replica byID shard) (Replicas entry) ([owner], []) of
                   Inl e \<Rightarrow> Inl e
                 | Inr (_, replicas) \<Rightarrow>
                     Inr (fmupd shard owner shards, fmupd shard (ShardOwners owner replicas) owners))"

definition empty_topology :: Topology where
  "empty_topology =
     \<lparr>tGeneration = 0, tFingerprint = [], tShardCount = 0, tShardMap = fmempty, tNodes = fmempty, tOwners = fmempty,
      tReplicationFactor = 0, tRaftLeaderID = [], tRaftTerm = 0\<rparr>"

definition validate ::
    "u64 \<Rightarrow> u32 \<Rightarrow> NodeInfo option list \<Rightarrow> (u32, string) fmap \<Rightarrow> (u32, ShardOwners option) fmap \<Rightarrow> u32
       \<Rightarrow> topology_error + Topology" where
  "validate generation shardCount nodes shardMap ownerMap replicationFactor =
     (if shardCount = 0 then Inl ZeroShardCount
      else case foldE check_node nodes (fmempty, fmempty) of
          Inl e \<Rightarrow> Inl e
        | Inr (byID, _) \<Rightarrow>
            if fmlen shardMap > 2 ^ 32 - 1 then Inl ShardMapTooLarge
            else if nodes = [] then
              (if fmlen shardMap \<noteq> 0 \<or> fmlen ownerMap \<noteq> 0 then Inl OwnersWithoutNodes
               else Inr (empty_topology\<lparr>tGeneration := generation, tShardCount := shardCount,
                     tNodes := byID, tReplicationFactor := replicationFactor\<rparr>))
            else if word_of_nat (fmlen shardMap) \<noteq> shardCount
              then Inl (ShardOwnerCount (fmlen shardMap) shardCount)
            else if fmlen ownerMap \<noteq> 0 \<and> word_of_nat (fmlen ownerMap) \<noteq> shardCount
              then Inl (OwnerEntryCount (fmlen ownerMap) shardCount)
            else case for_u32E (check_shard byID shardMap ownerMap (fmlen ownerMap \<noteq> 0)) 0 shardCount (fmempty, fmempty) of
                Inl e \<Rightarrow> Inl e
              | Inr (shards, owners) \<Rightarrow>
                  Inr (empty_topology\<lparr>tGeneration := generation, tShardCount := shardCount, tShardMap := shards,
                        tNodes := byID, tOwners := owners, tReplicationFactor := replicationFactor\<rparr>))"

definition Validate ::
    "u64 \<Rightarrow> NodeInfo option list \<Rightarrow> (u32, string) fmap \<Rightarrow> topology_error + Topology" where
  "Validate generation nodes shardMap =
     (if fmlen shardMap > 2 ^ 32 - 1 then Inl ShardMapTooLarge
      else validate generation (word_of_nat (fmlen shardMap)) nodes shardMap fmempty 0)"

subsection \<open>Fetch\<close>

record 'e attempt =
  atContext :: "'e option"
  atNodes :: "'e + GetNodeListResponse"
  atShards :: "'e + GetShardMapResponse"

datatype 'e fetch_error =
    ContextDone 'e
  | NodeListFailed 'e
  | ShardMapFailed 'e
  | FingerprintSizes nat nat
  | InvalidTopology topology_error
  | FingerprintMismatch
  | NotConverged u64 u64

text \<open>One attempt: \<open>None\<close> is \<^verbatim>\<open>continue\<close>.\<close>

definition fetch_attempt :: "'e attempt \<Rightarrow> ('e fetch_error + Topology) option" where
  "fetch_attempt a =
     (case atContext a of
        Some e \<Rightarrow> Some (Inl (ContextDone e))
      | None \<Rightarrow>
      (case atNodes a of
        Inl e \<Rightarrow> Some (Inl (NodeListFailed e))
      | Inr nodesResp \<Rightarrow>
      (case atShards a of
        Inl e \<Rightarrow> Some (Inl (ShardMapFailed e))
      | Inr shardsResp \<Rightarrow>
         (let nodeFp = nlFingerprint nodesResp; shardFp = smFingerprint shardsResp
          in if length nodeFp > 0 \<or> length shardFp > 0 then
               (if length nodeFp = 0 \<or> length shardFp = 0 then None
                else if length nodeFp \<noteq> FingerprintSize \<or> length shardFp \<noteq> FingerprintSize
                  then Some (Inl (FingerprintSizes (length nodeFp) (length shardFp)))
                else if nodeFp \<noteq> shardFp then None
                else case validate (smGeneration shardsResp) (smShardCount shardsResp) (nlNodes nodesResp)
                       (smShardToNodeId shardsResp) (smShardToOwners shardsResp) (smReplicationFactor shardsResp) of
                    Inl e \<Rightarrow> Some (Inl (InvalidTopology e))
                  | Inr snapshot \<Rightarrow>
                      if shardFp \<noteq> Fingerprint (topology_FingerprintInput snapshot)
                      then Some (Inl FingerprintMismatch)
                      else Some (Inr (snapshot\<lparr>tFingerprint := shardFp, tRaftLeaderID := smRaftLeaderId shardsResp,
                             tRaftTerm := smRaftTerm shardsResp\<rparr>)))
             else if nlGeneration nodesResp \<noteq> smGeneration shardsResp then None
             else
               (let shardCount = (if smShardCount shardsResp = 0 \<and> fmlen (smShardToNodeId shardsResp) > 0
                                  then word_of_nat (fmlen (smShardToNodeId shardsResp)) else smShardCount shardsResp)
                in case validate (nlGeneration nodesResp) shardCount (nlNodes nodesResp)
                       (smShardToNodeId shardsResp) (smShardToOwners shardsResp) (smReplicationFactor shardsResp) of
                    Inl e \<Rightarrow> Some (Inl (InvalidTopology e))
                  | Inr snapshot \<Rightarrow> Some (Inr (snapshot\<lparr>tRaftLeaderID := smRaftLeaderId shardsResp,
                             tRaftTerm := smRaftTerm shardsResp\<rparr>)))))))"

text \<open>The generations the final error reports are those of the last attempt that got both responses.\<close>

definition attempt_generations :: "'e attempt \<Rightarrow> u64 \<times> u64 \<Rightarrow> u64 \<times> u64" where
  "attempt_generations a gens =
     (case (atNodes a, atShards a) of (Inr n, Inr s) \<Rightarrow> (nlGeneration n, smGeneration s) | _ \<Rightarrow> gens)"

fun fetch_loop :: "nat \<Rightarrow> (nat \<Rightarrow> 'e attempt) \<Rightarrow> nat \<Rightarrow> u64 \<times> u64 \<Rightarrow> 'e fetch_error + Topology" where
  "fetch_loop 0 attempts k gens = Inl (NotConverged (fst gens) (snd gens))"
| "fetch_loop (Suc left) attempts k gens =
     (case fetch_attempt (attempts k) of
        Some r \<Rightarrow> r
      | None \<Rightarrow> fetch_loop left attempts (Suc k) (attempt_generations (attempts k) gens))"

definition Fetch :: "(nat \<Rightarrow> 'e attempt) \<Rightarrow> 'e fetch_error + Topology" where
  "Fetch attempts = fetch_loop maxCoherenceAttempts attempts 1 (0, 0)"

subsection \<open>Owner addresses\<close>

definition OwnerAddresses :: "Topology \<Rightarrow> string list" where
  "OwnerAddresses s =
     sorted_list_of_fset (ffilter (\<lambda>address. address \<noteq> []) (fmget (tNodes s) |`| fmran (tShardMap s)))"

definition OwnsAddress :: "Topology \<Rightarrow> string \<Rightarrow> bool" where
  "OwnsAddress s address \<longleftrightarrow> fBex (fmran (tShardMap s)) (\<lambda>owner. fmget (tNodes s) owner = address)"

subsection \<open>The hashed stream determines its input\<close>

locale prefix_code =
  fixes ok :: "'a \<Rightarrow> bool" and enc :: "'a \<Rightarrow> bytes"
  assumes cancel: "ok x \<Longrightarrow> ok y \<Longrightarrow> enc x @ r = enc y @ s \<Longrightarrow> x = y \<and> r = s"
begin

lemma cancel_list:
  "length xs = length ys \<Longrightarrow> list_all ok xs \<Longrightarrow> list_all ok ys \<Longrightarrow>
     concat (map enc xs) @ r = concat (map enc ys) @ s \<Longrightarrow> xs = ys \<and> r = s"
proof (induction xs ys rule: list_induct2)
  case (Cons x xs y ys)
  have "x = y \<and> concat (map enc xs) @ r = concat (map enc ys) @ s"
    by (rule cancel) (use Cons.prems in simp_all)
  then show ?case
    using Cons by simp
qed simp

end

locale prefix_code_pair = a: prefix_code ok1 enc1 + b: prefix_code ok2 enc2
  for ok1 :: "'a \<Rightarrow> bool" and enc1 :: "'a \<Rightarrow> bytes" and ok2 :: "'b \<Rightarrow> bool" and enc2 :: "'b \<Rightarrow> bytes"
begin

lemma cancel_pair:
  assumes "ok1 x \<and> ok2 y" and "ok1 x' \<and> ok2 y'" and "(enc1 x @ enc2 y) @ r = (enc1 x' @ enc2 y') @ s"
  shows "(x, y) = (x', y') \<and> r = s"
proof -
  have "x = x' \<and> enc2 y @ r = enc2 y' @ s"
    by (rule a.cancel) (use assms in simp_all)
  then show ?thesis
    using b.cancel [of y y' r s] assms by simp
qed

end

sublocale prefix_code_pair \<subseteq> pair: prefix_code "\<lambda>(x, y). ok1 x \<and> ok2 y" "\<lambda>(x, y). enc1 x @ enc2 y"
  by (rule prefix_code.intro) (simp only: split_paired_all prod.case, rule cancel_pair)

definition short :: "'a list \<Rightarrow> bool" where
  "short xs \<longleftrightarrow> length xs < 2 ^ 32"

lemma unat_of_nat_u32: "k < 2 ^ 32 \<Longrightarrow> unat (word_of_nat k :: u32) = k"
  by (simp add: unat_of_nat)

lemma word_of_nat_inject:
  "m < 2 ^ 32 \<Longrightarrow> n < 2 ^ 32 \<Longrightarrow> (word_of_nat m :: u32) = word_of_nat n \<longleftrightarrow> m = n"
  using unat_of_nat_u32 [of m] unat_of_nat_u32 [of n] by metis

definition enc_bytes :: "bytes \<Rightarrow> bytes" where
  "enc_bytes v = be32 (word_of_nat (length v)) @ v"

definition enc_strings :: "string list \<Rightarrow> bytes" where
  "enc_strings vs = be32 (word_of_nat (length vs)) @ concat (map enc_bytes vs)"

interpretation u32_code: prefix_code "\<lambda>_. True" be32
  by unfold_locales simp

interpretation bytes_code: prefix_code short enc_bytes
proof
  fix x y r s :: bytes
  assume "short x" "short y" "enc_bytes x @ r = enc_bytes y @ s"
  then show "x = y \<and> r = s"
    by (auto simp: enc_bytes_def short_def word_of_nat_inject)
qed

interpretation node_code: prefix_code_pair short enc_bytes short enc_bytes ..

interpretation shard_code: prefix_code_pair "\<lambda>_. True" be32 short enc_bytes ..

definition short_strings :: "string list \<Rightarrow> bool" where
  "short_strings vs \<longleftrightarrow> short vs \<and> list_all short vs"

interpretation strings_code: prefix_code short_strings enc_strings
proof
  fix x y r s
  assume ok: "short_strings x" "short_strings y" and eq: "enc_strings x @ r = enc_strings y @ s"
  then have "length x = length y" "concat (map enc_bytes x) @ r = concat (map enc_bytes y) @ s"
    by (auto simp: enc_strings_def short_strings_def short_def word_of_nat_inject)
  then show "x = y \<and> r = s"
    using bytes_code.cancel_list ok by (simp add: short_strings_def)
qed

definition enc_owners :: "ShardOwners \<Rightarrow> bytes" where
  "enc_owners o' = enc_bytes (Primary o') @ enc_strings (Replicas o')"

definition short_owners :: "ShardOwners \<Rightarrow> bool" where
  "short_owners o' \<longleftrightarrow> short (Primary o') \<and> short_strings (Replicas o')"

interpretation owners_pair: prefix_code_pair short enc_bytes short_strings enc_strings ..

interpretation owners_code: prefix_code short_owners enc_owners
proof
  fix x y r s
  assume "short_owners x" "short_owners y" "enc_owners x @ r = enc_owners y @ s"
  then show "x = y \<and> r = s"
    using owners_pair.cancel_pair [of "Primary x" "Replicas x" "Primary y" "Replicas y" r s]
    by (auto simp: short_owners_def enc_owners_def intro: ShardOwners.expand)
qed

interpretation entry_code: prefix_code_pair "\<lambda>_. True" be32 short_owners enc_owners ..

text \<open>The entries of a map in the order of the \<^verbatim>\<open>uint32\<close> loop.\<close>

definition shard_entries :: "u32 \<Rightarrow> (u32, 'v) fmap \<Rightarrow> (u32 \<times> 'v) list" where
  "shard_entries n m = List.map_filter (\<lambda>s. map_option (Pair s) (fmlookup m s)) (upto_u32 n)"

definition node_entries :: "(string, string) fmap \<Rightarrow> (string \<times> string) list" where
  "node_entries m = map (\<lambda>nid. (nid, fmget m nid)) (sorted_list_of_fset (fmdom m))"

lemma fold_shards:
  "fold (\<lambda>s h. case fmlookup m s of None \<Rightarrow> h | Some v \<Rightarrow> h @ g s v) ss h =
     h @ concat (map (\<lambda>(s, v). g s v) (List.map_filter (\<lambda>s. map_option (Pair s) (fmlookup m s)) ss))"
  by (induction ss arbitrary: h) (auto simp: List.map_filter_simps split: option.splits)

lemma writes: "writeUint32 v h = h @ be32 v" "writeBytes b h = h @ enc_bytes b"
  by (simp_all add: writeUint32_def writeBytes_def enc_bytes_def)

lemma fingerprint_stream_eq:
  "fingerprint_stream inp =
     domain_tag @ be32 (fiShardCount inp) @ be32 (fiReplicationFactor inp)
     @ be32 (word_of_nat (length (node_entries (fiNodes inp))))
     @ concat (map (\<lambda>(a, b). enc_bytes a @ enc_bytes b) (node_entries (fiNodes inp)))
     @ be32 (word_of_nat (fmlen (fiShardMap inp)))
     @ concat (map (\<lambda>(s, v). be32 s @ enc_bytes v) (shard_entries (fiShardCount inp) (fiShardMap inp)))
     @ be32 (word_of_nat (fmlen (fiOwners inp)))
     @ concat (map (\<lambda>(s, v). be32 s @ enc_owners v) (shard_entries (fiShardCount inp) (fiOwners inp)))"
proof -
  have wb: "writeBytes = (\<lambda>x h. h @ enc_bytes x)"
    by (intro ext) (simp add: writes)
  have "fold writeBytes vs h = h @ concat (map enc_bytes vs)" for vs h
    unfolding wb by (rule fold_concat_map)
  then have owners: "(case x of None \<Rightarrow> h
        | Some owners \<Rightarrow> fold writeBytes (Replicas owners) (writeUint32 (word_of_nat (length (Replicas owners)))
            (writeBytes (Primary owners) (writeUint32 shard h)))) =
      (case x of None \<Rightarrow> h | Some v \<Rightarrow> h @ be32 shard @ enc_owners v)" for x shard h
    by (simp add: writes enc_owners_def enc_strings_def split: option.split)
  have nodes: "fold (\<lambda>nid h. writeBytes (fmget m nid) (writeBytes nid h)) ids h =
      h @ concat (map (\<lambda>(a, b). enc_bytes a @ enc_bytes b) (map (\<lambda>nid. (nid, fmget m nid)) ids))" for m ids h
    using fold_concat_map [of "\<lambda>nid. enc_bytes nid @ enc_bytes (fmget m nid)" ids h] by (simp add: writes comp_def)
  have shards: "(case x of None \<Rightarrow> h | Some owner \<Rightarrow> writeBytes owner (writeUint32 shard h)) =
      (case x of None \<Rightarrow> h | Some v \<Rightarrow> h @ be32 shard @ enc_bytes v)" for x shard h
    by (simp add: writes split: option.split)
  show ?thesis
    unfolding fingerprint_stream_def Let_def loop_simps owners shards nodes fold_shards
    by (simp add: writes node_entries_def shard_entries_def)
qed

text \<open>Sizes a Go program can hold, and maps whose shards are below the count.\<close>

definition below :: "u32 \<Rightarrow> (u32, 'v) fmap \<Rightarrow> bool" where
  "below n m \<longleftrightarrow> (\<forall>s v. fmlookup m s = Some v \<longrightarrow> s < n)"

definition fingerprint_ok :: "FingerprintInput \<Rightarrow> bool" where
  "fingerprint_ok inp \<longleftrightarrow> below (fiShardCount inp) (fiShardMap inp) \<and> below (fiShardCount inp) (fiOwners inp) \<and>
     fmlen (fiNodes inp) < 2 ^ 32 \<and>
     (\<forall>k v. fmlookup (fiNodes inp) k = Some v \<longrightarrow> short k \<and> short v) \<and>
     (\<forall>s v. fmlookup (fiShardMap inp) s = Some v \<longrightarrow> short v) \<and>
     (\<forall>s v. fmlookup (fiOwners inp) s = Some v \<longrightarrow> short_owners v)"

lemma set_shard_entries: "set (shard_entries n m) = {(s, v). s < n \<and> fmlookup m s = Some v}"
  by (force simp: shard_entries_def List.map_filter_def)

lemma keys_shard_entries: "map fst (shard_entries n m) = filter (\<lambda>s. fmlookup m s \<noteq> None) (upto_u32 n)"
proof -
  have "map fst (List.map_filter (\<lambda>s. map_option (Pair s) (fmlookup m s)) ss) = filter (\<lambda>s. fmlookup m s \<noteq> None) ss" for ss
    by (induction ss) (auto simp: List.map_filter_simps split: option.splits)
  then show ?thesis
    by (simp add: shard_entries_def)
qed

lemma length_shard_entries:
  assumes "below n m"
  shows "length (shard_entries n m) = fmlen m"
proof -
  have "distinct (map fst (shard_entries n m))"
    by (simp add: keys_shard_entries)
  moreover have "set (map fst (shard_entries n m)) = fmdom' m"
    using assms by (force simp: set_shard_entries below_def fmdom'_by_lookup)
  ultimately show ?thesis
    unfolding fmlen_card by (metis distinct_card length_map)
qed

lemma shard_entries_determine:
  assumes "below n m" and "below n m'" and "shard_entries n m = shard_entries n m'"
  shows "m = m'"
proof (rule fmap_eqI)
  fix s v
  have "s < n \<and> fmlookup m s = Some v \<longleftrightarrow> s < n \<and> fmlookup m' s = Some v"
    using arg_cong [OF assms(3), of "\<lambda>es. (s, v) \<in> set es"] by (simp add: set_shard_entries)
  then show "fmlookup m s = Some v \<longleftrightarrow> fmlookup m' s = Some v"
    using assms(1,2) by (auto simp: below_def)
qed

lemma set_node_entries: "set (node_entries m) = {(k, v). fmlookup m k = Some v}"
  by (auto simp: node_entries_def fmget_def fmdom'_alt_def [symmetric] fmlookup_dom'_iff image_iff split: option.splits)

lemma length_node_entries [simp]: "length (node_entries m) = fmlen m"
  by (simp add: node_entries_def fmlen_def sorted_list_of_fset.rep_eq fcard.rep_eq)

lemma node_entries_determine:
  assumes "node_entries m = node_entries m'"
  shows "m = m'"
proof (rule fmap_eqI)
  show "fmlookup m k = Some v \<longleftrightarrow> fmlookup m' k = Some v" for k v
    using arg_cong [OF assms, of "\<lambda>es. (k, v) \<in> set es"] by (simp add: set_node_entries)
qed

lemma fmlen_below:
  assumes "below n m"
  shows "fmlen m < 2 ^ 32"
proof -
  have "length (shard_entries n m) \<le> length (upto_u32 n)"
    using arg_cong [OF keys_shard_entries [of n m], of length] by (simp add: le_trans [OF length_filter_le])
  then show ?thesis
    using length_shard_entries [OF assms] unsigned_less [of n, where ?'a = nat] by simp
qed

lemma fingerprint_stream_inject:
  assumes "fingerprint_ok x" and "fingerprint_ok y" and "fingerprint_stream x = fingerprint_stream y"
  shows "x = y"
proof -
  let ?N = "\<lambda>i. node_entries (fiNodes i)"
  let ?S = "\<lambda>i. shard_entries (fiShardCount i) (fiShardMap i)"
  let ?O = "\<lambda>i. shard_entries (fiShardCount i) (fiOwners i)"
  note ok = assms(1,2) [unfolded fingerprint_ok_def]
  note eq = assms(3) [unfolded fingerprint_stream_eq]
  have head: "fiShardCount x = fiShardCount y" "fiReplicationFactor x = fiReplicationFactor y"
    and n: "length (?N x) = length (?N y)"
    using eq ok by (simp_all add: word_of_nat_inject)
  have all: "list_all (\<lambda>(a, b). short a \<and> short b) (?N i)" "list_all (\<lambda>(a, b). True \<and> short b) (?S i)"
      "list_all (\<lambda>(a, b). True \<and> short_owners b) (?O i)" if "i = x \<or> i = y" for i
    using ok that by (auto simp: list_all_iff set_node_entries set_shard_entries)
  let ?rest = "\<lambda>i. be32 (word_of_nat (fmlen (fiShardMap i)))
     @ concat (map (\<lambda>(s, v). be32 s @ enc_bytes v) (?S i)) @ be32 (word_of_nat (fmlen (fiOwners i)))
     @ concat (map (\<lambda>(s, v). be32 s @ enc_owners v) (?O i))"
  have "?N x = ?N y \<and> ?rest x = ?rest y"
    by (rule node_code.pair.cancel_list [OF n]) (use all eq head n in simp_all)
  then have nodes: "fiNodes x = fiNodes y" and rest: "?rest x = ?rest y"
    using node_entries_determine by auto
  have len: "fmlen (fiShardMap i) < 2 ^ 32" "fmlen (fiOwners i) < 2 ^ 32" if "i = x \<or> i = y" for i
    using ok that fmlen_below by blast+
  from len [of x] len [of y] have s: "length (?S x) = length (?S y)"
    using rest ok by (simp add: word_of_nat_inject length_shard_entries)
  let ?rest' = "\<lambda>i. be32 (word_of_nat (fmlen (fiOwners i))) @ concat (map (\<lambda>(s, v). be32 s @ enc_owners v) (?O i))"
  have "?S x = ?S y \<and> ?rest' x = ?rest' y"
    by (rule shard_code.pair.cancel_list [OF s]) (use all rest in simp_all)
  then have shards: "fiShardMap x = fiShardMap y" and rest': "?rest' x = ?rest' y"
    using shard_entries_determine ok head(1) by auto
  have o: "length (?O x) = length (?O y)"
    using rest' ok len [of x] len [of y] by (simp add: word_of_nat_inject length_shard_entries)
  have "?O x = ?O y \<and> [] = ([] :: bytes)"
    by (rule entry_code.pair.cancel_list [OF o]) (use all rest' in simp_all)
  then have "fiOwners x = fiOwners y"
    using shard_entries_determine ok head(1) by auto
  with head nodes shards show ?thesis
    by simp
qed

text \<open>
  C13: the bytes the fingerprint hashes determine the topology: two inputs of sizes a Go program
  can hold, whose maps have no shard outside the count, have the same stream only if every
  field agrees.
\<close>

theorem fingerprint_stream_faithful:
  assumes "fingerprint_ok x" and "fingerprint_ok y"
  shows "fingerprint_stream x = fingerprint_stream y \<longleftrightarrow> x = y"
  using fingerprint_stream_inject [OF assms] by blast

definition sample_input :: "string \<Rightarrow> string list \<Rightarrow> FingerprintInput" where
  "sample_input p rs =
     \<lparr>fiShardCount = 1, fiReplicationFactor = 1, fiNodes = fmupd ''n2'' ''h:2'' (fmupd ''n1'' ''h:1'' fmempty),
      fiShardMap = fmupd 0 p fmempty, fiOwners = fmupd 0 (ShardOwners p rs) fmempty\<rparr>"

theorem fingerprint_stream_faithful_witness:
  "fingerprint_ok (sample_input ''n1'' [''n2'']) \<and> fingerprint_ok (sample_input ''n2'' [''n1'']) \<and>
   fingerprint_stream (sample_input ''n1'' [''n2'']) \<noteq> fingerprint_stream (sample_input ''n2'' [''n1''])"
proof -
  have ok: "fingerprint_ok (sample_input ''n1'' [''n2''])" "fingerprint_ok (sample_input ''n2'' [''n1''])"
    by (auto simp: sample_input_def fingerprint_ok_def below_def short_def short_owners_def short_strings_def fmlen_upd)
  moreover have "sample_input ''n1'' [''n2''] \<noteq> sample_input ''n2'' [''n1'']"
    by (auto simp: sample_input_def dest: arg_cong [of _ _ "\<lambda>m. fmlookup m 0"])
  ultimately show ?thesis
    using fingerprint_stream_faithful [OF ok] by blast
qed

subsection \<open>What validate accepts\<close>

definition nodes_ok :: "NodeInfo option list \<Rightarrow> bool" where
  "nodes_ok nodes \<longleftrightarrow> None \<notin> set nodes \<and>
     (\<forall>n. Some n \<in> set nodes \<longrightarrow> niNodeId n \<noteq> [] \<and> niAddress n \<noteq> []) \<and>
     distinct (map (niNodeId \<circ> the) nodes) \<and> distinct (map (niAddress \<circ> the) nodes)"

definition node_map :: "NodeInfo option list \<Rightarrow> (string, string) fmap" where
  "node_map nodes = fold (\<lambda>n. fmupd (niNodeId (the n)) (niAddress (the n))) nodes fmempty"

definition address_map :: "NodeInfo option list \<Rightarrow> (string, string) fmap" where
  "address_map nodes = fold (\<lambda>n. fmupd (niAddress (the n)) (niNodeId (the n))) nodes fmempty"

lemma node_map_snoc [simp]:
  "node_map (ns @ [n]) = fmupd (niNodeId (the n)) (niAddress (the n)) (node_map ns)"
  "address_map (ns @ [n]) = fmupd (niAddress (the n)) (niNodeId (the n)) (address_map ns)"
  by (simp_all add: node_map_def address_map_def)

lemma node_map_dom:
  "fmlookup (node_map ns) k = None \<longleftrightarrow> k \<notin> niNodeId ` the ` set ns"
  "fmlookup (address_map ns) k = None \<longleftrightarrow> k \<notin> niAddress ` the ` set ns"
  by (induction ns rule: rev_induct) (auto simp: node_map_def address_map_def)

lemma check_node_ok:
  "check_node n (byID, byAddress) = Inr st \<longleftrightarrow>
     n \<noteq> None \<and> niNodeId (the n) \<noteq> [] \<and> niAddress (the n) \<noteq> [] \<and>
     fmlookup byID (niNodeId (the n)) = None \<and> fmlookup byAddress (niAddress (the n)) = None \<and>
     st = (fmupd (niNodeId (the n)) (niAddress (the n)) byID, fmupd (niAddress (the n)) (niNodeId (the n)) byAddress)"
  by (auto simp: check_node_def split: option.splits)

lemma nodes_ok_snoc:
  "nodes_ok (ns @ [n]) \<longleftrightarrow> nodes_ok ns \<and> n \<noteq> None \<and> niNodeId (the n) \<noteq> [] \<and> niAddress (the n) \<noteq> [] \<and>
     fmlookup (node_map ns) (niNodeId (the n)) = None \<and> fmlookup (address_map ns) (niAddress (the n)) = None"
  by (auto simp: nodes_ok_def node_map_dom image_image)

lemma check_nodes:
  "foldE check_node ns (fmempty, fmempty) = Inr st \<longleftrightarrow> nodes_ok ns \<and> st = (node_map ns, address_map ns)"
proof (induction ns arbitrary: st rule: rev_induct)
  case Nil
  then show ?case
    by (auto simp: nodes_ok_def node_map_def address_map_def)
next
  case (snoc n ns)
  then show ?case
    by (auto simp: foldE_snoc nodes_ok_snoc check_node_ok)
qed

lemma check_replicas:
  "foldE (check_replica byID s) rs ([p], []) = Inr st \<longleftrightarrow>
     (\<forall>r \<in> set rs. fmlookup byID r \<noteq> None) \<and> distinct (p # rs) \<and> st = (rev rs @ [p], rs)"
  by (induction rs arbitrary: st rule: rev_induct) (auto simp: foldE_snoc check_replica_def split: if_splits)

lemma fmlen_node_map_le: "fmlen (node_map ns) \<le> length ns"
  by (induction ns rule: rev_induct) (auto simp: node_map_def fmlen_upd)

lemma distinct_in_dom:
  assumes "distinct ks" and "\<forall>k \<in> set ks. fmlookup m k \<noteq> None"
  shows "length ks \<le> fmlen m"
proof -
  have "set ks \<subseteq> fmdom' m"
    using assms(2) by (auto simp: fmdom'_by_lookup)
  then show ?thesis
    unfolding fmlen_card distinct_card [OF assms(1), symmetric] by (intro card_mono) simp_all
qed

definition replicas_ok :: "(string, string) fmap \<Rightarrow> ShardOwners \<Rightarrow> bool" where
  "replicas_ok nodes o' \<longleftrightarrow> (\<forall>r \<in> set (Replicas o'). fmlookup nodes r \<noteq> None) \<and> distinct (Primary o' # Replicas o')"

definition shard_ok ::
    "(string, string) fmap \<Rightarrow> (u32, string) fmap \<Rightarrow> (u32, ShardOwners option) fmap \<Rightarrow> u32 \<Rightarrow> bool" where
  "shard_ok nodes shardMap ownerMap s \<longleftrightarrow>
     (\<exists>p. fmlookup shardMap s = Some p \<and> fmlookup nodes p \<noteq> None \<and>
       (ownerMap = fmempty \<or>
        (\<exists>o'. fmlookup ownerMap s = Some (Some o') \<and> Primary o' = p \<and> replicas_ok nodes o')))"

definition add_shard ::
    "(u32, string) fmap \<Rightarrow> (u32, ShardOwners option) fmap \<Rightarrow> u32
       \<Rightarrow> (u32, string) fmap \<times> (u32, ShardOwners) fmap \<Rightarrow> (u32, string) fmap \<times> (u32, ShardOwners) fmap" where
  "add_shard shardMap ownerMap s = (\<lambda>(shards, owners).
     (fmupd s (fmget shardMap s) shards,
      if ownerMap = fmempty then owners else fmupd s (the (the (fmlookup ownerMap s))) owners))"

lemma replicas_fit:
  assumes "replicas_ok nodes o'" and "fmlookup nodes (Primary o') \<noteq> None" and "fmlen nodes < 2 ^ 32"
  shows "\<not> (word_of_nat (length (Replicas o')) :: u32) > word_of_nat (fmlen nodes)"
proof -
  have "length (Replicas o') < fmlen nodes"
    using distinct_in_dom [of "Primary o' # Replicas o'" nodes] assms(1,2) by (simp add: replicas_ok_def Suc_le_eq)
  then show ?thesis
    using assms(3) by (simp add: word_less_nat_alt unat_of_nat)
qed

lemma check_shard_ok:
  assumes "fmlen nodes < 2 ^ 32"
  shows "check_shard nodes shardMap ownerMap (fmlen ownerMap \<noteq> 0) s st = Inr st' \<longleftrightarrow>
     shard_ok nodes shardMap ownerMap s \<and> st' = add_shard shardMap ownerMap s st"
proof (cases "fmlookup shardMap s")
  case None
  then show ?thesis
    by (cases st) (simp add: check_shard_def shard_ok_def)
next
  case (Some p)
  show ?thesis
  proof (cases "ownerMap = fmempty \<or> fmlookup nodes p = None")
    case True
    with Some show ?thesis
      by (cases st) (auto simp: check_shard_def shard_ok_def add_shard_def fmget_def)
  next
    case False
    show ?thesis
    proof (cases "\<exists>o'. fmlookup ownerMap s = Some (Some o') \<and> Primary o' = p \<and> replicas_ok nodes o'")
      case True
      then obtain o' where o: "fmlookup ownerMap s = Some (Some o')" "Primary o' = p" "replicas_ok nodes o'"
        by blast
      have "foldE (check_replica nodes s) (Replicas o') ([p], []) = Inr (rev (Replicas o') @ [p], Replicas o')"
        using o by (simp add: check_replicas replicas_ok_def)
      moreover have "o' = ShardOwners p (Replicas o')"
        using o(2) by (cases o') simp
      ultimately show ?thesis
        using Some False o replicas_fit [OF o(3) _ assms]
        by (cases st) (auto simp: check_shard_def shard_ok_def add_shard_def fmget_def)
    next
      case no: False
      have "foldE (check_replica nodes s) (Replicas o') ([p], []) \<noteq> Inr r"
        if "fmlookup ownerMap s = Some (Some o')" "Primary o' = p" for o' r
        using no that by (auto simp: check_replicas replicas_ok_def)
      then show ?thesis
        using Some False no
        by (cases st) (auto simp: check_shard_def shard_ok_def split: option.splits sum.splits)
    qed
  qed
qed

lemma fmlen_le_u32: "fmlen (m :: (u32, 'v) fmap) \<le> 2 ^ 32"
  unfolding fmlen_card using card_mono [of "UNIV :: u32 set" "fmdom' m"] by (simp add: card_word)

lemma full_below:
  fixes m :: "(u32, 'v) fmap"
  assumes "word_of_nat (fmlen m) = n" and "n \<noteq> 0" and "\<And>s. s < n \<Longrightarrow> fmlookup m s \<noteq> None"
  shows "fmlookup m s \<noteq> None \<longleftrightarrow> s < n"
proof -
  have "fmlen m < 2 ^ 32"
    using fmlen_le_u32 [of m] assms(1,2) by (cases "fmlen m = 2 ^ 32") auto
  then have "fmlen m = unat n"
    using assms(1) by (auto simp: unat_of_nat)
  then have "card (set (upto_u32 n)) = card (fmdom' m)"
    by (simp only: distinct_card [OF distinct_upto_u32] length_upto_u32 fmlen_card)
  moreover have "set (upto_u32 n) \<subseteq> fmdom' m"
    using assms(3) by (auto simp: fmdom'_by_lookup)
  ultimately have "set (upto_u32 n) = fmdom' m"
    by (intro card_subset_eq) simp_all
  then show ?thesis
    by (auto simp: fmdom'_by_lookup set_eq_iff)
qed

lemma add_shards:
  "fold (add_shard sm om) ss (a, b) =
     (fold (\<lambda>s. fmupd s (fmget sm s)) ss a,
      if om = fmempty then b else fold (\<lambda>s. fmupd s (the (the (fmlookup om s)))) ss b)"
  by (induction ss arbitrary: a b) (simp_all add: add_shard_def)

lemma fold_fmupd_full:
  assumes "\<And>s. fmlookup m s \<noteq> None \<longleftrightarrow> s < n" and "\<And>s v. fmlookup m s = Some v \<Longrightarrow> g s = h v"
  shows "fold (\<lambda>s. fmupd s (g s)) (upto_u32 n) fmempty = fmmap h m"
proof (rule fmap_ext)
  fix s
  show "fmlookup (fold (\<lambda>s. fmupd s (g s)) (upto_u32 n) fmempty) s = fmlookup (fmmap h m) s"
    using assms [of s] by (cases "fmlookup m s") (auto simp: fold_fmupd_lookup)
qed

definition responses_ok ::
    "u32 \<Rightarrow> NodeInfo option list \<Rightarrow> (u32, string) fmap \<Rightarrow> (u32, ShardOwners option) fmap \<Rightarrow> bool" where
  "responses_ok n nodes sm om \<longleftrightarrow> n \<noteq> 0 \<and> nodes_ok nodes \<and>
     (if nodes = [] then sm = fmempty \<and> om = fmempty
      else (\<forall>s. fmlookup sm s \<noteq> None \<longleftrightarrow> s < n) \<and>
        (om = fmempty \<or> (\<forall>s. fmlookup om s \<noteq> None \<longleftrightarrow> s < n)) \<and>
        list_all (shard_ok (node_map nodes) sm om) (upto_u32 n))"

definition accepted ::
    "u64 \<Rightarrow> u32 \<Rightarrow> NodeInfo option list \<Rightarrow> (u32, string) fmap \<Rightarrow> (u32, ShardOwners option) fmap \<Rightarrow> u32 \<Rightarrow> Topology" where
  "accepted generation n nodes sm om rf =
     \<lparr>tGeneration = generation, tFingerprint = [], tShardCount = n, tShardMap = sm, tNodes = node_map nodes,
      tOwners = fmmap the om, tReplicationFactor = rf, tRaftLeaderID = [], tRaftTerm = 0\<rparr>"

lemma validate_shards:
  assumes "n \<noteq> 0" and "length nodes < 2 ^ 32" and "nodes \<noteq> []"
  shows "word_of_nat (fmlen sm) = n \<and> (om = fmempty \<or> word_of_nat (fmlen om) = n) \<and>
      for_u32E (check_shard (node_map nodes) sm om (fmlen om \<noteq> 0)) 0 n (fmempty, fmempty) = Inr st \<longleftrightarrow>
    (\<forall>s. fmlookup sm s \<noteq> None \<longleftrightarrow> s < n) \<and> (om = fmempty \<or> (\<forall>s. fmlookup om s \<noteq> None \<longleftrightarrow> s < n)) \<and>
      list_all (shard_ok (node_map nodes) sm om) (upto_u32 n) \<and> st = (sm, fmmap the om)"
    (is "?L \<longleftrightarrow> ?R")
proof -
  have loop: "for_u32E (check_shard (node_map nodes) sm om (fmlen om \<noteq> 0)) 0 n (fmempty, fmempty) = Inr st \<longleftrightarrow>
      list_all (shard_ok (node_map nodes) sm om) (upto_u32 n) \<and> st = fold (add_shard sm om) (upto_u32 n) (fmempty, fmempty)"
    unfolding for_u32E_foldE
    using le_less_trans [OF fmlen_node_map_le assms(2)] by (intro foldE_iff check_shard_ok)
  have result: "fold (add_shard sm om) (upto_u32 n) (fmempty, fmempty) = (sm, fmmap the om)"
    if "\<forall>s. fmlookup sm s \<noteq> None \<longleftrightarrow> s < n" "om = fmempty \<or> (\<forall>s. fmlookup om s \<noteq> None \<longleftrightarrow> s < n)"
    using fold_fmupd_full [of sm n "fmget sm" "\<lambda>v. v"] fold_fmupd_full [of om n "\<lambda>s. the (the (fmlookup om s))" the] that
    by (auto simp: add_shards fmget_def fmmap_ident)
  show ?thesis
  proof
    assume L: ?L
    then have "list_all (shard_ok (node_map nodes) sm om) (upto_u32 n)"
      using loop by blast
    then have all: "s < n \<Longrightarrow> shard_ok (node_map nodes) sm om s" for s
      by (simp add: list_all_iff)
    have "\<forall>s. fmlookup sm s \<noteq> None \<longleftrightarrow> s < n"
      by (intro allI full_below assms(1)) (use L all in \<open>auto simp: shard_ok_def\<close>)
    moreover have "\<forall>s. fmlookup om s \<noteq> None \<longleftrightarrow> s < n" if "om \<noteq> fmempty"
      by (intro allI full_below assms(1)) (use L all that in \<open>auto simp: shard_ok_def\<close>)
    ultimately show ?R
      using L result loop by blast
  next
    assume R: ?R
    then have "word_of_nat (fmlen sm) = n" "om = fmempty \<or> word_of_nat (fmlen om) = n"
      using fmlen_upto [of sm n] fmlen_upto [of om n] by auto
    then show ?L
      unfolding loop using R result by simp
  qed
qed

lemma validate_exact:
  assumes "length nodes < 2 ^ 32"
  shows "validate generation n nodes sm om rf = Inr t \<longleftrightarrow>
     responses_ok n nodes sm om \<and> t = accepted generation n nodes sm om rf"
proof (cases "n = 0 \<or> \<not> nodes_ok nodes")
  case True
  then show ?thesis
    using check_nodes [of nodes] by (auto simp: validate_def responses_ok_def split: sum.splits)
next
  case False
  then have fold: "foldE check_node nodes (fmempty, fmempty) = Inr (node_map nodes, address_map nodes)"
    by (simp add: check_nodes)
  show ?thesis
  proof (cases "nodes = []")
    case True
    then show ?thesis
      using False fold by (auto simp: validate_def responses_ok_def accepted_def empty_topology_def)
  next
    case nonempty: False
    have "validate generation n nodes sm om rf = Inr t \<longleftrightarrow>
        (\<exists>st. fmlen sm \<le> 2 ^ 32 - 1 \<and> word_of_nat (fmlen sm) = n \<and> (om = fmempty \<or> word_of_nat (fmlen om) = n) \<and>
          for_u32E (check_shard (node_map nodes) sm om (fmlen om \<noteq> 0)) 0 n (fmempty, fmempty) = Inr st \<and>
          t = empty_topology\<lparr>tGeneration := generation, tShardCount := n, tShardMap := fst st, tNodes := node_map nodes,
                tOwners := snd st, tReplicationFactor := rf\<rparr>)"
      using False nonempty fold by (auto simp: validate_def split: sum.splits)
    also have "\<dots> \<longleftrightarrow> (\<forall>s. fmlookup sm s \<noteq> None \<longleftrightarrow> s < n) \<and> (om = fmempty \<or> (\<forall>s. fmlookup om s \<noteq> None \<longleftrightarrow> s < n)) \<and>
        list_all (shard_ok (node_map nodes) sm om) (upto_u32 n) \<and> t = accepted generation n nodes sm om rf"
      (is "?A \<longleftrightarrow> ?B")
    proof
      assume ?A
      then show ?B
        using validate_shards [OF _ assms nonempty, of n sm om] False
        by (auto simp: accepted_def empty_topology_def simp del: fmlen_eq_0)
    next
      assume B: ?B
      then have "fmlen sm \<le> 2 ^ 32 - 1"
        using fmlen_upto [of sm n] unsigned_less [of n, where ?'a = nat] by simp
      with B show ?A
        using validate_shards [OF _ assms nonempty, of n sm om "(sm, fmmap the om)"] False
        by (intro exI [of _ "(sm, fmmap the om)"]) (simp add: accepted_def empty_topology_def del: fmlen_eq_0)
    qed
    finally show ?thesis
      using False nonempty by (simp add: responses_ok_def)
  qed
qed
text \<open>
  C14: \<open>validate\<close> accepts exactly the well-formed pairs of responses (a positive shard
  count, complete nodes with distinct identifiers and addresses, every shard below the count
  owned by a known node, owner entries that agree with the shard map and name known, distinct
  replicas), and what it returns is their content.
\<close>

theorem validate_iff:
  assumes "length nodes < 2 ^ 32"
  shows "validate generation n nodes sm om rf = Inr t \<longleftrightarrow>
     responses_ok n nodes sm om \<and> t = accepted generation n nodes sm om rf"
  by (rule validate_exact [OF assms])

definition sample_nodes :: "NodeInfo option list" where
  "sample_nodes = [Some \<lparr>niNodeId = ''n1'', niAddress = ''h:1'', niAlive = True\<rparr>,
                   Some \<lparr>niNodeId = ''n2'', niAddress = ''h:2'', niAlive = True\<rparr>]"

definition sample_shards :: "(u32, string) fmap" where
  "sample_shards = fmupd 1 ''n2'' (fmupd 0 ''n1'' fmempty)"

definition sample_owners :: "(u32, ShardOwners option) fmap" where
  "sample_owners = fmupd 1 (Some (ShardOwners ''n2'' [])) (fmupd 0 (Some (ShardOwners ''n1'' [''n2''])) fmempty)"

lemma word_less_2: "s < 2 \<longleftrightarrow> s = 0 \<or> s = 1" for s :: u32
  using set_upto_u32 [of 2] by (auto simp: upto_u32_def upt_conv_Cons)

lemma sample_responses_ok: "responses_ok 2 sample_nodes sample_shards sample_owners"
proof -
  have "fmlookup sample_shards s \<noteq> None \<longleftrightarrow> s < 2" "fmlookup sample_owners s \<noteq> None \<longleftrightarrow> s < 2" for s
    by (auto simp: sample_shards_def sample_owners_def word_less_2)
  moreover have "upto_u32 2 = [0, 1]"
    by (simp add: upto_u32_def upt_conv_Cons)
  moreover have "nodes_ok sample_nodes"
    by (auto simp: sample_nodes_def nodes_ok_def)
  ultimately show ?thesis
    by (simp add: responses_ok_def shard_ok_def replicas_ok_def sample_shards_def sample_owners_def sample_nodes_def
      node_map_def)
qed

theorem validate_iff_witness:
  "length sample_nodes < 2 ^ 32 \<and>
   validate 7 2 sample_nodes sample_shards sample_owners 1 = Inr (accepted 7 2 sample_nodes sample_shards sample_owners 1)"
  using validate_iff [of sample_nodes 7 2 sample_shards sample_owners 1] sample_responses_ok
  by (simp add: sample_nodes_def)

subsection \<open>Fetch\<close>

lemma fetch_loop_find:
  "fetch_loop n attempts k gens =
     (case find (\<lambda>j. fetch_attempt (attempts j) \<noteq> None) [k..<k + n] of
        Some j \<Rightarrow> the (fetch_attempt (attempts j))
      | None \<Rightarrow> (let g = fold (\<lambda>j. attempt_generations (attempts j)) [k..<k + n] gens in Inl (NotConverged (fst g) (snd g))))"
proof (induction n arbitrary: k gens)
  case (Suc n)
  have "[k..<k + Suc n] = k # [Suc k..<Suc k + n]"
    by (simp add: upt_conv_Cons del: upt_Suc)
  then show ?case
    using Suc by (cases "fetch_attempt (attempts k)") (simp_all add: Let_def del: upt_Suc split: option.split)
qed simp

text \<open>
  \<open>Fetch\<close> makes at most eight attempts and returns the outcome of the first one that is
  decisive; when none is, it reports the generations of the last pair of responses.
\<close>

theorem Fetch_first:
  "Fetch attempts =
     (case find (\<lambda>k. fetch_attempt (attempts k) \<noteq> None) [1..<9] of
        Some k \<Rightarrow> the (fetch_attempt (attempts k))
      | None \<Rightarrow> (let g = fold (\<lambda>k. attempt_generations (attempts k)) [1..<9] (0, 0)
                 in Inl (NotConverged (fst g) (snd g))))"
  by (simp add: Fetch_def fetch_loop_find maxCoherenceAttempts_def Let_def del: upt_Suc split: option.split)

text \<open>The two responses of an attempt describe the topology that is returned.\<close>

definition coherent :: "GetNodeListResponse \<Rightarrow> GetShardMapResponse \<Rightarrow> Topology \<Rightarrow> bool" where
  "coherent n s t \<longleftrightarrow>
     tGeneration t = smGeneration s \<and> tNodes t = node_map (nlNodes n) \<and> tShardMap t = smShardToNodeId s \<and>
     tOwners t = fmmap the (smShardToOwners s) \<and> tReplicationFactor t = smReplicationFactor s \<and>
     responses_ok (tShardCount t) (nlNodes n) (smShardToNodeId s) (smShardToOwners s) \<and>
     (if nlFingerprint n = [] \<and> smFingerprint s = []
      then tFingerprint t = [] \<and> nlGeneration n = smGeneration s
      else tShardCount t = smShardCount s \<and> length (tFingerprint t) = FingerprintSize \<and> nlFingerprint n = tFingerprint t \<and>
        smFingerprint s = tFingerprint t \<and> tFingerprint t = Fingerprint (topology_FingerprintInput t))"

lemma fetch_attempt_coherent:
  assumes "fetch_attempt a = Some (Inr t)" and "\<And>n. atNodes a = Inr n \<Longrightarrow> length (nlNodes n) < 2 ^ 32"
  obtains n s where "atNodes a = Inr n" "atShards a = Inr s" "coherent n s t"
proof -
  obtain n s where ns: "atContext a = None" "atNodes a = Inr n" "atShards a = Inr s"
    using assms(1) by (auto simp: fetch_attempt_def split: option.splits sum.splits)
  note v = validate_exact [OF assms(2) [OF ns(2)]]
  have "coherent n s t"
  proof (cases "nlFingerprint n = [] \<and> smFingerprint s = []")
    case True
    then show ?thesis
      using assms(1) ns
      by (auto simp: fetch_attempt_def coherent_def v accepted_def Let_def split: sum.splits if_splits)
  next
    case False
    then show ?thesis
      using assms(1) ns
      by (auto simp: fetch_attempt_def coherent_def v accepted_def Let_def FingerprintSize_def
        topology_FingerprintInput_def
        split: sum.splits if_splits)
  qed
  with ns that show thesis
    by blast
qed

lemma Fetch_decided:
  assumes "Fetch attempts = Inr t"
  obtains k where "1 \<le> k" "k \<le> 8" "fetch_attempt (attempts k) = Some (Inr t)"
    "\<And>j. 1 \<le> j \<Longrightarrow> j < k \<Longrightarrow> fetch_attempt (attempts j) = None"
proof -
  obtain k where k: "find (\<lambda>j. fetch_attempt (attempts j) \<noteq> None) [1..<9] = Some k" "the (fetch_attempt (attempts k)) = Inr t"
    using assms
    by (auto simp: Fetch_def fetch_loop_find maxCoherenceAttempts_def Let_def simp del: upt_Suc split: option.splits)
  then have "\<exists>i. i < 8 \<and> fetch_attempt (attempts (Suc i)) \<noteq> None \<and> k = Suc i \<and>
      (\<forall>j<i. fetch_attempt (attempts (Suc j)) = None)"
    by (auto simp: find_Some_iff simp del: upt_Suc)
  then obtain i where i: "i < 8" "fetch_attempt (attempts (Suc i)) \<noteq> None" "k = Suc i"
      "\<forall>j<i. fetch_attempt (attempts (Suc j)) = None"
    by blast
  show thesis
  proof (rule that [of k])
    show "fetch_attempt (attempts j) = None" if "1 \<le> j" "j < k" for j
      using i(3,4) that by (cases j) auto
  qed (use i k in auto)
qed

text \<open>
  C15: a topology \<open>Fetch\<close> returns is the content of the two responses of one attempt, the first
  decisive one, which describe the same topology: equal fingerprints that are the fingerprint
  of that content, or, where neither response has one, equal generations.
\<close>

theorem Fetch_coherent:
  assumes "Fetch attempts = Inr t"
    and "\<And>k n. atNodes (attempts k) = Inr n \<Longrightarrow> length (nlNodes n) < 2 ^ 32"
  shows "\<exists>k n s. 1 \<le> k \<and> k \<le> 8 \<and> atNodes (attempts k) = Inr n \<and> atShards (attempts k) = Inr s \<and> coherent n s t \<and>
    (\<forall>j. 1 \<le> j \<and> j < k \<longrightarrow> fetch_attempt (attempts j) = None)"
proof -
  obtain k where k: "1 \<le> k" "k \<le> 8" "fetch_attempt (attempts k) = Some (Inr t)"
    "\<And>j. 1 \<le> j \<Longrightarrow> j < k \<Longrightarrow> fetch_attempt (attempts j) = None"
    using Fetch_decided [OF assms(1)] by blast
  obtain n s where "atNodes (attempts k) = Inr n" "atShards (attempts k) = Inr s" "coherent n s t"
    using fetch_attempt_coherent [OF k(3)] assms(2) by blast
  with k show ?thesis
    by blast
qed

definition sample_fingerprint :: bytes where
  "sample_fingerprint = Fingerprint (topology_FingerprintInput (accepted 7 2 sample_nodes sample_shards sample_owners 1))"

definition sample_attempts :: "nat \<Rightarrow> unit attempt" where
  "sample_attempts k =
     \<lparr>atContext = None,
      atNodes = Inr \<lparr>nlNodes = sample_nodes, nlGeneration = of_nat k, nlFingerprint = if k < 3 then [] else sample_fingerprint\<rparr>,
      atShards = Inr \<lparr>smShardToNodeId = sample_shards, smGeneration = 7, smFingerprint = sample_fingerprint, smShardCount = 2,
        smShardToOwners = sample_owners, smReplicationFactor = 1, smRaftLeaderId = ''m1'', smRaftTerm = 3\<rparr>\<rparr>"

lemma sample_Fetch:
  "Fetch sample_attempts = Inr ((accepted 7 2 sample_nodes sample_shards sample_owners 1)
     \<lparr>tFingerprint := sample_fingerprint, tRaftLeaderID := ''m1'', tRaftTerm := 3\<rparr>)"
proof -
  have fp: "length sample_fingerprint = 32"
    by (simp add: sample_fingerprint_def Fingerprint_def)
  then have ne: "sample_fingerprint \<noteq> []"
    by auto
  have v: "validate 7 2 sample_nodes sample_shards sample_owners 1 = Inr (accepted 7 2 sample_nodes sample_shards sample_owners 1)"
    using validate_exact [of sample_nodes] sample_responses_ok by (simp add: sample_nodes_def)
  have "fetch_attempt (sample_attempts 1) = None" "fetch_attempt (sample_attempts 2) = None"
    using ne by (simp_all add: fetch_attempt_def sample_attempts_def)
  moreover have "fetch_attempt (sample_attempts 3) = Some (Inr ((accepted 7 2 sample_nodes sample_shards sample_owners 1)
     \<lparr>tFingerprint := sample_fingerprint, tRaftLeaderID := ''m1'', tRaftTerm := 3\<rparr>))"
    using ne fp v by (simp add: fetch_attempt_def sample_attempts_def FingerprintSize_def Let_def
      sample_fingerprint_def [symmetric])
  moreover have "[1..<9] = 1 # 2 # 3 # [4..<9]"
    by (simp add: upt_conv_Cons)
  ultimately show ?thesis
    by (simp add: Fetch_def fetch_loop_find maxCoherenceAttempts_def del: upt_Suc)
qed

theorem Fetch_coherent_witness:
  "\<exists>t k n s. Fetch sample_attempts = Inr t \<and> 1 \<le> k \<and> k \<le> 8 \<and> atNodes (sample_attempts k) = Inr n \<and>
     atShards (sample_attempts k) = Inr s \<and> coherent n s t \<and> tFingerprint t = sample_fingerprint"
  using Fetch_coherent [OF sample_Fetch] sample_Fetch by (auto simp: sample_attempts_def sample_nodes_def)

subsection \<open>Owner addresses\<close>

text \<open>
  \<open>OwnerAddresses\<close> lists, sorted and without repetition, exactly the non-empty addresses
  \<open>OwnsAddress\<close> answers for.
\<close>

theorem OwnerAddresses_complete:
  "sorted_wrt (<) (OwnerAddresses t) \<and> set (OwnerAddresses t) = {a. a \<noteq> [] \<and> OwnsAddress t a}"
proof -
  have "set (OwnerAddresses t) = {a. a \<noteq> [] \<and> OwnsAddress t a}"
    by (auto simp: OwnerAddresses_def OwnsAddress_def sorted_list_of_fset.rep_eq)
  moreover have "sorted_wrt (<) (OwnerAddresses t)"
    by (simp add: OwnerAddresses_def sorted_list_of_fset.rep_eq)
  ultimately show ?thesis
    by simp
qed

end
