(* ===== verification/Cluster_Config.thy ===== *)
theory Cluster_Config
  imports Go_Text
begin

text \<open>
  \<^verbatim>\<open>internal/config/config.go\<close>: the launch inventory, its defaults, warnings and validation.

  The YAML decoder is third-party code: \<open>Load\<close> and \<open>UnmarshalYAML\<close> take what it returned.
  \<^verbatim>\<open>errors.Join\<close> of the collected problems is the list of problems, the empty list being
  \<^verbatim>\<open>nil\<close>; a problem carries the place it names (\<open>place\<close>) and the values it reports.  Durations
  are 64-bit nanosecond counts, so the product with \<^verbatim>\<open>time.Millisecond\<close> wraps.

  The lemmas characterise \<open>Validate\<close> exactly and show that the default ports do not collide.
\<close>

subsection \<open>Constants\<close>

definition DefaultShardCount :: u32 where "DefaultShardCount = 256"
definition DefaultHost :: string where "DefaultHost = ''127.0.0.1''"
definition DefaultRAMBudgetBytes :: u64 where "DefaultRAMBudgetBytes = 256 * 1024 * 1024"
definition DefaultMaxValueBytes :: u64 where "DefaultMaxValueBytes = 64 * 1024 * 1024"
definition DefaultDataRoot :: string where "DefaultDataRoot = ''run/data''"
definition DefaultClusterName :: string where "DefaultClusterName = ''pulsekv-v2''"
definition DefaultControlPlanePortBase :: int where "DefaultControlPlanePortBase = 7000"
definition DefaultControlPlaneGossipPortBase :: int where "DefaultControlPlaneGossipPortBase = 7240"
definition DefaultControlPlaneRaftPortBase :: int where "DefaultControlPlaneRaftPortBase = 7300"
definition DefaultNodeGossipPortBase :: int where "DefaultNodeGossipPortBase = 7201"
definition MaxClusterNameBytes :: nat where "MaxClusterNameBytes = 255"
definition MaxNodeIDBytes :: nat where "MaxNodeIDBytes = 64"
definition DefaultRaftElectionTimeoutMillis :: int where "DefaultRaftElectionTimeoutMillis = 500"
definition DefaultRaftProposeIntervalMillis :: int where "DefaultRaftProposeIntervalMillis = 200"
definition DefaultRaftSnapshotThreshold :: u64 where "DefaultRaftSnapshotThreshold = 1024"
definition DefaultRaftDataDir :: string where "DefaultRaftDataDir = ''run/raft''"
definition DefaultReplicationFactor :: int where "DefaultReplicationFactor = 1"
definition MaxReplicationFactor :: int where "MaxReplicationFactor = 8"
definition EngineShards :: u64 where "EngineShards = 256"
definition UnaryValueLimitBytes :: u64 where "UnaryValueLimitBytes = 4 * 1024 * 1024"
definition maxPort :: int where "maxPort = 65535"

subsection \<open>Data\<close>

record ControlPlane =
  cpNodeID :: string
  cpHost :: string
  cpPort :: int
  cpGossipPort :: int
  cpRaftPort :: int

definition cp_Address :: "ControlPlane \<Rightarrow> string" where
  "cp_Address c = JoinHostPort (cpHost c) (Itoa (cpPort c))"

definition cp_GossipAddress :: "ControlPlane \<Rightarrow> string" where
  "cp_GossipAddress c = JoinHostPort (cpHost c) (Itoa (cpGossipPort c))"

definition cp_RaftAddress :: "ControlPlane \<Rightarrow> string" where
  "cp_RaftAddress c = JoinHostPort (cpHost c) (Itoa (cpRaftPort c))"

text \<open>A mapping decodes as one replica, anything else as a sequence.\<close>

definition UnmarshalYAML :: "bool \<Rightarrow> 'e + ControlPlane \<Rightarrow> 'e + ControlPlane list \<Rightarrow> 'e + ControlPlane list" where
  "UnmarshalYAML isMapping single many =
     (if isMapping then (case single of Inl e \<Rightarrow> Inl e | Inr c \<Rightarrow> Inr [c]) else many)"

record raftConfig =
  rfDataDir :: string
  rfElectionTimeoutMillis :: int
  rfProposeIntervalMillis :: int
  rfSnapshotThreshold :: u64

definition Millisecond :: int where "Millisecond = 1000000"

definition ElectionTimeout :: "raftConfig \<Rightarrow> int" where
  "ElectionTimeout r = wrap64 (rfElectionTimeoutMillis r * Millisecond)"

definition HeartbeatTimeout :: "raftConfig \<Rightarrow> int" where
  "HeartbeatTimeout r = ElectionTimeout r"

text \<open>Go's \<^verbatim>\<open>/\<close> truncates towards zero.\<close>

definition LeaderLeaseTimeout :: "raftConfig \<Rightarrow> int" where
  "LeaderLeaseTimeout r = (let e = ElectionTimeout r in if e < 0 then - ((- e) div 2) else e div 2)"

definition ProposeInterval :: "raftConfig \<Rightarrow> int" where
  "ProposeInterval r = wrap64 (rfProposeIntervalMillis r * Millisecond)"

record cfgNode =
  cnNodeID :: string
  cnHost :: string
  cnPort :: int
  cnGossipPort :: int

definition cn_Address :: "cfgNode \<Rightarrow> string" where
  "cn_Address n = JoinHostPort (cnHost n) (Itoa (cnPort n))"

definition cn_GossipAddress :: "cfgNode \<Rightarrow> string" where
  "cn_GossipAddress n = JoinHostPort (cnHost n) (Itoa (cnGossipPort n))"

record Engine =
  RAMBudgetBytes :: u64
  MaxValueBytes :: u64
  DataRoot :: string

record Config =
  cfControlPlanes :: "ControlPlane list"
  cfClusterName :: string
  cfShardCount :: u32
  cfEngine :: Engine
  cfRaft :: raftConfig
  cfNodes :: "cfgNode list"
  cfReplicationFactorSetting :: "int option"
  cfReplicationFactor :: int
  cfPath :: string

subsection \<open>Defaults\<close>

definition default_replica :: "nat \<times> ControlPlane \<Rightarrow> ControlPlane" where
  "default_replica = (\<lambda>(i, r).
     \<lparr>cpNodeID = (if cpNodeID r = [] then ''cp-'' @ Itoa (int i) else cpNodeID r),
      cpHost = (if cpHost r = [] then DefaultHost else cpHost r),
      cpPort = (if cpPort r = 0 then DefaultControlPlanePortBase + int i else cpPort r),
      cpGossipPort = (if cpGossipPort r = 0 then DefaultControlPlaneGossipPortBase + int i else cpGossipPort r),
      cpRaftPort = (if cpRaftPort r = 0 then DefaultControlPlaneRaftPortBase + int i else cpRaftPort r)\<rparr>)"

definition default_node :: "nat \<times> cfgNode \<Rightarrow> cfgNode" where
  "default_node = (\<lambda>(i, n).
     n\<lparr>cnHost := (if cnHost n = [] then DefaultHost else cnHost n),
       cnGossipPort := (if cnGossipPort n = 0 then DefaultNodeGossipPortBase + int i else cnGossipPort n)\<rparr>)"

definition applyDefaults :: "Config \<Rightarrow> Config" where
  "applyDefaults c =
     c\<lparr>cfShardCount := (if cfShardCount c = 0 then DefaultShardCount else cfShardCount c),
       cfControlPlanes := map default_replica (enumerate 0 (cfControlPlanes c)),
       cfRaft :=
         \<lparr>rfDataDir = (if rfDataDir (cfRaft c) = [] then DefaultRaftDataDir else rfDataDir (cfRaft c)),
          rfElectionTimeoutMillis =
            (if rfElectionTimeoutMillis (cfRaft c) = 0 then DefaultRaftElectionTimeoutMillis
             else rfElectionTimeoutMillis (cfRaft c)),
          rfProposeIntervalMillis =
            (if rfProposeIntervalMillis (cfRaft c) = 0 then DefaultRaftProposeIntervalMillis
             else rfProposeIntervalMillis (cfRaft c)),
          rfSnapshotThreshold =
            (if rfSnapshotThreshold (cfRaft c) = 0 then DefaultRaftSnapshotThreshold
             else rfSnapshotThreshold (cfRaft c))\<rparr>,
       cfClusterName := (if cfClusterName c = [] then DefaultClusterName else cfClusterName c),
       cfEngine :=
         \<lparr>RAMBudgetBytes =
            (if RAMBudgetBytes (cfEngine c) = 0 then DefaultRAMBudgetBytes else RAMBudgetBytes (cfEngine c)),
          MaxValueBytes =
            (if MaxValueBytes (cfEngine c) = 0 then DefaultMaxValueBytes else MaxValueBytes (cfEngine c)),
          DataRoot = (if DataRoot (cfEngine c) = [] then DefaultDataRoot else DataRoot (cfEngine c))\<rparr>,
       cfReplicationFactor :=
         (case cfReplicationFactorSetting c of None \<Rightarrow> DefaultReplicationFactor | Some f \<Rightarrow> f),
       cfNodes := map default_node (enumerate 0 (cfNodes c))\<rparr>"

subsection \<open>Warnings\<close>

datatype warning =
    BudgetPerShard u64 u64 u64
  | BelowUnaryLimit u64
  | FewerReplicas int int
  | EvenGroup nat nat nat nat
  | BeyondLoopback

definition Warnings :: "Config \<Rightarrow> warning list" where
  "Warnings c =
     (let perShard = RAMBudgetBytes (cfEngine c) div EngineShards;
          maxValue = MaxValueBytes (cfEngine c);
          n = length (cfControlPlanes c);
          others = int (length (cfNodes c)) - 1
      in (if perShard < maxValue then [BudgetPerShard perShard maxValue (maxValue * EngineShards)] else [])
         @ (if maxValue < UnaryValueLimitBytes then [BelowUnaryLimit maxValue] else [])
         @ (if cfReplicationFactor c > 0 \<and> length (cfNodes c) > 0 \<and> cfReplicationFactor c > others
            then [FewerReplicas (cfReplicationFactor c) others] else [])
         @ (if n mod 2 = 0 \<and> n > 0 then [EvenGroup n (n div 2 + 1) ((n - 1) div 2) (n - 1)] else [])
         @ (if list_ex (\<lambda>r. \<not> IsLoopback (ParseIP (cpHost r))) (cfControlPlanes c)
               \<or> list_ex (\<lambda>r. \<not> IsLoopback (ParseIP (cnHost r))) (cfNodes c)
            then [BeyondLoopback] else []))"

subsection \<open>Validation\<close>

datatype place = AtControl nat | AtControlGossip nat | AtControlRaft nat | AtNode nat | AtNodeGossip nat

datatype port_field = ServicePort | GossipPort | RaftPort

datatype problem =
    NoControlPlane
  | NoNodeID place
  | LongID place nat
  | PatternID place string
  | DuplicateID place string nat
  | InvalidPort place port_field int
  | HostNotIP place string
  | HostUnspecified place string
  | NoRaftDataDir
  | SmallElectionTimeout int
  | BadProposeInterval int
  | NoClusterName
  | LongClusterName nat
  | NoNodes
  | NoShards
  | NoRAMBudget
  | NoMaxValue
  | NoDataRoot
  | NegativeFactor int
  | LargeFactor int
  | AddressUsed place string place

definition validatePort :: "place \<Rightarrow> port_field \<Rightarrow> int \<Rightarrow> problem list" where
  "validatePort at field port = (if port \<le> 0 \<or> port > maxPort then [InvalidPort at field port] else [])"

definition validateGossipHost :: "place \<Rightarrow> string \<Rightarrow> problem list" where
  "validateGossipHost at host =
     (case ParseIP host of
        None \<Rightarrow> [HostNotIP at host]
      | Some ip \<Rightarrow> if IsUnspecified ip then [HostUnspecified at host] else [])"

text \<open>The \<^verbatim>\<open>switch\<close> on an identifier: the problems it adds and the identifiers seen after it.\<close>

definition check_id :: "place \<Rightarrow> nat \<Rightarrow> string \<Rightarrow> (string, nat) fmap \<Rightarrow> problem list \<times> (string, nat) fmap" where
  "check_id at i nid seen =
     (if nid = [] then ([NoNodeID at], seen)
      else if length nid > MaxNodeIDBytes then ([LongID at (length nid)], seen)
      else if \<not> nodeIDPattern nid then ([PatternID at nid], seen)
      else (case fmlookup seen nid of None \<Rightarrow> [] | Some previous \<Rightarrow> [DuplicateID at nid previous],
            fmupd nid i seen))"

definition check_control ::
    "nat \<times> ControlPlane \<Rightarrow> problem list \<times> (string, nat) fmap \<Rightarrow> problem list \<times> (string, nat) fmap" where
  "check_control = (\<lambda>(i, r) (problems, seen).
     (let (found, seen') = check_id (AtControl i) i (cpNodeID r) seen
      in (problems @ found
            @ validatePort (AtControl i) ServicePort (cpPort r)
            @ validatePort (AtControl i) GossipPort (cpGossipPort r)
            @ validatePort (AtControl i) RaftPort (cpRaftPort r)
            @ validateGossipHost (AtControl i) (cpHost r), seen')))"

definition check_settings :: "Config \<Rightarrow> problem list" where
  "check_settings c =
     (if rfDataDir (cfRaft c) = [] then [NoRaftDataDir] else [])
     @ (if rfElectionTimeoutMillis (cfRaft c) < 50
        then [SmallElectionTimeout (rfElectionTimeoutMillis (cfRaft c))] else [])
     @ (if rfProposeIntervalMillis (cfRaft c) \<le> 0
        then [BadProposeInterval (rfProposeIntervalMillis (cfRaft c))] else [])
     @ (if cfClusterName c = [] then [NoClusterName]
        else if length (cfClusterName c) > MaxClusterNameBytes then [LongClusterName (length (cfClusterName c))] else [])
     @ (if cfNodes c = [] then [NoNodes] else [])
     @ (if cfShardCount c = 0 then [NoShards] else [])
     @ (if RAMBudgetBytes (cfEngine c) = 0 then [NoRAMBudget] else [])
     @ (if MaxValueBytes (cfEngine c) = 0 then [NoMaxValue] else [])
     @ (if DataRoot (cfEngine c) = [] then [NoDataRoot] else [])
     @ (if cfReplicationFactor c < 0 then [NegativeFactor (cfReplicationFactor c)]
        else if cfReplicationFactor c > MaxReplicationFactor then [LargeFactor (cfReplicationFactor c)] else [])"

definition addAddress ::
    "string \<times> place \<Rightarrow> problem list \<times> (string, place) fmap \<Rightarrow> problem list \<times> (string, place) fmap" where
  "addAddress = (\<lambda>(address, owner) (problems, seenAddr).
     case fmlookup seenAddr address of
       Some previous \<Rightarrow> (problems @ [AddressUsed owner address previous], seenAddr)
     | None \<Rightarrow> (problems, fmupd address owner seenAddr))"

definition control_addresses :: "nat \<times> ControlPlane \<Rightarrow> (string \<times> place) list" where
  "control_addresses = (\<lambda>(i, r).
     [(cp_Address r, AtControl i), (cp_GossipAddress r, AtControlGossip i), (cp_RaftAddress r, AtControlRaft i)])"

definition node_addresses :: "nat \<times> cfgNode \<Rightarrow> (string \<times> place) list" where
  "node_addresses = (\<lambda>(i, n). [(cn_Address n, AtNode i), (cn_GossipAddress n, AtNodeGossip i)])"

definition check_cfgNode ::
    "nat \<times> cfgNode \<Rightarrow> problem list \<times> (string, nat) fmap \<times> (string, place) fmap
       \<Rightarrow> problem list \<times> (string, nat) fmap \<times> (string, place) fmap" where
  "check_cfgNode = (\<lambda>(i, n) (problems, seenID, seenAddr).
     (let (found, seenID') = check_id (AtNode i) i (cnNodeID n) seenID;
          problems' = problems @ found
            @ validatePort (AtNode i) ServicePort (cnPort n)
            @ validatePort (AtNode i) GossipPort (cnGossipPort n)
            @ validateGossipHost (AtNode i) (cnHost n);
          (problems'', seenAddr') = fold addAddress (node_addresses (i, n)) (problems', seenAddr)
      in (problems'', seenID', seenAddr')))"

definition config_Validate :: "Config \<Rightarrow> problem list" where
  "config_Validate c =
     (let p0 = (if cfControlPlanes c = [] then [NoControlPlane] else []);
          (p1, _) = fold check_control (enumerate 0 (cfControlPlanes c)) (p0, fmempty);
          p2 = p1 @ check_settings c;
          (p3, seenAddr) =
            fold (\<lambda>r. fold addAddress (control_addresses r)) (enumerate 0 (cfControlPlanes c)) (p2, fmempty);
          (p4, _, _) = fold check_cfgNode (enumerate 0 (cfNodes c)) (p3, fmempty, seenAddr)
      in p4)"

subsection \<open>Loading and lookups\<close>

datatype 'e load_error = OpenFailed 'e | ParseFailed 'e | InvalidConfig "problem list"

definition Load :: "'e option \<Rightarrow> 'e + Config \<Rightarrow> string \<Rightarrow> 'e load_error + Config" where
  "Load opened decoded path =
     (case opened of
        Some e \<Rightarrow> Inl (OpenFailed e)
      | None \<Rightarrow>
          (case decoded of
             Inl e \<Rightarrow> Inl (ParseFailed e)
           | Inr cfg \<Rightarrow>
               (let cfg = applyDefaults (cfg\<lparr>cfPath := path\<rparr>);
                    problems = config_Validate cfg
                in if problems \<noteq> [] then Inl (InvalidConfig problems) else Inr cfg)))"

definition NodeIDs :: "Config \<Rightarrow> string list" where
  "NodeIDs c = map cnNodeID (cfNodes c)"

definition ControlPlaneIDs :: "Config \<Rightarrow> string list" where
  "ControlPlaneIDs c = map cpNodeID (cfControlPlanes c)"

definition ControlPlaneAddresses :: "Config \<Rightarrow> string list" where
  "ControlPlaneAddresses c = map cp_Address (cfControlPlanes c)"

definition ControlPlaneEndpoints :: "Config \<Rightarrow> string" where
  "ControlPlaneEndpoints c = join_with '','' (ControlPlaneAddresses c)"

definition ControlPlaneGossipSeeds :: "Config \<Rightarrow> string list" where
  "ControlPlaneGossipSeeds c = map cp_GossipAddress (cfControlPlanes c)"

definition ControlPlaneByID :: "Config \<Rightarrow> string \<Rightarrow> ControlPlane option" where
  "ControlPlaneByID c nid = find (\<lambda>r. cpNodeID r = nid) (cfControlPlanes c)"

subsection \<open>What Validate accepts\<close>

definition id_ok :: "string \<Rightarrow> bool" where
  "id_ok nid \<longleftrightarrow> nodeIDPattern nid \<and> length nid \<le> MaxNodeIDBytes"

definition port_ok :: "int \<Rightarrow> bool" where
  "port_ok port \<longleftrightarrow> 0 < port \<and> port \<le> maxPort"

definition host_ok :: "string \<Rightarrow> bool" where
  "host_ok host \<longleftrightarrow> (case ParseIP host of None \<Rightarrow> False | Some ip \<Rightarrow> \<not> IsUnspecified ip)"

definition control_ok :: "ControlPlane \<Rightarrow> bool" where
  "control_ok r \<longleftrightarrow> id_ok (cpNodeID r) \<and> port_ok (cpPort r) \<and> port_ok (cpGossipPort r) \<and> port_ok (cpRaftPort r) \<and>
     host_ok (cpHost r)"

definition cfgNode_ok :: "cfgNode \<Rightarrow> bool" where
  "cfgNode_ok n \<longleftrightarrow> id_ok (cnNodeID n) \<and> port_ok (cnPort n) \<and> port_ok (cnGossipPort n) \<and> host_ok (cnHost n)"

definition settings_ok :: "Config \<Rightarrow> bool" where
  "settings_ok c \<longleftrightarrow> rfDataDir (cfRaft c) \<noteq> [] \<and> 50 \<le> rfElectionTimeoutMillis (cfRaft c) \<and>
     0 < rfProposeIntervalMillis (cfRaft c) \<and> cfClusterName c \<noteq> [] \<and> length (cfClusterName c) \<le> MaxClusterNameBytes \<and>
     cfNodes c \<noteq> [] \<and> cfShardCount c \<noteq> 0 \<and> RAMBudgetBytes (cfEngine c) \<noteq> 0 \<and> MaxValueBytes (cfEngine c) \<noteq> 0 \<and>
     DataRoot (cfEngine c) \<noteq> [] \<and> 0 \<le> cfReplicationFactor c \<and> cfReplicationFactor c \<le> MaxReplicationFactor"

text \<open>Every address a process of the cluster listens on.\<close>

definition listen_addresses :: "Config \<Rightarrow> string list" where
  "listen_addresses c =
     concat (map (\<lambda>r. [cp_Address r, cp_GossipAddress r, cp_RaftAddress r]) (cfControlPlanes c))
     @ concat (map (\<lambda>n. [cn_Address n, cn_GossipAddress n]) (cfNodes c))"

definition config_ok :: "Config \<Rightarrow> bool" where
  "config_ok c \<longleftrightarrow> cfControlPlanes c \<noteq> [] \<and> settings_ok c \<and>
     list_all control_ok (cfControlPlanes c) \<and> distinct (ControlPlaneIDs c) \<and>
     list_all cfgNode_ok (cfNodes c) \<and> distinct (NodeIDs c) \<and> distinct (listen_addresses c)"

lemma validatePort_Nil [simp]: "validatePort at field port = [] \<longleftrightarrow> port_ok port"
  by (auto simp: validatePort_def port_ok_def)

lemma validateGossipHost_Nil [simp]: "validateGossipHost at host = [] \<longleftrightarrow> host_ok host"
  by (simp add: validateGossipHost_def host_ok_def split: option.split)

lemma check_settings_Nil [simp]: "check_settings c = [] \<longleftrightarrow> settings_ok c"
  by (auto simp: check_settings_def settings_ok_def)

lemma check_id_ok:
  "id_ok nid \<Longrightarrow> check_id at i nid seen =
     (case fmlookup seen nid of None \<Rightarrow> [] | Some previous \<Rightarrow> [DuplicateID at nid previous], fmupd nid i seen)"
  by (auto simp: check_id_def id_ok_def nodeIDPattern_def)

lemma check_id_bad: "\<not> id_ok nid \<Longrightarrow> fst (check_id at i nid seen) \<noteq> []"
  by (auto simp: check_id_def id_ok_def)

lemma check_id_Nil [simp]: "fst (check_id at i nid seen) = [] \<longleftrightarrow> id_ok nid \<and> fmlookup seen nid = None"
  using check_id_ok check_id_bad by (cases "id_ok nid") (auto split: option.splits)

lemma check_controls:
  "fst (fold check_control xs (ps, seen)) = [] \<longleftrightarrow>
     ps = [] \<and> (\<forall>x \<in> set xs. control_ok (snd x)) \<and> distinct (map (cpNodeID \<circ> snd) xs) \<and>
     (\<forall>x \<in> set xs. fmlookup seen (cpNodeID (snd x)) = None)"
proof (induction xs arbitrary: ps seen)
  case (Cons x xs)
  obtain i r where x: "x = (i, r)"
    by force
  obtain found seen' where c: "check_id (AtControl i) i (cpNodeID r) seen = (found, seen')"
    by force
  have found: "found = [] \<longleftrightarrow> id_ok (cpNodeID r) \<and> fmlookup seen (cpNodeID r) = None"
    using check_id_Nil [of "AtControl i" i "cpNodeID r" seen] c by simp
  obtain ps' where step: "check_control x (ps, seen) = (ps', seen')"
      and ps': "ps' = [] \<longleftrightarrow> ps = [] \<and> found = [] \<and> port_ok (cpPort r) \<and> port_ok (cpGossipPort r) \<and>
        port_ok (cpRaftPort r) \<and> host_ok (cpHost r)"
    using x c by (simp add: check_control_def)
  show ?case
  proof (cases "id_ok (cpNodeID r)")
    case True
    then have "seen' = fmupd (cpNodeID r) i seen"
      using check_id_ok [of "cpNodeID r" "AtControl i" i seen] c by simp
    then show ?thesis
      using Cons [of ps' seen'] step x by (auto simp: ps' found control_ok_def)
  next
    case False
    then show ?thesis
      using Cons [of ps' seen'] step x by (simp add: ps' found control_ok_def)
  qed
qed simp

lemma add_addresses:
  "fst (fold addAddress as (ps, seen)) = [] \<longleftrightarrow>
     ps = [] \<and> distinct (map fst as) \<and> (\<forall>a \<in> set (map fst as). fmlookup seen a = None)"
  "fmlookup (snd (fold addAddress as (ps, seen))) a = None \<longleftrightarrow> a \<notin> set (map fst as) \<and> fmlookup seen a = None"
proof (induction as arbitrary: ps seen)
  case (Cons x as)
  {
    case 1
    then show ?case
      using Cons.IH(1) by (cases x; cases "fmlookup seen (fst x)") (auto simp: addAddress_def)
  next
    case 2
    then show ?case
      using Cons.IH(2) by (cases x; cases "fmlookup seen (fst x)") (auto simp: addAddress_def)
  }
qed simp_all

lemma fold_fold: "fold (\<lambda>r. fold f (g r)) xs a = fold f (concat (map g xs)) a"
  by (induction xs arbitrary: a) simp_all

lemma check_cfgNodes:
  "fst (fold check_cfgNode xs (ps, seen, addrs)) = [] \<longleftrightarrow>
     ps = [] \<and> (\<forall>x \<in> set xs. cfgNode_ok (snd x)) \<and> distinct (map (cnNodeID \<circ> snd) xs) \<and>
     (\<forall>x \<in> set xs. fmlookup seen (cnNodeID (snd x)) = None) \<and>
     distinct (map fst (concat (map node_addresses xs))) \<and>
     (\<forall>a \<in> set (map fst (concat (map node_addresses xs))). fmlookup addrs a = None)"
proof (induction xs arbitrary: ps seen addrs)
  case (Cons x xs)
  obtain i n where x: "x = (i, n)"
    by force
  obtain found seen' where c: "check_id (AtNode i) i (cnNodeID n) seen = (found, seen')"
    by force
  let ?ps = "ps @ found @ validatePort (AtNode i) ServicePort (cnPort n)
     @ validatePort (AtNode i) GossipPort (cnGossipPort n) @ validateGossipHost (AtNode i) (cnHost n)"
  obtain ps' addrs' where a: "fold addAddress (node_addresses (i, n)) (?ps, addrs) = (ps', addrs')"
    by force
  have ps': "ps' = [] \<longleftrightarrow> ?ps = [] \<and> distinct (map fst (node_addresses (i, n))) \<and>
      (\<forall>a \<in> set (map fst (node_addresses (i, n))). fmlookup addrs a = None)"
    using add_addresses(1) [of "node_addresses (i, n)" ?ps addrs] a by simp
  have addrs': "fmlookup addrs' b = None \<longleftrightarrow> b \<notin> set (map fst (node_addresses (i, n))) \<and> fmlookup addrs b = None" for b
    using add_addresses(2) [of "node_addresses (i, n)" ?ps addrs b] a by simp
  have found: "found = [] \<longleftrightarrow> id_ok (cnNodeID n) \<and> fmlookup seen (cnNodeID n) = None"
    using check_id_Nil [of "AtNode i" i "cnNodeID n" seen] c by simp
  have step: "check_cfgNode x (ps, seen, addrs) = (ps', seen', addrs')"
    using x c a by (simp add: check_cfgNode_def)
  define A where "A = map fst (node_addresses (i, n))"
  define B where "B = map fst (concat (map node_addresses xs))"
  have AB: "map fst (concat (map node_addresses (x # xs))) = A @ B"
    by (simp add: x A_def B_def)
  have IH: "fst (fold check_cfgNode (x # xs) (ps, seen, addrs)) = [] \<longleftrightarrow>
      ps' = [] \<and> (\<forall>x \<in> set xs. cfgNode_ok (snd x)) \<and> distinct (map (cnNodeID \<circ> snd) xs) \<and>
      (\<forall>x \<in> set xs. fmlookup seen' (cnNodeID (snd x)) = None) \<and> distinct B \<and> (\<forall>a \<in> set B. fmlookup addrs' a = None)"
    unfolding B_def by (simp only: fold_simps step Cons)
  show ?case
  proof (cases "id_ok (cnNodeID n)")
    case True
    then have "seen' = fmupd (cnNodeID n) i seen"
      using check_id_ok [of "cnNodeID n" "AtNode i" i seen] c by simp
    then have seen': "(\<forall>y \<in> set xs. fmlookup seen' (cnNodeID (snd y)) = None) \<longleftrightarrow>
        (\<forall>y \<in> set xs. fmlookup seen (cnNodeID (snd y)) = None) \<and> cnNodeID n \<notin> set (map (cnNodeID \<circ> snd) xs)"
      by (auto simp: image_iff)
    have addrs'': "(\<forall>a \<in> set B. fmlookup addrs' a = None) \<longleftrightarrow>
        (\<forall>a \<in> set B. fmlookup addrs a = None) \<and> set A \<inter> set B = {}"
      unfolding addrs' A_def [symmetric] by blast
    show ?thesis
      unfolding IH AB seen' addrs'' ps' [folded A_def]
      using True x by (simp add: found cfgNode_ok_def ball_Un comp_def conj_ac)
  next
    case False
    then show ?thesis
      unfolding IH AB using x by (simp add: ps' found cfgNode_ok_def)
  qed
qed simp

lemma list_all_enumerate: "(\<forall>x \<in> set (enumerate n xs). P (snd x)) \<longleftrightarrow> list_all P xs"
  by (induction xs arbitrary: n) simp_all

lemma map_enumerate: "map (f \<circ> snd) (enumerate n xs) = map f xs"
  by (induction xs arbitrary: n) simp_all

lemma control_addresses_enumerate:
  "map fst (concat (map control_addresses (enumerate n xs))) =
     concat (map (\<lambda>r. [cp_Address r, cp_GossipAddress r, cp_RaftAddress r]) xs)"
  by (induction xs arbitrary: n) (simp_all add: control_addresses_def)

lemma node_addresses_enumerate:
  "map fst (concat (map node_addresses (enumerate n xs))) = concat (map (\<lambda>n. [cn_Address n, cn_GossipAddress n]) xs)"
  by (induction xs arbitrary: n) (simp_all add: node_addresses_def)

lemma config_Validate_exact: "config_Validate c = [] \<longleftrightarrow> config_ok c"
proof -
  let ?p0 = "if cfControlPlanes c = [] then [NoControlPlane] else []"
  obtain p1 s1 where 1: "fold check_control (enumerate 0 (cfControlPlanes c)) (?p0, fmempty) = (p1, s1)"
    by force
  obtain p3 addrs where 3: "fold (\<lambda>r. fold addAddress (control_addresses r)) (enumerate 0 (cfControlPlanes c))
      (p1 @ check_settings c, fmempty) = (p3, addrs)"
    by force
  have p1: "p1 = [] \<longleftrightarrow> cfControlPlanes c \<noteq> [] \<and> list_all control_ok (cfControlPlanes c) \<and> distinct (ControlPlaneIDs c)"
    using check_controls [of "enumerate 0 (cfControlPlanes c)" ?p0 fmempty] 1
    by (auto simp: list_all_enumerate map_enumerate ControlPlaneIDs_def list_all_iff)
  let ?ca = "concat (map (\<lambda>r. [cp_Address r, cp_GossipAddress r, cp_RaftAddress r]) (cfControlPlanes c))"
  have p3: "p3 = [] \<longleftrightarrow> p1 = [] \<and> settings_ok c \<and> distinct ?ca"
      "fmlookup addrs a = None \<longleftrightarrow> a \<notin> set ?ca" for a
    using add_addresses [of "concat (map control_addresses (enumerate 0 (cfControlPlanes c)))" "p1 @ check_settings c" fmempty] 3
    unfolding fold_fold control_addresses_enumerate by simp_all
  let ?na = "concat (map (\<lambda>n. [cn_Address n, cn_GossipAddress n]) (cfNodes c))"
  have "config_Validate c = fst (fold check_cfgNode (enumerate 0 (cfNodes c)) (p3, fmempty, addrs))"
    using 1 3 by (simp add: config_Validate_def case_prod_unfold)
  also have "\<dots> = [] \<longleftrightarrow> p3 = [] \<and> list_all cfgNode_ok (cfNodes c) \<and> distinct (NodeIDs c) \<and>
      distinct ?na \<and> (\<forall>a \<in> set ?na. fmlookup addrs a = None)"
    unfolding check_cfgNodes node_addresses_enumerate by (simp add: list_all_enumerate map_enumerate NodeIDs_def)
  also have "\<dots> \<longleftrightarrow> config_ok c"
    unfolding p3 p1 config_ok_def listen_addresses_def distinct_append by blast
  finally show ?thesis .
qed

subsection \<open>Properties\<close>

text \<open>
  C33: \<open>Load\<close> returns exactly the file's content with the defaults filled in, and only when that is
  well formed: distinct valid identifiers, ports in range, bindable hosts, settings in range and
  no two listeners of the cluster on the same address.
\<close>

theorem Load_accepts:
  "Load opened decoded path = Inr c \<longleftrightarrow>
     opened = None \<and> (\<exists>d. decoded = Inr d \<and> c = applyDefaults (d\<lparr>cfPath := path\<rparr>)) \<and> config_ok c"
  by (auto simp: Load_def Let_def config_Validate_exact split: option.splits sum.splits if_splits)

text \<open>
  The derived Raft timeouts of a valid configuration are ordered the way the Raft library
  requires, as long as the configured milliseconds stay within the range of a duration.
\<close>

theorem Raft_timeouts_ordered:
  assumes "config_Validate c = []"
    and "rfElectionTimeoutMillis (cfRaft c) \<le> 9223372036854" and "rfProposeIntervalMillis (cfRaft c) \<le> 9223372036854"
  shows "0 < LeaderLeaseTimeout (cfRaft c) \<and> LeaderLeaseTimeout (cfRaft c) \<le> HeartbeatTimeout (cfRaft c) \<and>
    HeartbeatTimeout (cfRaft c) = ElectionTimeout (cfRaft c) \<and>
    ElectionTimeout (cfRaft c) = rfElectionTimeoutMillis (cfRaft c) * 1000000 \<and>
    ProposeInterval (cfRaft c) = rfProposeIntervalMillis (cfRaft c) * 1000000 \<and> 0 < ProposeInterval (cfRaft c)"
proof -
  have "50 \<le> rfElectionTimeoutMillis (cfRaft c)" "0 < rfProposeIntervalMillis (cfRaft c)"
    using assms(1) by (simp_all add: config_Validate_exact config_ok_def settings_ok_def)
  then have "int64 (rfElectionTimeoutMillis (cfRaft c) * 1000000)" "int64 (rfProposeIntervalMillis (cfRaft c) * 1000000)"
    using assms(2,3) by (simp_all add: int64_def)
  with \<open>50 \<le> _\<close> \<open>0 < _\<close> show ?thesis
    by (simp add: ElectionTimeout_def HeartbeatTimeout_def LeaderLeaseTimeout_def ProposeInterval_def Millisecond_def
        wrap64_int64)
qed

definition launch_config :: "nat \<Rightarrow> string list \<Rightarrow> int \<Rightarrow> Config" where
  "launch_config k ids ms =
     \<lparr>cfControlPlanes = replicate k \<lparr>cpNodeID = [], cpHost = [], cpPort = 0, cpGossipPort = 0, cpRaftPort = 0\<rparr>,
      cfClusterName = [], cfShardCount = 0, cfEngine = \<lparr>RAMBudgetBytes = 0, MaxValueBytes = 0, DataRoot = []\<rparr>,
      cfRaft = \<lparr>rfDataDir = [], rfElectionTimeoutMillis = ms, rfProposeIntervalMillis = 0, rfSnapshotThreshold = 0\<rparr>,
      cfNodes = map (\<lambda>(i, nid). \<lparr>cnNodeID = nid, cnHost = [], cnPort = 7100 + int i, cnGossipPort = 0\<rparr>) (enumerate 0 ids),
      cfReplicationFactorSetting = None, cfReplicationFactor = 0, cfPath = []\<rparr>"

lemma Itoa_inject: "0 \<le> i \<Longrightarrow> 0 \<le> j \<Longrightarrow> Itoa i = Itoa j \<longleftrightarrow> i = j"
  by (metis Itoa_def digits_val_nat_digits eq_nat_nat_iff not_less)

lemma JoinHostPort_inject: "JoinHostPort host p = JoinHostPort host q \<longleftrightarrow> p = q"
  by (simp add: JoinHostPort_def)

lemma length_nat_digits: "n < 100 \<Longrightarrow> length (nat_digits n) \<le> 2"
  by (subst nat_digits.simps) (subst nat_digits.simps, simp, linarith)

lemma id_ok_default: "i < 100 \<Longrightarrow> id_ok (''cp-'' @ Itoa (int i))"
  using length_nat_digits [of i] nat_digits_all [of i]
  by (auto simp: id_ok_def nodeIDPattern_def MaxNodeIDBytes_def Itoa_def is_alnum_def is_id_char_def is_digit_def
      list_all_iff)

lemma host_ok_default: "host_ok DefaultHost"
  by code_simp

definition default_ports :: "nat \<Rightarrow> nat \<Rightarrow> int list" where
  "default_ports k n = concat (map (\<lambda>i. [7000 + int i, 7240 + int i, 7300 + int i]) [0..<k])
     @ concat (map (\<lambda>i. [7100 + int i, 7201 + int i]) [0..<n])"

lemma distinct_default_ports:
  assumes "k \<le> 60" and "n \<le> 39"
  shows "distinct (default_ports k n)"
proof -
  have "distinct (concat (map (\<lambda>i. [7000 + int i, 7240 + int i, 7300 + int i]) [0..<j]))" if "j \<le> 60" for j
    using that by (induction j) auto
  moreover have "distinct (concat (map (\<lambda>i. [7100 + int i, 7201 + int i]) [0..<j]))" if "j \<le> 39" for j
    using that by (induction j) auto
  ultimately show ?thesis
    using assms by (auto simp: default_ports_def)
qed

lemma map_default_replica:
  "map default_replica (enumerate j (replicate k \<lparr>cpNodeID = [], cpHost = [], cpPort = 0, cpGossipPort = 0, cpRaftPort = 0\<rparr>)) =
     map (\<lambda>i. \<lparr>cpNodeID = ''cp-'' @ Itoa (int i), cpHost = DefaultHost, cpPort = 7000 + int i, cpGossipPort = 7240 + int i,
       cpRaftPort = 7300 + int i\<rparr>) [j..<j + k]"
proof (induction k arbitrary: j)
  case (Suc k)
  then show ?case
    by (simp add: default_replica_def DefaultControlPlanePortBase_def DefaultControlPlaneGossipPortBase_def
        DefaultControlPlaneRaftPortBase_def upt_conv_Cons del: upt_Suc)
qed simp

lemma map_default_node:
  "map default_node (enumerate j (map (\<lambda>(i, nid). \<lparr>cnNodeID = nid, cnHost = [], cnPort = 7100 + int i, cnGossipPort = 0\<rparr>)
     (enumerate j ids))) =
     map (\<lambda>(i, nid). \<lparr>cnNodeID = nid, cnHost = DefaultHost, cnPort = 7100 + int i, cnGossipPort = 7201 + int i\<rparr>)
       (enumerate j ids)"
  by (induction ids arbitrary: j) (simp_all add: default_node_def DefaultNodeGossipPortBase_def)

lemma enumerate_concat:
  "concat (map (\<lambda>(i, x). f i) (enumerate j xs)) = concat (map f [j..<j + length xs])"
  by (induction xs arbitrary: j) (simp_all add: upt_conv_Cons del: upt_Suc)

lemma launch_replicas:
  "cfControlPlanes (applyDefaults (launch_config k ids ms)) =
     map (\<lambda>i. \<lparr>cpNodeID = ''cp-'' @ Itoa (int i), cpHost = DefaultHost, cpPort = 7000 + int i,
       cpGossipPort = 7240 + int i, cpRaftPort = 7300 + int i\<rparr>) [0..<k]"
  using map_default_replica [of 0 k] by (simp add: applyDefaults_def launch_config_def)

lemma launch_nodes:
  "cfNodes (applyDefaults (launch_config k ids ms)) =
     map (\<lambda>(i, nid). \<lparr>cnNodeID = nid, cnHost = DefaultHost, cnPort = 7100 + int i, cnGossipPort = 7201 + int i\<rparr>)
       (enumerate 0 ids)"
  using map_default_node [of 0 ids] by (simp add: applyDefaults_def launch_config_def)

lemma launch_addresses:
  "listen_addresses (applyDefaults (launch_config k ids ms)) =
     map (\<lambda>p. JoinHostPort DefaultHost (Itoa p)) (default_ports k (length ids))"
  using enumerate_concat [of "\<lambda>i. [JoinHostPort DefaultHost (Itoa (7100 + int i)), JoinHostPort DefaultHost (Itoa (7201 + int i))]" 0 ids]
  by (simp add: listen_addresses_def launch_replicas launch_nodes default_ports_def cp_Address_def cp_GossipAddress_def
      cp_RaftAddress_def cn_Address_def cn_GossipAddress_def map_concat comp_def case_prod_unfold)

lemma launch_config_ok:
  assumes "1 \<le> k" and "k \<le> 60" and "1 \<le> length ids" and "length ids \<le> 39" and "distinct ids" and "list_all id_ok ids"
    and "50 \<le> ms"
  shows "config_ok (applyDefaults (launch_config k ids ms))"
proof -
  let ?c = "applyDefaults (launch_config k ids ms)"
  note cps = launch_replicas [of k ids ms] and nodes = launch_nodes [of k ids ms]
  have "inj_on (\<lambda>p. JoinHostPort DefaultHost (Itoa p)) (set (default_ports k (length ids)))"
    by (auto simp: inj_on_def JoinHostPort_inject Itoa_inject default_ports_def)
  then have "distinct (listen_addresses ?c)"
    using distinct_default_ports [OF assms(2,4)] by (simp add: launch_addresses distinct_map)
  moreover have "list_all control_ok (cfControlPlanes ?c)"
    using assms(2) by (auto simp: cps list_all_iff control_ok_def port_ok_def maxPort_def host_ok_default id_ok_default [simplified])
  moreover have "list_all cfgNode_ok (cfNodes ?c)"
    using assms(4,6) by (auto simp: nodes list_all_iff cfgNode_ok_def port_ok_def maxPort_def host_ok_default in_set_enumerate_eq)
  moreover have "NodeIDs ?c = ids"
    by (simp add: NodeIDs_def nodes case_prod_unfold comp_def)
  moreover have "distinct (ControlPlaneIDs ?c)"
    by (auto simp: ControlPlaneIDs_def cps comp_def distinct_map inj_on_def Itoa_inject)
  moreover have "settings_ok ?c"
    using assms(3,7) by (auto simp: settings_ok_def applyDefaults_def launch_config_def DefaultRaftDataDir_def
      DefaultRaftProposeIntervalMillis_def DefaultClusterName_def MaxClusterNameBytes_def DefaultShardCount_def
      DefaultRAMBudgetBytes_def DefaultMaxValueBytes_def DefaultDataRoot_def DefaultReplicationFactor_def
      MaxReplicationFactor_def dest!: arg_cong [of _ _ length])
  ultimately show ?thesis
    using assms(1,5) cps by (auto simp: config_ok_def)
qed

text \<open>
  The default port ranges are disjoint: a file that names up to 39 data nodes on ports
  7100, 7101, \<open>\<dots>\<close> and up to 60 control-plane replicas and leaves everything else out is valid.
\<close>

theorem default_ports_disjoint:
  assumes "1 \<le> k" and "k \<le> 60" and "1 \<le> length ids" and "length ids \<le> 39" and "distinct ids" and "list_all id_ok ids"
  shows "config_Validate (applyDefaults (launch_config k ids 0)) = []"
proof -
  have "applyDefaults (launch_config k ids 0) = applyDefaults (launch_config k ids 500)"
    by (simp add: applyDefaults_def launch_config_def DefaultRaftElectionTimeoutMillis_def)
  then show ?thesis
    using launch_config_ok [OF assms, of 500] by (simp add: config_Validate_exact)
qed

lemma sample_ids: "list_all id_ok [''node-0'', ''node-1'']"
  by code_simp

theorem default_ports_disjoint_witness:
  "config_Validate (applyDefaults (launch_config 3 [''node-0'', ''node-1''] 0)) = []"
  by (rule default_ports_disjoint) (use sample_ids in simp_all)

theorem Raft_timeouts_ordered_witness:
  "config_Validate (applyDefaults (launch_config 3 [''node-0'', ''node-1''] 500)) = [] \<and>
   LeaderLeaseTimeout (cfRaft (applyDefaults (launch_config 3 [''node-0'', ''node-1''] 500)))
     \<le> HeartbeatTimeout (cfRaft (applyDefaults (launch_config 3 [''node-0'', ''node-1''] 500)))"
proof -
  have "config_Validate (applyDefaults (launch_config 3 [''node-0'', ''node-1''] 500)) = []"
    using launch_config_ok [of 3 "[''node-0'', ''node-1'']" 500] sample_ids by (simp add: config_Validate_exact)
  from this Raft_timeouts_ordered [OF this] show ?thesis
    by (simp add: applyDefaults_def launch_config_def DefaultRaftProposeIntervalMillis_def)
qed

text \<open>
  Without the bound on the milliseconds the product wraps: a configuration that validates can have
  negative timeouts, which the replicated store then refuses.
\<close>

theorem election_timeout_wraps:
  "\<exists>c. config_Validate c = [] \<and> HeartbeatTimeout (cfRaft c) < 0"
proof -
  let ?c = "applyDefaults (launch_config 3 [''node-0'', ''node-1''] 9223372036855)"
  have "config_Validate ?c = []"
    using launch_config_ok [of 3 "[''node-0'', ''node-1'']" 9223372036855] sample_ids by (simp add: config_Validate_exact)
  moreover have "HeartbeatTimeout (cfRaft ?c) < 0"
    by (simp add: HeartbeatTimeout_def ElectionTimeout_def applyDefaults_def launch_config_def Millisecond_def wrap64_def)
  ultimately show ?thesis
    by blast
qed

end
