(* ===== verification/Metadata_Service.thy ===== *)
theory Metadata_Service
  imports Metastore_Store Topology Cluster_Config
begin

text \<open>
  \<^verbatim>\<open>internal/metadata/service.go\<close>: ClusterMetadataService over a membership source.

  A request handler reads its surroundings once: whether the source is ready, its snapshot, and
  the Raft leader.  These are the record \<open>svcObs\<close> a handler is given.  Go ranges over the shard
  map in an arbitrary order when it compares the two placements; the order is an argument.

  \<open>membership_source\<close> is the contract of \<^verbatim>\<open>membership.Source\<close> the service relies on, and
  \<open>unambiguous_source\<close> the stronger one under which it always answers.  The gossip view
  satisfies the second, the Raft-backed store the first.  The lemmas show that the service
  never publishes two placements that disagree and that what it publishes is accepted by
  \<open>Topology.Fetch\<close>.
\<close>

subsection \<open>The service\<close>

record Service =
  svShardCount :: u32
  svReplicationFactor :: int
  svReadiness :: bool
  svConfigPath :: string
  svStarted :: int
  svLeaderInfo :: bool

type_synonym Option = "Service \<Rightarrow> Service"

definition WithStartTime :: "int \<Rightarrow> Option" where
  "WithStartTime t = (\<lambda>s. s\<lparr>svStarted := t\<rparr>)"

text \<open>\<open>present\<close>: the function given is not nil.\<close>

definition WithLeaderInfo :: "bool \<Rightarrow> Option" where
  "WithLeaderInfo present = (\<lambda>s. s\<lparr>svLeaderInfo := present\<rparr>)"

datatype new_error = NilConfig | NilSource | ZeroShards | NegativeReplication int

text \<open>The source is \<open>None\<close> for nil, otherwise whether it also implements \<^verbatim>\<open>Readiness\<close>.\<close>

definition service_New :: "Config option \<Rightarrow> bool option \<Rightarrow> int \<Rightarrow> Option list \<Rightarrow> new_error + Service" where
  "service_New cfg source now opts =
     (case cfg of
        None \<Rightarrow> Inl NilConfig
      | Some c \<Rightarrow>
          (case source of
             None \<Rightarrow> Inl NilSource
           | Some readiness \<Rightarrow>
               if cfShardCount c = 0 then Inl ZeroShards
               else if cfReplicationFactor c < 0 then Inl (NegativeReplication (cfReplicationFactor c))
               else Inr (fold (\<lambda>opt s. opt s) opts
                 \<lparr>svShardCount = cfShardCount c, svReplicationFactor = cfReplicationFactor c,
                  svReadiness = readiness, svConfigPath = cfPath c, svStarted = now, svLeaderInfo = False\<rparr>)))"

subsection \<open>Snapshot and placement\<close>

record 'r svcObs =
  obReady :: "'r option"
  obSnapshot :: Snapshot
  obLeader :: "string \<times> u64"

datatype 'r svc_error =
    Unavailable 'r
  | EmptyMember
  | DuplicateMemberID string
  | DuplicateMemberAddress string
  | NegativeAgreedFactor int
  | PlacementCounts nat nat
  | PlacementDisagrees u32 string string

definition check_member ::
    "Node \<Rightarrow> string list \<times> string list \<Rightarrow> 'r svc_error + string list \<times> string list" where
  "check_member node = (\<lambda>(seenIDs, seenAddresses).
     if NodeID node = [] \<or> Address node = [] then Inl EmptyMember
     else if NodeID node \<in> set seenIDs then Inl (DuplicateMemberID (NodeID node))
     else if Address node \<in> set seenAddresses then Inl (DuplicateMemberAddress (Address node))
     else Inr (NodeID node # seenIDs, Address node # seenAddresses))"

definition service_snapshot :: "Service \<Rightarrow> 'r svcObs \<Rightarrow> 'r svc_error + Snapshot" where
  "service_snapshot s ob =
     (case (if svReadiness s then obReady ob else None) of
        Some e \<Rightarrow> Inl (Unavailable e)
      | None \<Rightarrow>
          (case foldE check_member (Nodes (obSnapshot ob)) ([], []) of
             Inl e \<Rightarrow> Inl e
           | Inr _ \<Rightarrow> Inr (obSnapshot ob)))"

record placement =
  plShardCount :: u32
  plReplicationFactor :: u32
  plAddresses :: "(string, string) fmap"
  plShardMap :: "(u32, string) fmap"
  plOwners :: "(u32, ShardOwners) fmap"

definition fingerprintInput :: "placement \<Rightarrow> FingerprintInput" where
  "fingerprintInput p =
     \<lparr>fiShardCount = plShardCount p, fiReplicationFactor = plReplicationFactor p, fiNodes = plAddresses p,
      fiShardMap = plShardMap p, fiOwners = plOwners p\<rparr>"

definition check_primary ::
    "(u32, string) fmap \<Rightarrow> (u32, ShardOwners) fmap \<Rightarrow> u32 \<Rightarrow> unit \<Rightarrow> 'r svc_error + unit" where
  "check_primary shardMap owners shard u =
     (let owner = fmget shardMap shard;
          primary = (case fmlookup owners shard of None \<Rightarrow> [] | Some o' \<Rightarrow> Primary o')
      in if primary \<noteq> owner then Inl (PlacementDisagrees shard owner primary) else Inr u)"

definition placement_of :: "u32 list \<Rightarrow> Service \<Rightarrow> Snapshot \<Rightarrow> 'r svc_error + placement" where
  "placement_of order s snap =
     (let addresses = fold (\<lambda>node. fmupd (NodeID node) (Address node)) (Nodes snap) fmempty;
          nodeIDs = map NodeID (Nodes snap);
          replicationFactor = (case ReplicationFactor snap of Some f \<Rightarrow> f | None \<Rightarrow> svReplicationFactor s)
      in if replicationFactor < 0 then Inl (NegativeAgreedFactor replicationFactor)
         else
           (let shardMap = AssignShards nodeIDs (svShardCount s);
                owners = AssignShardOwners nodeIDs (svShardCount s) replicationFactor
            in if fmlen shardMap \<noteq> fmlen owners then Inl (PlacementCounts (fmlen shardMap) (fmlen owners))
               else case foldE (check_primary shardMap owners) order () of
                   Inl e \<Rightarrow> Inl e
                 | Inr _ \<Rightarrow> Inr \<lparr>plShardCount = svShardCount s, plReplicationFactor = word_of_int replicationFactor,
                     plAddresses = addresses, plShardMap = shardMap, plOwners = owners\<rparr>))"

subsection \<open>Handlers\<close>

definition GetNodeList :: "u32 list \<Rightarrow> Service \<Rightarrow> 'r svcObs \<Rightarrow> 'r svc_error + GetNodeListResponse" where
  "GetNodeList order s ob =
     (case service_snapshot s ob of
        Inl e \<Rightarrow> Inl e
      | Inr snap \<Rightarrow>
          (case placement_of order s snap of
             Inl e \<Rightarrow> Inl e
           | Inr p \<Rightarrow> Inr
               \<lparr>nlNodes = map (\<lambda>n. Some \<lparr>niNodeId = NodeID n, niAddress = Address n, niAlive = True\<rparr>) (Nodes snap),
                nlGeneration = Generation snap, nlFingerprint = Fingerprint (fingerprintInput p)\<rparr>))"

definition service_leader :: "Service \<Rightarrow> 'r svcObs \<Rightarrow> string \<times> u64" where
  "service_leader s ob = (if \<not> svLeaderInfo s then ([], 0) else obLeader ob)"

definition GetShardMap :: "u32 list \<Rightarrow> Service \<Rightarrow> 'r svcObs \<Rightarrow> 'r svc_error + GetShardMapResponse" where
  "GetShardMap order s ob =
     (case service_snapshot s ob of
        Inl e \<Rightarrow> Inl e
      | Inr snap \<Rightarrow>
          (case placement_of order s snap of
             Inl e \<Rightarrow> Inl e
           | Inr p \<Rightarrow> Inr
               \<lparr>smShardToNodeId = plShardMap p, smGeneration = Generation snap,
                smFingerprint = Fingerprint (fingerprintInput p), smShardCount = svShardCount s,
                smShardToOwners = fmmap (\<lambda>o'. Some (ShardOwners (Primary o') (Replicas o'))) (plOwners p),
                smReplicationFactor = plReplicationFactor p,
                smRaftLeaderId = fst (service_leader s ob), smRaftTerm = snd (service_leader s ob)\<rparr>))"

subsection \<open>Placement\<close>

lemma placement_lens: "fmlen (AssignShards ids n) = fmlen (AssignShardOwners ids n rf)"
proof -
  have "fmdom' (AssignShards ids n) = fmdom' (AssignShardOwners ids n rf)"
    by (auto simp: fmdom'_by_lookup AssignShards_lookup AssignShardOwners_lookup)
  then show ?thesis
    by (simp add: fmlen_card)
qed

lemma placement_primaries: "foldE (check_primary (AssignShards ids n) (AssignShardOwners ids n rf)) order () = Inr ()"
  by (induction order) (auto simp: check_primary_def fmget_def AssignShards_lookup AssignShardOwners_lookup)

definition effective_factor :: "Service \<Rightarrow> Snapshot \<Rightarrow> int" where
  "effective_factor s snap = (case ReplicationFactor snap of Some f \<Rightarrow> f | None \<Rightarrow> svReplicationFactor s)"

definition the_placement :: "Service \<Rightarrow> Snapshot \<Rightarrow> placement" where
  "the_placement s snap =
     \<lparr>plShardCount = svShardCount s, plReplicationFactor = word_of_int (effective_factor s snap),
      plAddresses = fold (\<lambda>node. fmupd (NodeID node) (Address node)) (Nodes snap) fmempty,
      plShardMap = AssignShards (map NodeID (Nodes snap)) (svShardCount s),
      plOwners = AssignShardOwners (map NodeID (Nodes snap)) (svShardCount s) (effective_factor s snap)\<rparr>"

lemma placement_of_eq:
  "placement_of order s snap =
     (if effective_factor s snap < 0 then Inl (NegativeAgreedFactor (effective_factor s snap)) else Inr (the_placement s snap))"
  by (simp add: placement_of_def effective_factor_def [symmetric] Let_def placement_lens placement_primaries the_placement_def)

definition complete_nodes :: "Node list \<Rightarrow> bool" where
  "complete_nodes ns \<longleftrightarrow> (\<forall>n \<in> set ns. NodeID n \<noteq> [] \<and> Address n \<noteq> [])"

lemma check_members_from:
  "foldE check_member ns (ids, ads) = Inr st \<longleftrightarrow>
     complete_nodes ns \<and> unambiguous ns \<and> set (map NodeID ns) \<inter> set ids = {} \<and> set (map Address ns) \<inter> set ads = {} \<and>
     st = (rev (map NodeID ns) @ ids, rev (map Address ns) @ ads)"
proof (induction ns arbitrary: st rule: rev_induct)
  case (snoc n ns)
  show ?case
    unfolding foldE_snoc snoc
    by (auto simp: check_member_def complete_nodes_def unambiguous_def split: if_splits)
qed (auto simp: complete_nodes_def unambiguous_def)

lemma check_members: "(\<exists>st. foldE check_member ns ([], []) = Inr st) \<longleftrightarrow> complete_nodes ns \<and> unambiguous ns"
  unfolding check_members_from by simp

lemma service_snapshot_ok:
  "service_snapshot s ob = Inr snap \<longleftrightarrow>
     (svReadiness s \<longrightarrow> obReady ob = None) \<and> complete_nodes (Nodes (obSnapshot ob)) \<and> unambiguous (Nodes (obSnapshot ob)) \<and>
     snap = obSnapshot ob"
  using check_members [of "Nodes (obSnapshot ob)"]
  by (auto simp: service_snapshot_def split: option.splits sum.splits if_splits)

subsection \<open>The contract of the membership source\<close>

locale membership_source =
  fixes inv :: "'s \<Rightarrow> bool" and snap :: "'s \<Rightarrow> Snapshot"
  assumes complete: "inv x \<Longrightarrow> complete_nodes (Nodes (snap x))"
    and factor: "inv x \<Longrightarrow> ReplicationFactor (snap x) = Some f \<Longrightarrow> 0 \<le> f"
begin

lemma factor_ok: "inv x \<Longrightarrow> 0 \<le> svReplicationFactor s \<Longrightarrow> 0 \<le> effective_factor s (snap x)"
  using factor by (auto simp: effective_factor_def split: option.split)

lemma answers_iff:
  assumes "inv x" and "0 \<le> svReplicationFactor s" and "obSnapshot ob = snap x"
  shows "(\<exists>n. GetNodeList order s ob = Inr n) \<longleftrightarrow>
    (svReadiness s \<longrightarrow> obReady ob = None) \<and> unambiguous (Nodes (snap x))"
proof -
  have "y = snap x" if "service_snapshot s ob = Inr y" for y
    using that assms(3) by (simp add: service_snapshot_ok)
  then have "(\<exists>n. GetNodeList order s ob = Inr n) \<longleftrightarrow> service_snapshot s ob = Inr (snap x)"
    using factor_ok [OF assms(1,2)] by (auto simp: GetNodeList_def placement_of_eq split: sum.splits)
  then show ?thesis
    using complete [OF assms(1)] assms(3) by (simp add: service_snapshot_ok)
qed

end

locale unambiguous_source = membership_source +
  assumes distinct_nodes: "inv x \<Longrightarrow> unambiguous (Nodes (snap x))"
begin

lemma always_answers:
  assumes "inv x" and "0 \<le> svReplicationFactor s" and "obSnapshot ob = snap x" and "svReadiness s \<longrightarrow> obReady ob = None"
  shows "service_snapshot s ob = Inr (snap x) \<and> 0 \<le> effective_factor s (snap x)"
  using assms complete [OF assms(1)] distinct_nodes [OF assms(1)] factor_ok [OF assms(1,2)]
  by (simp add: service_snapshot_ok)

end

lemma wf_nodes_complete: "wf_nodes ns \<Longrightarrow> complete_nodes ns"
proof -
  have "validateServiceAddress [] \<noteq> Inr ()"
    by (simp add: validateServiceAddress_def SplitHostPort_def last_index_def first_index_def)
  then show "wf_nodes ns \<Longrightarrow> complete_nodes ns"
    by (auto simp: wf_nodes_def complete_nodes_def node_ok_def nodeIDPattern_def)
qed

interpretation gossip: unambiguous_source "view_inv lim" view_Snapshot
  by unfold_locales
    (auto simp: view_inv_def view_Snapshot_def cloneSnapshot_def wf_nodes_def intro: wf_nodes_complete)

interpretation raft: membership_source "\<lambda>st. fsm_inv (stFsm st)" store_Snapshot
  by unfold_locales
    (auto simp: fsm_inv_def content_ok_def store_Snapshot_def State_Snapshot_def fsm_State_def Clone_def incomplete_def
      complete_nodes_def list_ex_iff)

subsection \<open>What is published is accepted\<close>

lemma Fetch_decides:
  assumes "1 \<le> k" and "k \<le> 8" and "\<forall>j. 1 \<le> j \<and> j < k \<longrightarrow> fetch_attempt (attempts j) = None"
    and "fetch_attempt (attempts k) = Some r"
  shows "Fetch attempts = r"
proof -
  have "find (\<lambda>j. fetch_attempt (attempts j) \<noteq> None) [1..<9] = Some k"
    unfolding find_Some_iff using assms by (intro exI [of _ "k - 1"]) (auto simp del: upt_Suc)
  then show ?thesis
    using assms(4) by (simp add: Fetch_def fetch_loop_find maxCoherenceAttempts_def del: upt_Suc)
qed

definition wire_node :: "Node \<Rightarrow> NodeInfo option" where
  "wire_node n = Some \<lparr>niNodeId = NodeID n, niAddress = Address n, niAlive = True\<rparr>"

lemma wire_nodes_ok: "complete_nodes ns \<Longrightarrow> unambiguous ns \<Longrightarrow> nodes_ok (map wire_node ns)"
  by (auto simp: nodes_ok_def complete_nodes_def unambiguous_def wire_node_def comp_def)

lemma wire_node_map: "node_map (map wire_node ns) = fold (\<lambda>node. fmupd (NodeID node) (Address node)) ns fmempty"
  by (simp add: node_map_def fold_map comp_def wire_node_def)

lemma wire_node_known: "n \<in> set ns \<Longrightarrow> fmlookup (node_map (map wire_node ns)) (NodeID n) \<noteq> None"
  by (auto simp: node_map_dom wire_node_def image_image)

lemma placement_shard_ok:
  assumes "unambiguous ns" and "ns \<noteq> []" and "shard < n"
  shows "shard_ok (node_map (map wire_node ns)) (AssignShards (map NodeID ns) n)
    (fmmap (\<lambda>o'. Some (ShardOwners (Primary o') (Replicas o'))) (AssignShardOwners (map NodeID ns) n rf)) shard"
proof -
  let ?ids = "map NodeID ns"
  obtain p rest where r: "ranking shard ?ids = p # rest"
    using assms(2) by (cases "ranking shard ?ids") auto
  have d: "distinct (p # rest)"
    using assms(1) distinct_ranking [of shard ?ids] by (simp only: r unambiguous_def)
  have known: "fmlookup (node_map (map wire_node ns)) x \<noteq> None" if "x \<in> set (p # rest)" for x
  proof -
    have "x \<in> NodeID ` set ns"
      using that set_ranking [of shard ?ids] by (simp only: r set_map)
    then show ?thesis
      using wire_node_known by blast
  qed
  have "replicas_ok (node_map (map wire_node ns)) (ShardOwners p (take (nat rf) rest))"
    using d known by (auto simp: replicas_ok_def dest: in_set_takeD)
  then show ?thesis
    using assms(2,3) r known [of p] by (simp add: shard_ok_def AssignShards_lookup AssignShardOwners_lookup)
qed

lemma placement_responses_ok:
  assumes "complete_nodes ns" and "unambiguous ns" and "n \<noteq> 0"
  shows "responses_ok n (map wire_node ns) (AssignShards (map NodeID ns) n)
    (fmmap (\<lambda>o'. Some (ShardOwners (Primary o') (Replicas o'))) (AssignShardOwners (map NodeID ns) n rf))"
proof (cases "ns = []")
  case True
  then show ?thesis
    using assms by (simp add: responses_ok_def nodes_ok_def AssignShards_def AssignShardOwners_def)
next
  case False
  then show ?thesis
    using assms wire_nodes_ok [OF assms(1,2)] placement_shard_ok [OF assms(2) False]
    by (auto simp: responses_ok_def AssignShards_lookup AssignShardOwners_lookup list_all_iff)
qed

lemma fmmap_Some_owners: "fmmap the (fmmap Some m) = m"
  by (rule fmap_ext) (simp add: option.map_comp comp_def option.map_ident)

lemma fetch_attempt_published:
  assumes "svShardCount s \<noteq> 0" and "GetNodeList o1 s ob1 = Inr n" and "GetShardMap o2 s ob2 = Inr m"
    and "Nodes (obSnapshot ob1) = Nodes (obSnapshot ob2)"
    and "effective_factor s (obSnapshot ob1) = effective_factor s (obSnapshot ob2)"
    and "length (Nodes (obSnapshot ob1)) < 2 ^ 32"
    and "atContext a = None" and "atNodes a = Inr n" and "atShards a = Inr m"
  shows "\<exists>t. fetch_attempt a = Some (Inr t) \<and> tGeneration t = Generation (obSnapshot ob2) \<and>
    topology_FingerprintInput t = fingerprintInput (the_placement s (obSnapshot ob2)) \<and>
    tFingerprint t = Fingerprint (fingerprintInput (the_placement s (obSnapshot ob2)))"
proof -
  let ?p = "the_placement s (obSnapshot ob2)"
  let ?ns = "Nodes (obSnapshot ob2)"
  have p: "the_placement s (obSnapshot ob1) = ?p"
    using assms(4,5) by (simp add: the_placement_def)
  have ok: "complete_nodes ?ns" "unambiguous ?ns" "0 \<le> effective_factor s (obSnapshot ob2)"
    using assms(3) by (auto simp: GetShardMap_def placement_of_eq service_snapshot_ok split: sum.splits if_splits)
  have n: "nlNodes n = map wire_node ?ns" "nlFingerprint n = Fingerprint (fingerprintInput ?p)"
    using assms(2,4,5) p
    by (auto simp: GetNodeList_def placement_of_eq service_snapshot_ok wire_node_def split: sum.splits if_splits)
  have m: "smShardToNodeId m = plShardMap ?p" "smGeneration m = Generation (obSnapshot ob2)"
      "smFingerprint m = Fingerprint (fingerprintInput ?p)" "smShardCount m = svShardCount s"
      "smShardToOwners m = fmmap (\<lambda>o'. Some (ShardOwners (Primary o') (Replicas o'))) (plOwners ?p)"
      "smReplicationFactor m = plReplicationFactor ?p"
    using assms(3) by (auto simp: GetShardMap_def placement_of_eq service_snapshot_ok split: sum.splits if_splits)
  have v: "validate (smGeneration m) (smShardCount m) (nlNodes n) (smShardToNodeId m) (smShardToOwners m) (smReplicationFactor m)
      = Inr (accepted (smGeneration m) (smShardCount m) (nlNodes n) (smShardToNodeId m) (smShardToOwners m) (smReplicationFactor m))"
    using validate_exact [of "nlNodes n"] placement_responses_ok [OF ok(1,2) assms(1)] assms(4,6)
    by (simp add: n m the_placement_def)
  have fp: "topology_FingerprintInput (accepted (smGeneration m) (smShardCount m) (nlNodes n) (smShardToNodeId m)
      (smShardToOwners m) (smReplicationFactor m)) = fingerprintInput ?p"
    by (simp add: n m accepted_def topology_FingerprintInput_def fingerprintInput_def fmmap_Some_owners wire_node_map)
      (simp add: the_placement_def)
  have len: "length (Fingerprint (fingerprintInput ?p)) = FingerprintSize"
    by (simp add: Fingerprint_def FingerprintSize_def)
  then have ne: "Fingerprint (fingerprintInput ?p) \<noteq> []"
    by (auto simp: FingerprintSize_def)
  show ?thesis
    using assms(7-9) v fp len ne
    by (auto simp: fetch_attempt_def n(2) m(3) Let_def) (auto simp: m accepted_def topology_FingerprintInput_def FingerprintSize_def)
qed

subsection \<open>Properties\<close>

text \<open>
  C30: The assertion in \<open>placement\<close> never fires: for every snapshot and every order in which Go
  visits the shard map, the two placements have the same shards and the same primaries, and the
  only error is a negative factor.
\<close>

theorem placement_never_disagrees:
  "placement_of order s snap =
     (let f = (case ReplicationFactor snap of Some f \<Rightarrow> f | None \<Rightarrow> svReplicationFactor s);
          ids = map NodeID (Nodes snap)
      in if f < 0 then Inl (NegativeAgreedFactor f)
         else Inr \<lparr>plShardCount = svShardCount s, plReplicationFactor = word_of_int f,
           plAddresses = fold (\<lambda>node. fmupd (NodeID node) (Address node)) (Nodes snap) fmempty,
           plShardMap = AssignShards ids (svShardCount s), plOwners = AssignShardOwners ids (svShardCount s) f\<rparr>)"
  by (simp add: placement_of_eq Let_def effective_factor_def the_placement_def)

text \<open>
  C8: What the service publishes is accepted.  When the two responses of an attempt come from
  snapshots with the same nodes and factor, even under different generations and from different
  replicas, \<open>Fetch\<close> returns the placement the service computed, unless an earlier attempt decided.
\<close>

theorem published_topology_fetched:
  assumes "svShardCount s \<noteq> 0" and "GetNodeList o1 s ob1 = Inr n" and "GetShardMap o2 s ob2 = Inr m"
    and "Nodes (obSnapshot ob1) = Nodes (obSnapshot ob2)"
    and "effective_factor s (obSnapshot ob1) = effective_factor s (obSnapshot ob2)"
    and "length (Nodes (obSnapshot ob1)) < 2 ^ 32"
    and "1 \<le> k" and "k \<le> 8" and "\<forall>j. 1 \<le> j \<and> j < k \<longrightarrow> fetch_attempt (attempts j) = None"
    and "attempts k = \<lparr>atContext = None, atNodes = Inr n, atShards = Inr m\<rparr>"
  shows "\<exists>t. Fetch attempts = Inr t \<and> tGeneration t = Generation (obSnapshot ob2) \<and>
    topology_FingerprintInput t = fingerprintInput (the_placement s (obSnapshot ob2)) \<and>
    tFingerprint t = Fingerprint (fingerprintInput (the_placement s (obSnapshot ob2)))"
proof -
  obtain t where t: "fetch_attempt (attempts k) = Some (Inr t)" "tGeneration t = Generation (obSnapshot ob2)"
      "topology_FingerprintInput t = fingerprintInput (the_placement s (obSnapshot ob2))"
      "tFingerprint t = Fingerprint (fingerprintInput (the_placement s (obSnapshot ob2)))"
    using fetch_attempt_published [OF assms(1-6), of "attempts k"] assms(10) by auto
  then show ?thesis
    using Fetch_decides [OF assms(7,8,9) t(1)] by auto
qed

definition sample_service :: Service where
  "sample_service = \<lparr>svShardCount = 2, svReplicationFactor = 1, svReadiness = False, svConfigPath = [], svStarted = 0,
     svLeaderInfo = False\<rparr>"

definition view_obs :: "view \<Rightarrow> unit svcObs" where
  "view_obs v = \<lparr>obReady = None, obSnapshot = view_Snapshot v, obLeader = ([], 0)\<rparr>"

lemma sample_answers:
  assumes "view_reach 512 v"
  shows "\<exists>n. GetNodeList [0, 1] sample_service (view_obs v) = Inr n" "\<exists>m. GetShardMap [1, 0] sample_service (view_obs v) = Inr m"
  using gossip.always_answers [OF view_inv_reach [OF assms], of sample_service "view_obs v"]
  by (simp_all add: sample_service_def view_obs_def GetNodeList_def GetShardMap_def placement_of_eq)

theorem published_topology_fetched_witness:
  "\<exists>n m t. GetNodeList [0, 1] sample_service (view_obs sample_view) = Inr n \<and>
     GetShardMap [1, 0] sample_service (view_obs rejoined_view) = Inr m \<and>
     Generation (obSnapshot (view_obs sample_view)) \<noteq> Generation (obSnapshot (view_obs rejoined_view)) \<and>
     Fetch (\<lambda>_. \<lparr>atContext = None :: unit option, atNodes = Inr n, atShards = Inr m\<rparr>) = Inr t"
proof -
  obtain n m where nm: "GetNodeList [0, 1] sample_service (view_obs sample_view) = Inr n"
      "GetShardMap [1, 0] sample_service (view_obs rejoined_view) = Inr m"
    using sample_answers [OF sample_reach] sample_answers [OF rejoined_reach] by blast
  have "\<exists>t. Fetch (\<lambda>_. \<lparr>atContext = None :: unit option, atNodes = Inr n, atShards = Inr m\<rparr>) = Inr t"
    using published_topology_fetched [OF _ nm, of 1 "\<lambda>_. \<lparr>atContext = None, atNodes = Inr n, atShards = Inr m\<rparr>"]
    by (auto simp: sample_service_def view_obs_def view_Snapshot_def cloneSnapshot_def rejoined_view_def sample_view_def
        effective_factor_def)
  with nm show ?thesis
    by (simp add: view_obs_def view_Snapshot_def cloneSnapshot_def rejoined_view_def sample_view_def)
qed

text \<open>
  A service over the gossip view of any reachable state always answers, and its two handlers
  answer from the same placement.
\<close>

theorem gossip_service_answers:
  assumes "view_reach lim v" and "0 \<le> svReplicationFactor s" and "\<not> svReadiness s" and "obSnapshot ob = view_Snapshot v"
  shows "\<exists>n m. GetNodeList o1 s ob = Inr n \<and> GetShardMap o2 s ob = Inr m \<and> nlFingerprint n = smFingerprint m \<and>
    nlGeneration n = Generation (current v) \<and> map (niNodeId \<circ> the) (nlNodes n) = map NodeID (Nodes (current v)) \<and>
    smShardToNodeId m = AssignShards (map NodeID (Nodes (current v))) (svShardCount s)"
  using gossip.always_answers [OF view_inv_reach [OF assms(1)] assms(2), of ob] assms(3,4)
  by (simp add: GetNodeList_def GetShardMap_def placement_of_eq the_placement_def view_Snapshot_def cloneSnapshot_def)

theorem gossip_service_answers_witness:
  "view_reach 512 sample_view \<and>
   (\<exists>n m. GetNodeList [0, 1] sample_service (view_obs sample_view) = Inr n \<and>
      GetShardMap [1, 0] sample_service (view_obs sample_view) = Inr m \<and> nlFingerprint n = smFingerprint m)"
  using gossip_service_answers [OF sample_reach, of sample_service "view_obs sample_view" "[0, 1]" "[1, 0]"] sample_reach
  by (auto simp: sample_service_def view_obs_def)

end
