(* ===== verification/Transport.thy ===== *)
theory Transport
  imports Pulse_Prelude
begin

text \<open>
  \<^verbatim>\<open>internal/transport/transport.go\<close>: reading and writing values of any size over the node's
  unary and chunked calls.

  The node is reached through generated code; what its calls return are parameters.  A
  client-streaming call sends a list of frames, of which some may fail; a server-streaming
  call is the list of frames received (\<open>None\<close>: a nil message) and how the stream ended
  (\<open>None\<close>: \<^verbatim>\<open>io.EOF\<close>).

  The lemmas show that what a large write sends is what a chunked read accepts, and that a
  chunked read never returns a value other than the one declared by the stream.
\<close>

subsection \<open>Limits and modes\<close>

definition UnaryValueLimit :: nat where
  "UnaryValueLimit = 4194304"

definition ChunkSize :: nat where
  "ChunkSize = 1024 * 1024"

type_synonym ReadMode = u8

definition ReadAuto :: ReadMode where "ReadAuto = 0"
definition ReadUnary :: ReadMode where "ReadUnary = 1"
definition ReadChunked :: ReadMode where "ReadChunked = 2"

definition ReadModeForSize :: "int \<Rightarrow> ReadMode" where
  "ReadModeForSize n = (if n > int UnaryValueLimit then ReadChunked else ReadUnary)"

subsection \<open>Writing\<close>

record PutRequest =
  prKey :: bytes
  prValue :: bytes
  prAcks :: u32

record PutChunk =
  pcKey :: bytes
  pcIndex :: u32
  pcTotalChunks :: u32
  pcTotalLength :: u64
  pcData :: bytes

text \<open>What the node answers: the unary call, opening the stream, each send and the final reply.\<close>

record 'e putEnv =
  pePut :: "PutRequest \<Rightarrow> 'e + u32"
  peOpen :: "'e option"
  peSend :: "PutChunk \<Rightarrow> 'e option"
  peClose :: "'e option"

datatype 'e put_error =
    ErrChunkedAcksUnsupported nat
  | TooManyChunks nat
  | PutRPC 'e

datatype put_call = UnaryPut PutRequest | OpenedStream | SentChunk PutChunk

definition chunk_at :: "bytes \<Rightarrow> bytes \<Rightarrow> nat \<Rightarrow> nat \<Rightarrow> PutChunk" where
  "chunk_at key val totalChunks i =
     (let lo = i * ChunkSize; hi = min (lo + ChunkSize) (length val)
      in \<lparr>pcKey = (if i = 0 then key else []), pcIndex = word_of_nat i, pcTotalChunks = word_of_nat totalChunks,
          pcTotalLength = word_of_nat (length val), pcData = drop lo (take hi val)\<rparr>)"

fun send_all :: "('c \<Rightarrow> 'e option) \<Rightarrow> 'c list \<Rightarrow> 'c list \<times> 'e option" where
  "send_all send [] = ([], None)"
| "send_all send (c # cs) =
     (case send c of
        Some e \<Rightarrow> ([c], Some e)
      | None \<Rightarrow> (let (sent, r) = send_all send cs in (c # sent, r)))"

definition transport_PutWithAck ::
    "'e putEnv \<Rightarrow> bytes \<Rightarrow> bytes \<Rightarrow> u32 \<Rightarrow> put_call list \<times> ('e put_error + u32)" where
  "transport_PutWithAck env key val acks =
     (if length val \<le> UnaryValueLimit then
        (let req = \<lparr>prKey = key, prValue = val, prAcks = acks\<rparr>
         in ([UnaryPut req], case pePut env req of Inl e \<Rightarrow> Inl (PutRPC e) | Inr acked \<Rightarrow> Inr acked))
      else if acks > 0 then ([], Inl (ErrChunkedAcksUnsupported (length val)))
      else
        (let totalChunks = 1 + (length val - 1) div ChunkSize
         in if totalChunks > 2 ^ 32 - 1 then ([], Inl (TooManyChunks totalChunks))
            else case peOpen env of
                Some e \<Rightarrow> ([], Inl (PutRPC e))
              | None \<Rightarrow>
                  (case send_all (peSend env) (map (chunk_at key val totalChunks) [0..<totalChunks]) of
                     (sent, Some e) \<Rightarrow> (OpenedStream # map SentChunk sent, Inl (PutRPC e))
                   | (sent, None) \<Rightarrow>
                       (OpenedStream # map SentChunk sent,
                        case peClose env of Some e \<Rightarrow> Inl (PutRPC e) | None \<Rightarrow> Inr 0))))"

definition transport_Put :: "'e putEnv \<Rightarrow> bytes \<Rightarrow> bytes \<Rightarrow> put_call list \<times> 'e put_error option" where
  "transport_Put env key val =
     (case transport_PutWithAck env key val 0 of
        (calls, Inl e) \<Rightarrow> (calls, Some e)
      | (calls, Inr _) \<Rightarrow> (calls, None))"

subsection \<open>Reading\<close>

record GetChunk =
  gcIndex :: u32
  gcTotalChunks :: u32
  gcTotalLength :: u64
  gcData :: bytes

text \<open>\<open>geGet\<close>: the response is \<open>None\<close> for nil, otherwise the value if it was found.\<close>

record 'e getEnv =
  geGet :: "'e + bytes option option"
  geOpen :: "'e option"
  geFrames :: "GetChunk option list"
  geEnd :: "'e option"
  geFailedPrecondition :: "'e \<Rightarrow> bool"

datatype 'e get_error =
    GetRPC 'e
  | NilResponse
  | InvalidReadMode ReadMode
  | EndedAfter u64 u32
  | ReturnedBytes u64 u64
  | NilChunk
  | ZeroTotalChunks
  | ChangedMetadata u64
  | MoreThanTotal u32
  | WrongIndex u32 u64
  | ExceedsTotalLength u64

definition getUnary :: "'e getEnv \<Rightarrow> 'e get_error + bytes option" where
  "getUnary env =
     (case geGet env of
        Inl e \<Rightarrow> Inl (GetRPC e)
      | Inr None \<Rightarrow> Inl NilResponse
      | Inr (Some found) \<Rightarrow> Inr found)"

record chunkState =
  out :: bytes
  totalChunks :: u32
  totalLength :: u64
  receivedChunks :: u64
  receivedLength :: u64

definition chunk_start :: chunkState where
  "chunk_start = \<lparr>out = [], totalChunks = 0, totalLength = 0, receivedChunks = 0, receivedLength = 0\<rparr>"

definition recv_end :: "'e option \<Rightarrow> chunkState \<Rightarrow> 'e get_error + bytes option" where
  "recv_end fin s =
     (case fin of
        Some e \<Rightarrow> Inl (GetRPC e)
      | None \<Rightarrow>
          if receivedChunks s = 0 then Inr None
          else if receivedChunks s \<noteq> ucast (totalChunks s) then Inl (EndedAfter (receivedChunks s) (totalChunks s))
          else if receivedLength s \<noteq> totalLength s then Inl (ReturnedBytes (receivedLength s) (totalLength s))
          else Inr (Some (out s)))"

definition recv_chunk :: "GetChunk option \<Rightarrow> chunkState \<Rightarrow> 'e get_error + chunkState" where
  "recv_chunk frame s =
     (case frame of
        None \<Rightarrow> Inl NilChunk
      | Some chunk \<Rightarrow>
          (let first = (receivedChunks s = 0);
               total = (if first then gcTotalChunks chunk else totalChunks s);
               len = (if first then gcTotalLength chunk else totalLength s);
               dataLength = (word_of_nat (length (gcData chunk)) :: u64)
           in if first \<and> total = 0 then Inl ZeroTotalChunks
              else if \<not> first \<and> (gcTotalChunks chunk \<noteq> total \<or> gcTotalLength chunk \<noteq> len)
                then Inl (ChangedMetadata (receivedChunks s))
              else if receivedChunks s \<ge> ucast total then Inl (MoreThanTotal total)
              else if gcIndex chunk \<noteq> ucast (receivedChunks s) then Inl (WrongIndex (gcIndex chunk) (receivedChunks s))
              else if dataLength > len - receivedLength s then Inl (ExceedsTotalLength len)
              else Inr \<lparr>out = out s @ gcData chunk, totalChunks = total, totalLength = len,
                        receivedChunks = receivedChunks s + 1, receivedLength = receivedLength s + dataLength\<rparr>))"

definition getChunked :: "'e getEnv \<Rightarrow> 'e get_error + bytes option" where
  "getChunked env =
     (case geOpen env of
        Some e \<Rightarrow> Inl (GetRPC e)
      | None \<Rightarrow>
          (case foldE recv_chunk (geFrames env) chunk_start of
             Inl e \<Rightarrow> Inl e
           | Inr s \<Rightarrow> recv_end (geEnd env) s))"

definition GetWithMode :: "'e getEnv \<Rightarrow> ReadMode \<Rightarrow> 'e get_error + bytes option" where
  "GetWithMode env mode =
     (if mode = ReadAuto then
        (case getUnary env of
           Inl (GetRPC e) \<Rightarrow> if geFailedPrecondition env e then getChunked env else Inl (GetRPC e)
         | r \<Rightarrow> r)
      else if mode = ReadUnary then getUnary env
      else if mode = ReadChunked then getChunked env
      else Inl (InvalidReadMode mode))"

definition transport_Get :: "'e getEnv \<Rightarrow> 'e get_error + bytes option" where
  "transport_Get env = GetWithMode env ReadAuto"

subsection \<open>What a chunked read accepts\<close>

definition chunk_data :: "GetChunk list \<Rightarrow> bytes" where
  "chunk_data cs = concat (map gcData cs)"

text \<open>A prefix of a stream whose frames agree and count up.\<close>

definition framed :: "GetChunk list \<Rightarrow> bool" where
  "framed cs \<longleftrightarrow>
     (\<forall>i < length cs. gcIndex (cs ! i) = of_nat i \<and> gcTotalChunks (cs ! i) = gcTotalChunks (hd cs) \<and>
        gcTotalLength (cs ! i) = gcTotalLength (hd cs)) \<and>
     (cs \<noteq> [] \<longrightarrow> length cs \<le> unat (gcTotalChunks (hd cs)) \<and> length (chunk_data cs) \<le> unat (gcTotalLength (hd cs)))"

definition state_of :: "GetChunk list \<Rightarrow> chunkState" where
  "state_of cs =
     \<lparr>out = chunk_data cs, totalChunks = (if cs = [] then 0 else gcTotalChunks (hd cs)),
      totalLength = (if cs = [] then 0 else gcTotalLength (hd cs)), receivedChunks = of_nat (length cs),
      receivedLength = of_nat (length (chunk_data cs))\<rparr>"

lemma chunk_data_simps [simp]: "chunk_data [] = []" "chunk_data (cs @ [c]) = chunk_data cs @ gcData c"
  by (simp_all add: chunk_data_def)

lemma framed_Nil [simp]: "framed []"
  by (simp add: framed_def)

lemma framed_snoc:
  "framed (cs @ [c]) \<longleftrightarrow> framed cs \<and> gcIndex c = of_nat (length cs) \<and>
     (let h = (if cs = [] then c else hd cs)
      in gcTotalChunks c = gcTotalChunks h \<and> gcTotalLength c = gcTotalLength h \<and>
         Suc (length cs) \<le> unat (gcTotalChunks h) \<and> length (chunk_data cs) + length (gcData c) \<le> unat (gcTotalLength h))"
proof (cases "cs = []")
  case True
  then show ?thesis
    by (auto simp: framed_def chunk_data_def)
next
  case False
  then show ?thesis
    by (auto simp: framed_def nth_append less_Suc_eq Let_def chunk_data_def)
qed

lemma unat_of_nat_u64: "k < 2 ^ 64 \<Longrightarrow> unat (word_of_nat k :: u64) = k"
  by (simp add: unat_of_nat)

lemma unat_ucast_u64 [simp]: "unat (ucast w :: u64) = unat w" for w :: u32
  using unsigned_less [of w, where ?'a = nat] by (simp add: unsigned_ucast_eq take_bit_nat_eq_self_iff)

lemma ucast_of_nat_u32: "(ucast (word_of_nat k :: u64) :: u32) = word_of_nat k"
  by transfer (simp add: take_bit_of_nat)

lemma recv_first:
  assumes "length (gcData c) < 2 ^ 64"
  shows "recv_chunk (Some c) (state_of []) = Inr s \<longleftrightarrow> framed [c] \<and> s = state_of [c]"
proof -
  have "0 < unat (gcTotalChunks c) \<longleftrightarrow> gcTotalChunks c \<noteq> 0"
    by (simp add: unat_gt_0)
  then show ?thesis
    using framed_snoc [of "[]" c] unat_of_nat_u64 [OF assms]
    by (auto simp: recv_chunk_def state_of_def Let_def word_less_nat_alt word_le_nat_alt Suc_le_eq chunk_data_def)
qed

lemma recv_next:
  assumes "framed cs" and "cs \<noteq> []" and "length (gcData c) < 2 ^ 64"
  shows "recv_chunk (Some c) (state_of cs) = Inr s \<longleftrightarrow> framed (cs @ [c]) \<and> s = state_of (cs @ [c])"
proof -
  let ?h = "hd cs"
  have h: "length cs \<le> unat (gcTotalChunks ?h)" "length (chunk_data cs) \<le> unat (gcTotalLength ?h)"
    using assms(1,2) by (auto simp: framed_def)
  have k: "length cs < 2 ^ 32"
    using le_less_trans [OF h(1) unsigned_less] by simp
  have l: "length (chunk_data cs) < 2 ^ 64"
    using le_less_trans [OF h(2) unsigned_less] by simp
  have n: "unat (word_of_nat (length cs) :: u64) = length cs" "(word_of_nat (length cs) :: u64) \<noteq> 0"
    using k assms(2) unat_of_nat_u64 [of "length cs"] by auto
  have idx: "(ucast (word_of_nat (length cs) :: u64) :: u32) = word_of_nat (length cs)"
    by (rule ucast_of_nat_u32)
  have cnt: "(word_of_nat (length cs) :: u64) \<ge> ucast (gcTotalChunks ?h) \<longleftrightarrow> \<not> Suc (length cs) \<le> unat (gcTotalChunks ?h)"
    using n(1) by (auto simp: word_le_nat_alt)
  have "unat (gcTotalLength ?h - word_of_nat (length (chunk_data cs))) = unat (gcTotalLength ?h) - length (chunk_data cs)"
    using h(2) unat_of_nat_u64 [OF l] by (subst unat_sub) (simp_all add: word_le_nat_alt)
  then have fits: "(word_of_nat (length (gcData c)) :: u64) > gcTotalLength ?h - word_of_nat (length (chunk_data cs)) \<longleftrightarrow>
      \<not> length (chunk_data cs) + length (gcData c) \<le> unat (gcTotalLength ?h)"
    using unat_of_nat_u64 [OF assms(3)] h(2) by (auto simp: word_less_nat_alt)
  show ?thesis
    using assms(1,2) framed_snoc [of cs c] n(2)
    by (auto simp: recv_chunk_def Let_def idx cnt fits state_of_def split: if_splits)
qed

lemma recv_all:
  assumes "list_all (\<lambda>c. length (gcData c) < 2 ^ 64) cs"
  shows "(foldE recv_chunk (map Some cs) chunk_start :: 'e get_error + chunkState) = Inr s \<longleftrightarrow> framed cs \<and> s = state_of cs"
  using assms
proof (induction cs arbitrary: s rule: rev_induct)
  case Nil
  show ?case
    by (auto simp: state_of_def chunk_start_def)
next
  case (snoc c cs)
  then have IH: "(foldE recv_chunk (map Some cs) chunk_start :: 'e get_error + chunkState) = Inr s \<longleftrightarrow> framed cs \<and> s = state_of cs" for s
    by simp
  have c: "length (gcData c) < 2 ^ 64"
    using snoc.prems by simp
  have "(foldE recv_chunk (map Some (cs @ [c])) chunk_start :: 'e get_error + chunkState) = Inr s \<longleftrightarrow>
      framed cs \<and> (recv_chunk (Some c) (state_of cs) :: 'e get_error + chunkState) = Inr s"
    by (auto simp: foldE_snoc IH)
  also have "\<dots> \<longleftrightarrow> framed (cs @ [c]) \<and> s = state_of (cs @ [c])"
    using recv_first [OF c, of s, where ?'a = 'e] recv_next [OF _ _ c, of cs s, where ?'a = 'e] framed_snoc [of cs c] by (cases "cs = []") auto
  finally show ?case .
qed

definition complete_stream :: "GetChunk list \<Rightarrow> bool" where
  "complete_stream cs \<longleftrightarrow> cs \<noteq> [] \<and> length cs < 2 ^ 32 \<and>
     (\<forall>i < length cs. gcIndex (cs ! i) = of_nat i \<and> gcTotalChunks (cs ! i) = of_nat (length cs) \<and>
        unat (gcTotalLength (cs ! i)) = length (chunk_data cs))"

lemma complete_framed:
  "complete_stream cs \<longleftrightarrow> cs \<noteq> [] \<and> framed cs \<and> length cs = unat (gcTotalChunks (hd cs)) \<and>
     length (chunk_data cs) = unat (gcTotalLength (hd cs))"
proof (cases "cs = []")
  case False
  then have 0: "0 < length cs" "cs ! 0 = hd cs"
    by (simp_all add: hd_conv_nth)
  show ?thesis
  proof
    assume c: "complete_stream cs"
    then have "gcTotalChunks (hd cs) = of_nat (length cs)" "unat (gcTotalLength (hd cs)) = length (chunk_data cs)"
        "length cs < 2 ^ 32"
      using 0 unfolding complete_stream_def by metis+
    then show "cs \<noteq> [] \<and> framed cs \<and> length cs = unat (gcTotalChunks (hd cs)) \<and>
        length (chunk_data cs) = unat (gcTotalLength (hd cs))"
      using c by (simp add: complete_stream_def framed_def unat_of_nat word_unat_eq_iff)
  next
    assume f: "cs \<noteq> [] \<and> framed cs \<and> length cs = unat (gcTotalChunks (hd cs)) \<and>
        length (chunk_data cs) = unat (gcTotalLength (hd cs))"
    then have "of_nat (length cs) = gcTotalChunks (hd cs)"
      by simp
    moreover have "length cs < 2 ^ 32"
      using f unsigned_less [of "gcTotalChunks (hd cs)", where ?'a = nat] by simp
    ultimately show "complete_stream cs"
      using f by (simp add: complete_stream_def framed_def)
  qed
qed (simp add: complete_stream_def)

lemma recv_nil:
  assumes "(foldE recv_chunk fs s :: 'e get_error + chunkState) = Inr s'"
  shows "\<exists>cs. fs = map Some cs"
  using assms
proof (induction fs arbitrary: s)
  case (Cons f fs)
  obtain t where t: "(recv_chunk f s :: 'e get_error + chunkState) = Inr t"
      "(foldE recv_chunk fs t :: 'e get_error + chunkState) = Inr s'"
    using Cons.prems by (auto split: sum.splits)
  then obtain c where "f = Some c"
    by (cases f) (simp_all add: recv_chunk_def)
  with Cons.IH [OF t(2)] show ?case
    by (metis list.simps(9))
qed simp

lemma recv_end_state:
  assumes "framed cs" and "cs \<noteq> []"
  shows "(recv_end None (state_of cs) :: 'e get_error + bytes option) = Inr (Some v) \<longleftrightarrow> complete_stream cs \<and> v = chunk_data cs"
    and "(recv_end None (state_of cs) :: 'e get_error + bytes option) \<noteq> Inr None"
proof -
  have h: "length cs \<le> unat (gcTotalChunks (hd cs))" "length (chunk_data cs) \<le> unat (gcTotalLength (hd cs))"
    using assms by (auto simp: framed_def)
  have u: "unat (word_of_nat (length cs) :: u64) = length cs"
      "unat (word_of_nat (length (chunk_data cs)) :: u64) = length (chunk_data cs)"
    using le_less_trans [OF h(1) unsigned_less] le_less_trans [OF h(2) unsigned_less] by (simp_all add: unat_of_nat)
  have "(word_of_nat (length cs) :: u64) \<noteq> 0"
    using u(1) assms(2) by auto
  moreover have "(word_of_nat (length cs) :: u64) = ucast (gcTotalChunks (hd cs)) \<longleftrightarrow> length cs = unat (gcTotalChunks (hd cs))"
    "(word_of_nat (length (chunk_data cs)) :: u64) = gcTotalLength (hd cs) \<longleftrightarrow> length (chunk_data cs) = unat (gcTotalLength (hd cs))"
    using u by (simp_all add: word_unat_eq_iff)
  ultimately show "(recv_end None (state_of cs) :: 'e get_error + bytes option) = Inr (Some v) \<longleftrightarrow> complete_stream cs \<and> v = chunk_data cs"
      "(recv_end None (state_of cs) :: 'e get_error + bytes option) \<noteq> Inr None"
    using assms by (auto simp: recv_end_def state_of_def complete_framed)
qed

subsection \<open>Properties\<close>

definition frames_fit :: "'e getEnv \<Rightarrow> bool" where
  "frames_fit env \<longleftrightarrow> (\<forall>c. Some c \<in> set (geFrames env) \<longrightarrow> length (gcData c) < 2 ^ 64)"

lemma getChunked_exact:
  fixes env :: "'e getEnv"
  assumes "frames_fit env"
  shows "getChunked env = Inr (Some v) \<longleftrightarrow> geOpen env = None \<and> geEnd env = None \<and>
      (\<exists>cs. geFrames env = map Some cs \<and> complete_stream cs \<and> v = chunk_data cs)" (is "?L \<longleftrightarrow> ?R")
    and "getChunked env = Inr None \<longleftrightarrow> geOpen env = None \<and> geEnd env = None \<and> geFrames env = []"
proof -
  have fit: "list_all (\<lambda>c. length (gcData c) < 2 ^ 64) cs" if "geFrames env = map Some cs" for cs
    using assms that by (auto simp: frames_fit_def list_all_iff)
  have run: "getChunked env = recv_end None (state_of cs) \<and> framed cs \<and> geOpen env = None \<and> geEnd env = None"
    if r: "getChunked env = Inr r" and f: "geFrames env = map Some cs" for r cs
  proof -
    obtain t where t: "geOpen env = None" "(foldE recv_chunk (map Some cs) chunk_start :: 'e get_error + chunkState) = Inr t"
        "recv_end (geEnd env) t = Inr r"
      using r f by (auto simp: getChunked_def split: option.splits sum.splits)
    moreover have "framed cs" "t = state_of cs"
      using recv_all [OF fit [OF f], of t, where ?'e = 'e] t(2) by auto
    moreover have "geEnd env = None"
      using t(3) by (cases "geEnd env") (simp_all add: recv_end_def)
    ultimately show ?thesis
      using r by simp
  qed
  have some: "\<exists>cs. geFrames env = map Some cs" if "getChunked env = Inr r" for r
    using that by (auto simp: getChunked_def dest: recv_nil split: option.splits sum.splits)
  have conv: "getChunked env = recv_end None (state_of cs)"
    if "geOpen env = None" "geEnd env = None" "geFrames env = map Some cs" "framed cs" for cs
    using that recv_all [OF fit [OF that(3)], of "state_of cs", where ?'e = 'e] by (simp add: getChunked_def)
  have Nil: "(recv_end None (state_of []) :: 'e get_error + bytes option) = Inr None"
    by (simp add: recv_end_def state_of_def)
  show "?L \<longleftrightarrow> ?R"
  proof
    assume L: ?L
    then obtain cs where cs: "geFrames env = map Some cs"
      using some by blast
    with run [OF L cs] L Nil have "cs \<noteq> []"
      by auto
    then show ?R
      using run [OF L cs] L cs recv_end_state(1) [of cs v, where ?'e = 'e] by auto
  next
    assume ?R
    then show ?L
      using conv recv_end_state(1) [where ?'e = 'e] by (auto simp: complete_framed)
  qed
  show "getChunked env = Inr None \<longleftrightarrow> geOpen env = None \<and> geEnd env = None \<and> geFrames env = []"
  proof
    assume L: "getChunked env = Inr None"
    then obtain cs where cs: "geFrames env = map Some cs"
      using some by blast
    then show "geOpen env = None \<and> geEnd env = None \<and> geFrames env = []"
      using run [OF L cs] L recv_end_state(2) [of cs, where ?'e = 'e] by auto
  next
    assume "geOpen env = None \<and> geEnd env = None \<and> geFrames env = []"
    then show "getChunked env = Inr None"
      using conv [of "[]"] Nil by simp
  qed
qed

text \<open>The frame a node would return for a frame it was sent.\<close>

definition as_get :: "PutChunk \<Rightarrow> GetChunk" where
  "as_get c = \<lparr>gcIndex = pcIndex c, gcTotalChunks = pcTotalChunks c, gcTotalLength = pcTotalLength c, gcData = pcData c\<rparr>"

lemma concat_blocks: "concat (map (\<lambda>i. take n (drop (i * n) xs)) [0..<k]) = take (k * n) xs"
proof (induction k)
  case (Suc k)
  then show ?case
    using take_add [of "k * n" n xs] by (simp add: add.commute)
qed simp

lemma chunk_at_data: "pcData (chunk_at key val n i) = take ChunkSize (drop (i * ChunkSize) val)"
  by (auto simp: chunk_at_def Let_def min_def take_drop add.commute)

lemma chunks_complete:
  assumes "val \<noteq> []" and "1 + (length val - 1) div ChunkSize \<le> 2 ^ 32 - 1"
  shows "complete_stream (map (as_get \<circ> chunk_at key val (1 + (length val - 1) div ChunkSize)) [0..<1 + (length val - 1) div ChunkSize])"
    (is "complete_stream ?cs")
    and "chunk_data (map (as_get \<circ> chunk_at key val (1 + (length val - 1) div ChunkSize)) [0..<1 + (length val - 1) div ChunkSize]) = val"
proof -
  let ?n = "1 + (length val - 1) div ChunkSize"
  have "length val - 1 < ?n * ChunkSize"
    using div_mult_mod_eq [of "length val - 1" ChunkSize] mod_less_divisor [of ChunkSize "length val - 1"]
    by (simp add: ChunkSize_def)
  then have cover: "length val \<le> ?n * ChunkSize"
    using assms(1) by (cases val) auto
  show "chunk_data ?cs = val"
    using concat_blocks [of ChunkSize val ?n] cover
    by (simp add: chunk_data_def comp_def as_get_def chunk_at_data del: upt_Suc)
  then have data: "length (chunk_data ?cs) = length val"
    by simp
  have "?n * ChunkSize \<le> (2 ^ 32 - 1) * ChunkSize"
    using assms(2) by (intro mult_right_mono) simp_all
  then have "length val < 2 ^ 64"
    using cover by (simp add: ChunkSize_def)
  then have "unat (word_of_nat (length val) :: u64) = length val"
    by (rule unat_of_nat_u64)
  then show "complete_stream ?cs"
    unfolding complete_stream_def data using assms(2)
    by (auto simp: as_get_def chunk_at_def Let_def simp del: upt_Suc)
qed

text \<open>
  A chunked read returns a value exactly when the stream ended normally and its frames are
  complete: numbered from 0, each declaring the number of frames and the length of the whole
  value; the value is their data.  It reports a miss exactly for an empty stream.  A truncated,
  reordered, repeated or inconsistent stream is always an error.
\<close>

theorem getChunked_returns:
  assumes "frames_fit env"
  shows "(getChunked env = Inr (Some v) \<longleftrightarrow> geOpen env = None \<and> geEnd env = None \<and>
      (\<exists>cs. geFrames env = map Some cs \<and> complete_stream cs \<and> v = chunk_data cs)) \<and>
    (getChunked env = Inr None \<longleftrightarrow> geOpen env = None \<and> geEnd env = None \<and> geFrames env = [])"
  using getChunked_exact [OF assms] by blast

lemma send_all_None: "(\<And>c. send c = None) \<Longrightarrow> send_all send cs = (cs, None)"
  by (induction cs) simp_all

text \<open>
  C16: Large values survive the wire.  A value above the unary limit is sent as frames that, returned
  by the node as they were received, make a chunked read return the same value.
\<close>

theorem chunked_roundtrip:
  assumes "UnaryValueLimit < length val" and "1 + (length val - 1) div ChunkSize \<le> 2 ^ 32 - 1"
    and "peOpen env = None" and "\<And>c. peSend env c = None" and "peClose env = None"
  shows "\<exists>cs. transport_PutWithAck env key val 0 = (OpenedStream # map SentChunk cs, Inr 0) \<and>
    getChunked \<lparr>geGet = g, geOpen = None, geFrames = map (Some \<circ> as_get) cs, geEnd = None, geFailedPrecondition = fp\<rparr>
      = Inr (Some val)"
proof -
  let ?n = "1 + (length val - 1) div ChunkSize"
  let ?cs = "map (chunk_at key val ?n) [0..<?n]"
  let ?env = "\<lparr>geGet = g, geOpen = None, geFrames = map (Some \<circ> as_get) ?cs, geEnd = None, geFailedPrecondition = fp\<rparr>"
  have "send_all (peSend env) ?cs = (?cs, None)"
    by (rule send_all_None) (rule assms(4))
  then have put: "transport_PutWithAck env key val 0 = (OpenedStream # map SentChunk ?cs, Inr 0)"
    using assms(1-3,5) by (simp add: transport_PutWithAck_def Let_def del: upt_Suc)
  have "val \<noteq> []"
    using assms(1) by auto
  note complete = chunks_complete [OF this assms(2), of key]
  define ds where "ds = map (as_get \<circ> chunk_at key val ?n) [0..<?n]"
  have fit: "frames_fit ?env"
    by (auto simp: frames_fit_def as_get_def chunk_at_data ChunkSize_def simp del: upt_Suc)
  have "geFrames ?env = map Some ds"
    by (simp add: ds_def comp_assoc del: upt_Suc)
  then have "getChunked ?env = Inr (Some val)"
    using getChunked_exact(1) [OF fit, of val] complete [folded ds_def] by auto
  with put show ?thesis
    by blast
qed

theorem chunked_roundtrip_witness:
  "\<exists>cs. transport_PutWithAck \<lparr>pePut = \<lambda>_. Inl (), peOpen = None, peSend = \<lambda>_. None, peClose = None\<rparr> ''k''
       (replicate 4194305 CHR ''v'') 0 = (OpenedStream # map SentChunk cs, Inr 0) \<and>
     getChunked \<lparr>geGet = Inl (), geOpen = None, geFrames = map (Some \<circ> as_get) cs, geEnd = None,
       geFailedPrecondition = (\<lambda>_. True)\<rparr> = Inr (Some (replicate 4194305 CHR ''v''))"
  by (rule chunked_roundtrip) (simp_all add: UnaryValueLimit_def ChunkSize_def)

definition sample_frames :: "GetChunk list" where
  "sample_frames = [\<lparr>gcIndex = 0, gcTotalChunks = 2, gcTotalLength = 3, gcData = ''ab''\<rparr>,
     \<lparr>gcIndex = 1, gcTotalChunks = 2, gcTotalLength = 3, gcData = ''c''\<rparr>]"

theorem getChunked_returns_witness:
  "getChunked \<lparr>geGet = Inl (), geOpen = None, geFrames = map Some sample_frames, geEnd = None,
     geFailedPrecondition = (\<lambda>_. True)\<rparr> = Inr (Some ''abc'') \<and>
   getChunked \<lparr>geGet = Inl (), geOpen = None, geFrames = map Some (take 1 sample_frames), geEnd = None,
     geFailedPrecondition = (\<lambda>_. True)\<rparr> \<noteq> Inr (Some ''ab'')"
proof -
  let ?env = "\<lambda>fs. \<lparr>geGet = Inl (), geOpen = None, geFrames = map Some fs, geEnd = None, geFailedPrecondition = (\<lambda>_. True)\<rparr>"
  have fit: "frames_fit (?env sample_frames)" "frames_fit (?env (take 1 sample_frames))"
    by (auto simp: frames_fit_def sample_frames_def)
  have "complete_stream sample_frames" "chunk_data sample_frames = ''abc''"
    by (auto simp: complete_stream_def sample_frames_def chunk_data_def less_Suc_eq)
  moreover have "\<not> complete_stream (take 1 sample_frames)"
    by (simp add: complete_stream_def sample_frames_def)
  ultimately show ?thesis
    using getChunked_returns [OF fit(1), of "''abc''"] getChunked_returns [OF fit(2), of "''ab''"]
    by (auto simp: inj_map_eq_map)
qed

end
