(* ===== verification/Conn_Pool.thy ===== *)
theory Conn_Pool
  imports Pulse_Prelude
begin

text \<open>
  Pools of connections.  The cluster client and the metrics exporter both keep a map from address
  to connection, with connections numbered as they are created.  The facts here account for every
  number: those in the map, those closed and those under way make up all that were handed out.
\<close>

definition conns_mset :: "(string, nat) fmap \<Rightarrow> nat multiset" where
  "conns_mset m = image_mset (\<lambda>a. the (fmlookup m a)) (mset_set (fmdom' m))"

lemma conns_mset_upd:
  assumes "fmlookup m a = None"
  shows "conns_mset (fmupd a k m) = add_mset k (conns_mset m)"
proof -
  have "a \<notin> fmdom' m"
    using assms by (auto simp: fmdom'_by_lookup)
  moreover have "image_mset (\<lambda>b. the (fmlookup (fmupd a k m) b)) (mset_set (fmdom' m)) = conns_mset m"
    unfolding conns_mset_def using \<open>a \<notin> fmdom' m\<close> by (intro image_mset_cong) auto
  ultimately show ?thesis
    by (simp add: conns_mset_def)
qed

lemma conns_mset_list:
  assumes "distinct g" and "set g = fmdom' m"
  shows "conns_mset m = mset (map (\<lambda>a. the (fmlookup m a)) g)"
  using mset_set_set [OF assms(1)] assms(2) by (simp add: conns_mset_def)

lemma conns_mset_drop:
  assumes "distinct order" and "set order = fmdom' m"
  shows "conns_mset m = conns_mset (fmdrop_set (set (filter P order)) m) + mset (map (\<lambda>a. the (fmlookup m a)) (filter P order))"
proof -
  let ?k = "filter (\<lambda>a. \<not> P a) order"
  let ?m = "fmdrop_set (set (filter P order)) m"
  have "set ?k = fmdom' ?m"
    using assms(2) by auto
  then have "conns_mset ?m = mset (map (\<lambda>a. the (fmlookup ?m a)) ?k)"
    using assms(1) by (intro conns_mset_list) simp_all
  also have "\<dots> = mset (map (\<lambda>a. the (fmlookup m a)) ?k)"
    by (rule arg_cong [of _ _ mset]) (auto simp: fmlookup_drop_set)
  also have "\<dots> + mset (map (\<lambda>a. the (fmlookup m a)) (filter P order)) = mset (map (\<lambda>a. the (fmlookup m a)) order)"
    using multiset_partition [of "mset order" P] by (metis image_mset_union mset_filter mset_map union_commute)
  also have "\<dots> = conns_mset m"
    using conns_mset_list [OF assms] by simp
  finally show ?thesis
    by simp
qed

lemma distinct_parts:
  assumes "mset as + mset xs + N = mset ds" and "distinct ds"
  shows "distinct xs" and "set xs \<subseteq> set ds" and "set xs \<inter> set_mset N = {}"
proof -
  obtain ns where ns: "N = mset ns"
    using ex_mset [of N] by metis
  then have eq: "mset (as @ xs @ ns) = mset ds"
    using assms(1) by (simp add: ac_simps)
  then have "distinct (as @ xs @ ns)"
    using mset_eq_imp_distinct_iff [OF eq] assms(2) by simp
  then show "distinct xs" "set xs \<inter> set_mset N = {}"
    using ns by auto
  show "set xs \<subseteq> set ds"
    using mset_eq_setD [OF eq] by auto
qed

end
