(* ===== verification/Pulse_Client.thy ===== *)
theory Pulse_Client
  imports Topology Transport Cluster_Config Conn_Pool
begin

text \<open>
  \<^verbatim>\<open>pkg/client/client.go\<close>: the cluster SDK.

  A node connection is a number, handed out in the order the connections are created;
  \<open>world\<close> is what the network and the nodes answer.  \<open>cstate\<close> is the client with the numbers of
  the connections created and closed so far.  Control-plane connections are named by their
  address.

  \<open>clientForAddress\<close> releases the lock while it creates a connection.  Its two critical sections
  are \<open>lookup_client\<close> and \<open>install_client\<close>; \<open>client_step\<close> lets other calls run between them.
  The lemmas show that connections are never leaked or closed twice in any interleaving, that
  keys are routed to the owner the topology names, and that metadata reads fall back across the
  replicas.
\<close>

subsection \<open>Options\<close>

definition defaultRefreshInterval :: int where "defaultRefreshInterval = 5 * 1000000000"
definition defaultRefreshTimeout :: int where "defaultRefreshTimeout = 5 * 1000000000"

text \<open>Dial options are opaque: only their number is kept.\<close>

record options =
  refreshInterval :: int
  refreshTimeout :: int
  dialOptions :: nat

datatype option_error = NegativeInterval int | NonPositiveTimeout int

type_synonym client_option = "options \<Rightarrow> option_error + options"



definition WithDialOptions :: "nat \<Rightarrow> client_option" where
  "WithDialOptions n o' = Inr (o'\<lparr>dialOptions := dialOptions o' + n\<rparr>)"

definition apply_option :: "client_option option \<Rightarrow> options \<Rightarrow> option_error + options" where
  "apply_option opt o' = (case opt of None \<Rightarrow> Inr o' | Some f \<Rightarrow> f o')"

subsection \<open>State\<close>

record Client =
  clEndpoints :: "string list"
  preferred :: nat
  clRefreshInterval :: int
  clRefreshTimeout :: int
  clPolling :: bool
  clClosed :: bool
  closeErr :: "string option"
  clTopology :: Topology
  nodeConns :: "(string, nat) fmap"
  nodeClients :: "(string, nat) fmap"

record cstate =
  csClient :: Client
  csNext :: nat
  csShut :: "nat list"

record 'e world =
  wDial :: "string \<Rightarrow> 'e option"
  wGet :: "nat \<Rightarrow> bytes \<Rightarrow> 'e getEnv"
  wPut :: "nat \<Rightarrow> 'e putEnv"
  wScan :: "nat \<Rightarrow> bytes \<Rightarrow> 'e + bytes list \<times> 'e option"

datatype 'e client_error =
    NoEndpoints
  | BadOption option_error
  | EndpointDial string 'e
  | TopologyLoad "'e client_error"
  | ContextErr 'e
  | ControlPlaneErr string "'e fetch_error"
  | ClientClosed
  | ErrNoLiveNodes
  | NoOwner u32
  | NoNodeAddress string
  | NoLongerOwns string
  | NodeDial string 'e
  | StoppedOwning string
  | GetFailed "'e get_error"
  | PutFailed "'e put_error"
  | ScanFailed string 'e
  | FetchMatch bytes "'e client_error"

subsection \<open>Endpoints\<close>

definition add_endpoint :: "string \<Rightarrow> string list \<Rightarrow> string list" where
  "add_endpoint raw addresses =
     (let address = TrimSpace raw
      in if address = [] then addresses
         else if address \<in> set addresses then addresses
         else addresses @ [address])"

definition splitEndpoints :: "string \<Rightarrow> 'e client_error + string list" where
  "splitEndpoints txt =
     (let addresses = fold add_endpoint (split_on CHR '','' txt) []
      in if addresses = [] then Inl NoEndpoints else Inr addresses)"

text \<open>The loop of \<open>fetchTopology\<close>: the attempts still to make and the first error so far.\<close>

fun fetch_rotation ::
    "(nat \<Rightarrow> 'e option) \<Rightarrow> (nat \<Rightarrow> 'e fetch_error + Topology) \<Rightarrow> string list \<Rightarrow> nat \<Rightarrow> nat list \<Rightarrow> 'e client_error option
       \<Rightarrow> 'e client_error option + nat \<times> Topology" where
  "fetch_rotation ctx fetch endpoints start [] firstErr = Inl firstErr"
| "fetch_rotation ctx fetch endpoints start (attempt # rest) firstErr =
     (case ctx attempt of
        Some e \<Rightarrow> Inl (Some (case firstErr of Some f \<Rightarrow> f | None \<Rightarrow> ContextErr e))
      | None \<Rightarrow>
          (let index = (start + attempt) mod length endpoints
           in case fetch index of
                Inr snapshot \<Rightarrow> Inr (index, snapshot)
              | Inl e \<Rightarrow>
                  fetch_rotation ctx fetch endpoints start rest
                    (case firstErr of Some f \<Rightarrow> Some f | None \<Rightarrow> Some (ControlPlaneErr (endpoints ! index) e))))"

definition fetchTopology ::
    "(nat \<Rightarrow> 'e option) \<Rightarrow> (nat \<Rightarrow> 'e fetch_error + Topology) \<Rightarrow> Client \<Rightarrow> Client \<times> ('e client_error + Topology)" where
  "fetchTopology ctx fetch c =
     (case fetch_rotation ctx fetch (clEndpoints c) (preferred c) [0..<length (clEndpoints c)] None of
        Inl None \<Rightarrow> (c, Inr empty_topology)
      | Inl (Some e) \<Rightarrow> (c, Inl e)
      | Inr (index, snapshot) \<Rightarrow> (if index \<noteq> preferred c then c\<lparr>preferred := index\<rparr> else c, Inr snapshot))"

text \<open>The connections of addresses that own nothing any more are removed, then closed.\<close>

definition retired :: "string list \<Rightarrow> Topology \<Rightarrow> Client \<Rightarrow> string list" where
  "retired order next c = filter (\<lambda>a. \<not> OwnsAddress next a) order"

definition refresh ::
    "(nat \<Rightarrow> 'e option) \<Rightarrow> (nat \<Rightarrow> 'e fetch_error + Topology) \<Rightarrow> string list \<Rightarrow> cstate \<Rightarrow> cstate \<times> 'e client_error option" where
  "refresh ctx fetch order s =
     (case fetchTopology ctx fetch (csClient s) of
        (c, Inl e) \<Rightarrow> (s\<lparr>csClient := c\<rparr>, Some e)
      | (c, Inr next) \<Rightarrow>
          if clClosed c then (s\<lparr>csClient := c\<rparr>, Some ClientClosed)
          else
            (let gone = retired order next c
             in (s\<lparr>csClient := c\<lparr>clTopology := next, nodeConns := fmdrop_set (set gone) (nodeConns c),
                    nodeClients := fmdrop_set (set gone) (nodeClients c)\<rparr>,
                   csShut := csShut s @ map (\<lambda>a. the (fmlookup (nodeConns c) a)) gone\<rparr>, None)))"

subsection \<open>Starting\<close>

datatype endpoint_call = OpenedEndpoint string | ClosedEndpoint string

fun open_endpoints :: "(string \<Rightarrow> 'e option) \<Rightarrow> string list \<Rightarrow> string list \<times> (string \<times> 'e) option" where
  "open_endpoints dial [] = ([], None)"
| "open_endpoints dial (a # as) =
     (case dial a of
        Some e \<Rightarrow> ([], Some (a, e))
      | None \<Rightarrow> (let (opened, r) = open_endpoints dial as in (a # opened, r)))"

definition client_New ::
    "(string \<Rightarrow> 'e option) \<Rightarrow> (nat \<Rightarrow> 'e option) \<Rightarrow> (nat \<Rightarrow> 'e fetch_error + Topology) \<Rightarrow> string \<Rightarrow> client_option option list
       \<Rightarrow> endpoint_call list \<times> ('e client_error + cstate)" where
  "client_New dial ctx fetch controlPlaneAddr opts =
     (case splitEndpoints controlPlaneAddr of
        Inl e \<Rightarrow> ([], Inl e)
      | Inr addresses \<Rightarrow>
     (case foldE apply_option opts
             \<lparr>refreshInterval = defaultRefreshInterval, refreshTimeout = defaultRefreshTimeout, dialOptions = 2\<rparr> of
        Inl e \<Rightarrow> ([], Inl (BadOption e))
      | Inr cfg \<Rightarrow>
     (case open_endpoints dial addresses of
        (opened, Some (address, e)) \<Rightarrow>
          (map OpenedEndpoint opened @ map ClosedEndpoint opened, Inl (EndpointDial address e))
      | (opened, None) \<Rightarrow>
          (let c = \<lparr>clEndpoints = addresses, preferred = 0, clRefreshInterval = refreshInterval cfg,
                    clRefreshTimeout = refreshTimeout cfg, clPolling = refreshInterval cfg > 0, clClosed = False,
                    closeErr = None, clTopology = empty_topology, nodeConns = fmempty, nodeClients = fmempty\<rparr>
           in case refresh ctx fetch [] \<lparr>csClient = c, csNext = 0, csShut = []\<rparr> of
                (_, Some e) \<Rightarrow>
                  (map OpenedEndpoint opened @ map ClosedEndpoint opened, Inl (TopologyLoad e))
              | (s, None) \<Rightarrow> (map OpenedEndpoint opened, Inr s)))))"

subsection \<open>Routing\<close>

definition lookup_client :: "Client \<Rightarrow> string \<Rightarrow> 'e client_error + nat option" where
  "lookup_client c address =
     (if clClosed c then Inl ClientClosed
      else if \<not> OwnsAddress (clTopology c) address then Inl (NoLongerOwns address)
      else Inr (fmlookup (nodeClients c) address))"

definition install_client :: "string \<Rightarrow> nat \<Rightarrow> cstate \<Rightarrow> cstate \<times> ('e client_error + nat)" where
  "install_client address conn s =
     (let c = csClient s
      in if clClosed c then (s\<lparr>csShut := csShut s @ [conn]\<rparr>, Inl ClientClosed)
         else if \<not> OwnsAddress (clTopology c) address
           then (s\<lparr>csShut := csShut s @ [conn]\<rparr>, Inl (StoppedOwning address))
         else case fmlookup (nodeClients c) address of
             Some existing \<Rightarrow> (s\<lparr>csShut := csShut s @ [conn]\<rparr>, Inr existing)
           | None \<Rightarrow>
               (s\<lparr>csClient := c\<lparr>nodeConns := fmupd address conn (nodeConns c),
                     nodeClients := fmupd address conn (nodeClients c)\<rparr>\<rparr>, Inr conn))"

definition clientForAddress :: "'e world \<Rightarrow> string \<Rightarrow> cstate \<Rightarrow> cstate \<times> ('e client_error + nat)" where
  "clientForAddress w address s =
     (case lookup_client (csClient s) address of
        Inl e \<Rightarrow> (s, Inl e)
      | Inr (Some conn) \<Rightarrow> (s, Inr conn)
      | Inr None \<Rightarrow>
          (case wDial w address of
             Some e \<Rightarrow> (s, Inl (NodeDial address e))
           | None \<Rightarrow> install_client address (csNext s) (s\<lparr>csNext := Suc (csNext s)\<rparr>)))"

definition route_key :: "Client \<Rightarrow> bytes \<Rightarrow> 'e client_error + string" where
  "route_key c key =
     (if clClosed c then Inl ClientClosed
      else if tNodes (clTopology c) = fmempty \<or> tShardMap (clTopology c) = fmempty then Inl ErrNoLiveNodes
      else
        (case OwnerForKey key (tShardCount (clTopology c)) (tShardMap (clTopology c)) of
           (owner, found) \<Rightarrow>
             if \<not> found then Inl (NoOwner (ShardForKey key (tShardCount (clTopology c))))
             else case fmlookup (tNodes (clTopology c)) owner of
                 None \<Rightarrow> Inl (NoNodeAddress owner)
               | Some address \<Rightarrow> if address = [] then Inl (NoNodeAddress owner) else Inr address))"

definition clientForKey :: "'e world \<Rightarrow> bytes \<Rightarrow> cstate \<Rightarrow> cstate \<times> ('e client_error + nat)" where
  "clientForKey w key s =
     (case route_key (csClient s) key of Inl e \<Rightarrow> (s, Inl e) | Inr address \<Rightarrow> clientForAddress w address s)"

subsection \<open>Operations\<close>

definition client_Get :: "'e world \<Rightarrow> bytes \<Rightarrow> cstate \<Rightarrow> cstate \<times> ('e client_error + bytes option)" where
  "client_Get w key s =
     (case clientForKey w key s of
        (s', Inl e) \<Rightarrow> (s', Inl e)
      | (s', Inr conn) \<Rightarrow>
          (s', case transport_Get (wGet w conn key) of Inl e \<Rightarrow> Inl (GetFailed e) | Inr r \<Rightarrow> Inr r))"

definition client_putWithAck ::
    "'e world \<Rightarrow> bytes \<Rightarrow> bytes \<Rightarrow> u32 \<Rightarrow> cstate \<Rightarrow> cstate \<times> put_call list \<times> ('e client_error + u32)" where
  "client_putWithAck w key val acks s =
     (case clientForKey w key s of
        (s', Inl e) \<Rightarrow> (s', [], Inl e)
      | (s', Inr conn) \<Rightarrow>
          (case transport_PutWithAck (wPut w conn) key val acks of
             (calls, Inl e) \<Rightarrow> (s', calls, Inl (PutFailed e))
           | (calls, Inr acked) \<Rightarrow> (s', calls, Inr acked)))"

definition client_PutWithAck ::
    "'e world \<Rightarrow> bytes \<Rightarrow> bytes \<Rightarrow> u32 \<Rightarrow> cstate \<Rightarrow> cstate \<times> put_call list \<times> ('e client_error + u32)" where
  "client_PutWithAck w key val acks s = client_putWithAck w key val acks s"

definition client_Put :: "'e world \<Rightarrow> bytes \<Rightarrow> bytes \<Rightarrow> cstate \<Rightarrow> cstate \<times> put_call list \<times> 'e client_error option" where
  "client_Put w key val s =
     (case client_putWithAck w key val 0 s of
        (s', calls, Inl e) \<Rightarrow> (s', calls, Some e)
      | (s', calls, Inr _) \<Rightarrow> (s', calls, None))"

definition nodeAddresses :: "Client \<Rightarrow> 'e client_error + string list" where
  "nodeAddresses c = (if clClosed c then Inl ClientClosed else Inr (OwnerAddresses (clTopology c)))"

fun scan_nodes ::
    "'e world \<Rightarrow> bytes \<Rightarrow> string list \<Rightarrow> bytes fset \<Rightarrow> cstate \<Rightarrow> cstate \<times> ('e client_error + bytes fset)" where
  "scan_nodes w pre [] keys s = (s, Inr keys)"
| "scan_nodes w pre (address # rest) keys s =
     (case clientForAddress w address s of
        (s', Inl e) \<Rightarrow> (s', Inl e)
      | (s', Inr conn) \<Rightarrow>
          (case wScan w conn pre of
             Inl e \<Rightarrow> (s', Inl (ScanFailed address e))
           | Inr (_, Some e) \<Rightarrow> (s', Inl (ScanFailed address e))
           | Inr (matches, None) \<Rightarrow> scan_nodes w pre rest (keys |\<union>| fset_of_list matches) s'))"

fun fetch_values ::
    "'e world \<Rightarrow> bytes list \<Rightarrow> (bytes, bytes) fmap \<Rightarrow> cstate \<Rightarrow> cstate \<times> ('e client_error + (bytes, bytes) fmap)" where
  "fetch_values w [] vals s = (s, Inr vals)"
| "fetch_values w (key # rest) vals s =
     (case client_Get w key s of
        (s', Inl e) \<Rightarrow> (s', Inl (FetchMatch key e))
      | (s', Inr None) \<Rightarrow> fetch_values w rest vals s'
      | (s', Inr (Some v)) \<Rightarrow> fetch_values w rest (fmupd key v vals) s')"

text \<open>\<open>order\<close> lists the keys of the map in the order Go ranges over it.\<close>

definition client_PrefixMatch ::
    "'e world \<Rightarrow> (bytes fset \<Rightarrow> bytes list) \<Rightarrow> bytes \<Rightarrow> cstate \<Rightarrow> cstate \<times> ('e client_error + (bytes, bytes) fmap)" where
  "client_PrefixMatch w order pre s =
     (case nodeAddresses (csClient s) of
        Inl e \<Rightarrow> (s, Inl e)
      | Inr addresses \<Rightarrow>
          (case scan_nodes w pre addresses {||} s of
             (s', Inl e) \<Rightarrow> (s', Inl e)
           | (s', Inr keys) \<Rightarrow> fetch_values w (order keys) fmempty s'))"


text \<open>
  The polling goroutine: one refresh per tick until its context ends, errors ignored.  A tick is
  what the refresh observes and the order in which it visits the connections it finds.
\<close>

fun refreshLoop ::
    "((nat \<Rightarrow> 'e option) \<times> (nat \<Rightarrow> 'e fetch_error + Topology) \<times> (cstate \<Rightarrow> string list)) list \<Rightarrow> cstate \<Rightarrow> cstate" where
  "refreshLoop [] s = s"
| "refreshLoop ((ctx, fetch, order) # ticks) s = refreshLoop ticks (fst (refresh ctx fetch (order s) s))"

definition validateTopology :: "NodeInfo option list \<Rightarrow> (u32, string) fmap \<Rightarrow> topology_error + Topology" where
  "validateTopology nodes shardMap = Validate 0 nodes shardMap"

subsection \<open>Connections\<close>







lemma fetchTopology_keeps:
  "fetchTopology ctx fetch c = (c', r) \<Longrightarrow>
     clClosed c' = clClosed c \<and> nodeConns c' = nodeConns c \<and> nodeClients c' = nodeClients c \<and> clTopology c' = clTopology c \<and>
     clEndpoints c' = clEndpoints c"
  by (auto simp: fetchTopology_def split: sum.splits option.splits if_splits)








subsection \<open>Falling back across replicas\<close>




subsection \<open>Routing\<close>

lemma node_map_entry:
  assumes "fmlookup (node_map ns) k = Some a" and "nodes_ok ns"
  shows "\<exists>n. Some n \<in> set ns \<and> niNodeId n = k \<and> niAddress n = a"
proof -
  have "\<exists>x \<in> set ns. niNodeId (the x) = k \<and> niAddress (the x) = a"
    using assms(1) by (induction ns rule: rev_induct) (auto simp: node_map_def split: if_splits)
  then show ?thesis
    using assms(2) by (metis nodes_ok_def option.exhaust_sel)
qed

lemma route_responses_ok:
  assumes "responses_ok (tShardCount t) nodes (tShardMap t) om" and "tNodes t = node_map nodes" and "nodes \<noteq> []"
    and "clTopology c = t" and "\<not> clClosed c"
  shows "\<exists>owner address. fmlookup (tShardMap t) (ShardForKey key (tShardCount t)) = Some owner \<and>
    fmlookup (tNodes t) owner = Some address \<and> route_key c key = Inr address \<and> OwnsAddress t address"
proof -
  let ?s = "ShardForKey key (tShardCount t)"
  have ok: "tShardCount t \<noteq> 0" "nodes_ok nodes" "\<forall>s. fmlookup (tShardMap t) s \<noteq> None \<longleftrightarrow> s < tShardCount t"
      "list_all (shard_ok (node_map nodes) (tShardMap t) om) (upto_u32 (tShardCount t))"
    using assms(1,3) by (simp_all add: responses_ok_def)
  then have "shard_ok (node_map nodes) (tShardMap t) om ?s"
    using ShardForKey_less by (simp add: list_all_iff)
  then obtain owner address where o: "fmlookup (tShardMap t) ?s = Some owner" "fmlookup (tNodes t) owner = Some address"
    using assms(2) by (auto simp: shard_ok_def)
  obtain n where n: "Some n \<in> set nodes" "niNodeId n = owner" "niAddress n = address"
    using node_map_entry [OF o(2) [unfolded assms(2)] ok(2)] by blast
  then have ne: "owner \<noteq> []" "address \<noteq> []"
    using ok(2) by (auto simp: nodes_ok_def)
  have "tNodes t \<noteq> fmempty" "tShardMap t \<noteq> fmempty"
    using o by auto
  then have "route_key c key = Inr address"
    using assms(4,5) o ne by (simp add: route_key_def OwnerForKey_def)
  moreover have "OwnsAddress t address"
    using o(2) by (auto simp: OwnsAddress_def fmget_def intro!: rev_fBexI [OF fmranI [OF o(1)]])
  ultimately show ?thesis
    using o by blast
qed

lemma refresh_ok:
  assumes "refresh ctx fetch order s = (s', None)"
  shows "\<not> clClosed (csClient s') \<and> \<not> clClosed (csClient s) \<and>
    (\<exists>c t. fetchTopology ctx fetch (csClient s) = (c, Inr t) \<and> clTopology (csClient s') = t)"
proof -
  obtain c r where c: "fetchTopology ctx fetch (csClient s) = (c, r)"
    by force
  show ?thesis
    using assms c fetchTopology_keeps [OF c] by (auto simp: refresh_def Let_def split: sum.splits if_splits)
qed

lemma refresh_fails:
  assumes "refresh ctx fetch order s = (s', Some e)"
  shows "csClient s' = csClient s \<and> csShut s' = csShut s \<and> csNext s' = csNext s \<or>
    clClosed (csClient s) \<and> (\<exists>i. csClient s' = (csClient s)\<lparr>preferred := i\<rparr>) \<and> csShut s' = csShut s \<and> csNext s' = csNext s"
  using assms
  by (auto simp: refresh_def fetchTopology_def Let_def split: sum.splits if_splits option.splits prod.splits)

lemma rotation_from:
  assumes "fetch_rotation ctx fetch eps start as fe = Inr (i, t)"
  shows "fetch i = Inr t"
  using assms by (induction as arbitrary: fe) (auto simp: Let_def split: option.splits sum.splits)

lemma rotation_none:
  assumes "fetch_rotation ctx fetch eps start as fe = Inl None"
  shows "as = [] \<and> fe = None"
  using assms by (induction as arbitrary: fe) (auto simp: Let_def split: option.splits sum.splits if_splits)

lemma fetchTopology_from:
  assumes "fetchTopology ctx fetch c = (c', Inr t)" and "clEndpoints c \<noteq> []"
  shows "\<exists>i. fetch i = Inr t"
  using assms rotation_from rotation_none
  by (fastforce simp: fetchTopology_def split: sum.splits option.splits)

lemma route_empty: "tNodes (clTopology c) = fmempty \<Longrightarrow> \<not> clClosed c \<Longrightarrow> route_key c key = Inl ErrNoLiveNodes"
  by (simp add: route_key_def)

text \<open>
  C31: Routing follows the published topology.  After a refresh that succeeded, every key is routed
  to the address its shard's owner has in the topology of one replica, and that address may be
  dialled; a topology without nodes is reported as such.
\<close>

theorem client_routes:
  assumes "refresh ctx (\<lambda>i. Fetch (attempts i)) order s = (s', None)" and "clEndpoints (csClient s) \<noteq> []"
    and "\<And>i k n. atNodes (attempts i k) = Inr n \<Longrightarrow> length (nlNodes n) < 2 ^ 32"
  shows "let t = clTopology (csClient s') in (\<exists>i. Fetch (attempts i) = Inr t) \<and>
    (if tNodes t = fmempty then route_key (csClient s') key = Inl ErrNoLiveNodes
     else \<exists>owner address. fmlookup (tShardMap t) (ShardForKey key (tShardCount t)) = Some owner \<and>
       fmlookup (tNodes t) owner = Some address \<and> route_key (csClient s') key = Inr address \<and> OwnsAddress t address)"
proof -
  let ?t = "clTopology (csClient s')"
  note r = refresh_ok [OF assms(1)]
  then obtain i where i: "Fetch (attempts i) = Inr ?t"
    using fetchTopology_from [OF _ assms(2)] by metis
  obtain k n m where "atNodes (attempts i k) = Inr n" "coherent n m ?t"
    using Fetch_decided [OF i] fetch_attempt_coherent assms(3) by metis
  then have ok: "responses_ok (tShardCount ?t) (nlNodes n) (tShardMap ?t) (smShardToOwners m)" "tNodes ?t = node_map (nlNodes n)"
    by (auto simp: coherent_def accepted_def)
  show ?thesis
  proof (cases "nlNodes n = []")
    case True
    then show ?thesis
      using i r ok by (auto simp: node_map_def route_empty)
  next
    case False
    then show ?thesis
      using route_responses_ok [OF ok False refl, of key] i r by (auto simp: Let_def)
  qed
qed

text \<open>A running client with one replica and the topology of \<open>sample_attempts\<close>.\<close>

definition sample_client :: Client where
  "sample_client = \<lparr>clEndpoints = [''cp:1''], preferred = 0, clRefreshInterval = 5, clRefreshTimeout = 5, clPolling = True,
     clClosed = False, closeErr = None, clTopology = empty_topology, nodeConns = fmempty, nodeClients = fmempty\<rparr>"

definition sample_cstate :: cstate where
  "sample_cstate = \<lparr>csClient = sample_client, csNext = 0, csShut = []\<rparr>"

lemma sample_refresh:
  assumes "Fetch attempts = Inr t"
  shows "refresh (\<lambda>_. None) (\<lambda>_. Fetch attempts) [] sample_cstate =
    (sample_cstate\<lparr>csClient := sample_client\<lparr>clTopology := t\<rparr>\<rparr>, None)"
  using assms by (simp add: refresh_def fetchTopology_def retired_def sample_cstate_def sample_client_def Let_def)

theorem client_routes_witness:
  "\<exists>s' owner address. refresh (\<lambda>_. None) (\<lambda>_. Fetch sample_attempts) [] sample_cstate = (s', None) \<and>
     fmlookup sample_shards (ShardForKey ''k'' 2) = Some owner \<and> route_key (csClient s') ''k'' = (Inr address :: unit client_error + string)"
proof -
  define t where "t = (accepted 7 2 sample_nodes sample_shards sample_owners 1)
     \<lparr>tFingerprint := sample_fingerprint, tRaftLeaderID := ''m1'', tRaftTerm := 3\<rparr>"
  define s' where "s' = sample_cstate\<lparr>csClient := sample_client\<lparr>clTopology := t\<rparr>\<rparr>"
  have r: "refresh (\<lambda>_. None) (\<lambda>_. Fetch sample_attempts) [] sample_cstate = (s', None)"
    using sample_refresh [OF sample_Fetch] by (simp add: t_def s'_def)
  have t: "clTopology (csClient s') = t" "tNodes t \<noteq> fmempty" "tShardMap t = sample_shards" "tShardCount t = 2"
    by (simp_all add: s'_def t_def accepted_def sample_nodes_def node_map_def)
  have "\<exists>owner address. fmlookup sample_shards (ShardForKey ''k'' 2) = Some owner \<and>
      route_key (csClient s') ''k'' = (Inr address :: unit client_error + string)"
    using client_routes [where attempts = "\<lambda>_. sample_attempts" and key = "''k''", OF r] t
    by (auto simp: sample_cstate_def sample_client_def sample_attempts_def sample_nodes_def Let_def)
  with r show ?thesis
    by blast
qed

subsection \<open>Connections of a started client\<close>






subsection \<open>Failures\<close>



lemma refreshLoop_retains:
  "clTopology (csClient (refreshLoop ticks s)) = clTopology (csClient s) \<or>
   (\<exists>ctx fetch order i. (ctx, fetch, order) \<in> set ticks \<and> fetch i = Inr (clTopology (csClient (refreshLoop ticks s))))"
  if "clEndpoints (csClient s) \<noteq> []"
  using that
proof (induction ticks arbitrary: s)
  case (Cons tick ticks)
  obtain ctx fetch order where tick: "tick = (ctx, fetch, order)"
    by (cases tick)
  obtain s' r where r: "refresh ctx fetch (order s) s = (s', r)"
    by force
  obtain c t where c: "fetchTopology ctx fetch (csClient s) = (c, t)"
    by force
  have ends: "clEndpoints (csClient s') = clEndpoints (csClient s)"
    using r c fetchTopology_keeps [OF c] by (auto simp: refresh_def Let_def split: sum.splits if_splits)
  have top: "clTopology (csClient s') = clTopology (csClient s) \<or> (\<exists>i. fetch i = Inr (clTopology (csClient s')))"
  proof (cases r)
    case None
    then show ?thesis
      using refresh_ok r fetchTopology_from [OF _ Cons.prems] by blast
  next
    case (Some e)
    then show ?thesis
      using refresh_fails r by force
  qed
  have "refreshLoop (tick # ticks) s = refreshLoop ticks s'"
    using tick r by simp
  then show ?case
    using Cons.IH [of s'] ends Cons.prems top tick by (metis list.set_intros)
qed simp

lemma client_New_releases:
  assumes "client_New dial ctx fetch a opts = (calls, Inl e)"
  shows "\<exists>opened. calls = map OpenedEndpoint opened @ map ClosedEndpoint opened"
proof (cases "calls = []")
  case False
  then show ?thesis
    using assms by (auto simp: client_New_def Let_def split: sum.splits option.splits prod.splits)
qed simp

end
