(* ===== verification/Prom_Export.thy ===== *)
theory Prom_Export
  imports Go_Json
begin

text \<open>
  \<^verbatim>\<open>internal/promexport/promexport.go\<close>: Prometheus text exposition.

  A writer is the text accumulated so far.  \<^verbatim>\<open>fmt\<close>'s \<^verbatim>\<open>%q\<close> is \<^verbatim>\<open>strconv.Quote\<close>, written out over the
  bytes of each rune; whether a rune above U+007F is printable is a table of the Unicode version,
  so it is the parameter \<open>isPrint\<close>.  \<^verbatim>\<open>%g\<close> of a \<^verbatim>\<open>float64\<close> is the parameter \<open>pct_g\<close>.

  The lemmas show that whatever the label values and help texts are, a call writes exactly its
  lines, and what a reader of the format finds in a label.
\<close>

subsection \<open>ReplaceAll and Quote\<close>

definition ReplaceAll :: "char \<Rightarrow> string \<Rightarrow> string \<Rightarrow> string" where
  "ReplaceAll old new s = concat (map (\<lambda>c. if c = old then new else [c]) s)"

definition newline :: char where "newline = CHR 0x0A"
definition backslash :: char where "backslash = CHR 0x5C"
definition dquote :: char where "dquote = CHR 0x22"

definition decode_rune :: "string \<Rightarrow> nat" where
  "decode_rune r =
     (case map byte r of
        [a] \<Rightarrow> a
      | [a, b] \<Rightarrow> (a - 0xC0) * 64 + (b - 0x80)
      | [a, b, c] \<Rightarrow> ((a - 0xE0) * 64 + (b - 0x80)) * 64 + (c - 0x80)
      | [a, b, c, d] \<Rightarrow> (((a - 0xF0) * 64 + (b - 0x80)) * 64 + (c - 0x80)) * 64 + (d - 0x80)
      | _ \<Rightarrow> 0xFFFD)"

fun hex_digits :: "nat \<Rightarrow> nat \<Rightarrow> string" where
  "hex_digits 0 v = []"
| "hex_digits (Suc k) v = hex_digits k (v div 16) @ [hex_char (v mod 16)]"

definition control_escape :: "nat \<Rightarrow> char option" where
  "control_escape p = map_of [(7, CHR ''a''), (8, CHR ''b''), (12, CHR ''f''), (10, CHR ''n''), (13, CHR ''r''),
     (9, CHR ''t''), (11, CHR ''v'')] p"

definition appendEscapedRune :: "(nat \<Rightarrow> bool) \<Rightarrow> string \<Rightarrow> string" where
  "appendEscapedRune isPrint r =
     (let p = decode_rune r
      in if r = [dquote] \<or> r = [backslash] then backslash # r
         else if (if p < 0x80 then 0x20 \<le> p \<and> p < 0x7F else isPrint p) then r
         else case control_escape p of
             Some c \<Rightarrow> [backslash, c]
           | None \<Rightarrow>
               if p < 0x20 \<or> p = 0x7F then backslash # CHR ''x'' # hex_digits 2 p
               else if p < 0x10000 then backslash # CHR ''u'' # hex_digits 4 p
               else backslash # CHR ''U'' # hex_digits 8 p)"

function quoteWith :: "(nat \<Rightarrow> bool) \<Rightarrow> string \<Rightarrow> string" where
  "quoteWith isPrint s =
     (if s = [] then []
      else if rune_len s = 0 then backslash # CHR ''x'' # hex_digits 2 (byte (hd s)) @ quoteWith isPrint (drop 1 s)
      else appendEscapedRune isPrint (take (rune_len s) s) @ quoteWith isPrint (drop (rune_len s) s))"
  by pat_completeness auto
termination
  by (relation "measure (length \<circ> snd)") auto

declare quoteWith.simps [simp del]

definition Quote :: "(nat \<Rightarrow> bool) \<Rightarrow> string \<Rightarrow> string" where
  "Quote isPrint s = dquote # quoteWith isPrint s @ [dquote]"

subsection \<open>The writer\<close>

definition ContentType :: string where "ContentType = ''text/plain; version=0.0.4; charset=utf-8''"

definition escapeHelp :: "string \<Rightarrow> string" where
  "escapeHelp txt = ReplaceAll newline [backslash, CHR ''n''] (ReplaceAll backslash [backslash, backslash] txt)"

definition escapeLabel :: "string \<Rightarrow> string" where
  "escapeLabel val =
     ReplaceAll newline [backslash, CHR ''n'']
       (ReplaceAll dquote [backslash, dquote] (ReplaceAll backslash [backslash, backslash] val))"

type_synonym Writer = string

definition Help :: "string \<Rightarrow> string \<Rightarrow> string \<Rightarrow> Writer \<Rightarrow> Writer" where
  "Help name kind txt w =
     w @ ''# HELP '' @ name @ '' '' @ escapeHelp txt @ [newline] @ ''# TYPE '' @ name @ '' '' @ kind @ [newline]"

definition label_pair :: "(nat \<Rightarrow> bool) \<Rightarrow> (string, string) fmap \<Rightarrow> string \<Rightarrow> string" where
  "label_pair isPrint labels key = key @ ''='' @ Quote isPrint (escapeLabel (fmget labels key))"

definition Metric ::
    "(nat \<Rightarrow> bool) \<Rightarrow> ('f \<Rightarrow> string) \<Rightarrow> string \<Rightarrow> (string, string) fmap \<Rightarrow> 'f \<Rightarrow> Writer \<Rightarrow> Writer" where
  "Metric isPrint pct_g name labels val w =
     (if fmlen labels = 0 then w @ name @ '' '' @ pct_g val @ [newline]
      else w @ name @ ''{'' @ join_with '','' (map (label_pair isPrint labels) (sorted_list_of_fset (fmdom labels)))
             @ ''} '' @ pct_g val @ [newline])"

definition With :: "(string, string) fmap \<Rightarrow> string \<Rightarrow> string \<Rightarrow> (string, string) fmap" where
  "With base key val = fmupd key val base"

text \<open>A \<^verbatim>\<open>float64\<close> 1 or 0, as a natural number.\<close>

definition Bool :: "bool \<Rightarrow> nat" where
  "Bool ok = (if ok then 1 else 0)"

subsection \<open>One call, its lines\<close>

lemma ReplaceAll_simps [simp]:
  "ReplaceAll c new [] = []"
  "ReplaceAll c new (x # xs) = (if x = c then new else [x]) @ ReplaceAll c new xs"
  by (simp_all add: ReplaceAll_def)

lemma byte_hex_char: "d < 16 \<Longrightarrow> 48 \<le> byte (hex_char d)"
  by (simp add: hex_char_def byte_def)

lemma hex_digits_no_newline: "newline \<notin> set (hex_digits k v)"
proof (induction k arbitrary: v)
  case (Suc k)
  have "hex_char (v mod 16) \<noteq> newline"
    using byte_hex_char [of "v mod 16"] by (auto simp: newline_def byte_def)
  with Suc show ?case
    by auto
qed simp

lemma rune_bytes:
  assumes "rune_len s \<noteq> 0"
  shows "take (rune_len s) s = [hd s] \<and> byte (hd s) < 0x80 \<or>
    2 \<le> length (take (rune_len s) s) \<and> (\<forall>c \<in> set (take (rune_len s) s). 0x80 \<le> byte c)"
proof (cases "lead_size (hd s) \<le> 1")
  case True
  then have "rune_len s = 1" "byte (hd s) < 0x80" "s \<noteq> []"
    using assms by (auto simp: rune_len_def lead_size_def split: if_splits)
  then show ?thesis
    by (cases s) auto
next
  case False
  then have n: "rune_len s = lead_size (hd s)" "lead_size (hd s) \<le> length s" "accept_second (hd s) (s ! 1)"
      "list_all is_cont (drop 2 (take (lead_size (hd s)) s))" "s \<noteq> []"
    using assms by (auto simp: rune_len_def split: if_splits)
  then obtain a b r where s: "s = a # b # r"
    using False by (cases s; cases "tl s") auto
  have "0x80 \<le> byte a" "0x80 \<le> byte b"
    using False n(3) s by (auto simp: lead_size_def accept_second_def split: if_splits)
  moreover obtain m where "lead_size (hd s) = Suc (Suc m)"
    using False by (cases "lead_size (hd s)"; cases "lead_size (hd s) - 1") auto
  ultimately show ?thesis
    using n s by (auto simp: list_all_iff is_cont_def)
qed

lemma control_escape_no_newline: "control_escape p = Some c \<Longrightarrow> c \<noteq> newline"
  by (auto simp: control_escape_def newline_def split: if_splits)

lemma rune_no_newline:
  assumes "rune_len s \<noteq> 0"
  shows "newline \<notin> set (appendEscapedRune isPrint (take (rune_len s) s))"
proof -
  let ?r = "take (rune_len s) s"
  have "newline \<notin> set ?r" if "if decode_rune ?r < 0x80 then 0x20 \<le> decode_rune ?r \<and> decode_rune ?r < 0x7F else isPrint (decode_rune ?r)"
    using rune_bytes [OF assms]
  proof
    assume "?r = [hd s] \<and> byte (hd s) < 0x80"
    then show ?thesis
      using that by (cases "hd s = newline") (auto simp: decode_rune_def newline_def byte_def split: if_splits)
  next
    assume "2 \<le> length ?r \<and> (\<forall>c \<in> set ?r. 0x80 \<le> byte c)"
    then show ?thesis
      by (auto simp: newline_def byte_def)
  qed
  then show ?thesis
    using hex_digits_no_newline control_escape_no_newline
    by (auto simp: appendEscapedRune_def Let_def newline_def backslash_def dquote_def split: option.splits if_splits)
qed

lemma quoteWith_no_newline: "newline \<notin> set (quoteWith isPrint s)"
proof (induction isPrint s rule: quoteWith.induct)
  case (1 isPrint s)
  show ?case
  proof (cases "s = [] \<or> rune_len s = 0")
    case True
    then show ?thesis
      using 1(1) hex_digits_no_newline by (auto simp: quoteWith.simps [of isPrint s] backslash_def newline_def)
  next
    case False
    then show ?thesis
      using 1(2) rune_no_newline by (auto simp: quoteWith.simps [of isPrint s])
  qed
qed

lemma escapeHelp_no_newline: "newline \<notin> set (escapeHelp t)"
  by (induction t) (auto simp: escapeHelp_def newline_def backslash_def)

lemma label_pair_no_newline: "newline \<notin> set key \<Longrightarrow> newline \<notin> set (label_pair isPrint labels key)"
  using quoteWith_no_newline by (auto simp: label_pair_def Quote_def newline_def dquote_def)

lemma join_with_no_newline:
  "newline \<notin> set sep \<Longrightarrow> (\<And>w. w \<in> set ws \<Longrightarrow> newline \<notin> set w) \<Longrightarrow> newline \<notin> set (join_with sep ws)"
  by (induction sep ws rule: join_with.induct) auto

text \<open>The lines of a text, each ended by a newline; \<open>None\<close> when the last one is not.\<close>

definition text_lines :: "string \<Rightarrow> string list option" where
  "text_lines s = (let ws = split_on newline s in if last ws = [] then Some (butlast ws) else None)"

lemma split_on_ne [simp]: "split_on sep s \<noteq> []"
  by (cases s) (auto split: list.splits)

lemma split_on_append:
  "split_on sep (a @ b) = butlast (split_on sep a) @ (last (split_on sep a) @ hd (split_on sep b)) # tl (split_on sep b)"
proof (induction a)
  case (Cons c a)
  obtain w ws where "split_on sep a = w # ws"
    by (cases "split_on sep a") auto
  with Cons show ?case
    by (auto simp: butlast_append split: list.splits)
qed simp

lemma split_on_none [simp]: "sep \<notin> set s \<Longrightarrow> split_on sep s = [s]"
  by (induction s) auto

lemma text_lines_append:
  assumes "text_lines w = Some ls" and "text_lines s = Some ks"
  shows "text_lines (w @ s) = Some (ls @ ks)"
proof -
  have "split_on newline (w @ s) = butlast (split_on newline w) @ split_on newline s"
    using assms(1) by (simp add: split_on_append [of newline w s] text_lines_def Let_def split: if_splits)
  then show ?thesis
    using assms by (auto simp: text_lines_def Let_def butlast_append split: if_splits)
qed

lemma text_lines_line:
  assumes "newline \<notin> set l"
  shows "text_lines (l @ [newline]) = Some [l]"
  using assms by (simp add: text_lines_def split_on_append Let_def)

lemma Help_lines:
  assumes "text_lines w = Some ls" and "newline \<notin> set name" and "newline \<notin> set kind"
  shows "text_lines (Help name kind t w) =
      Some (ls @ [''# HELP '' @ name @ '' '' @ escapeHelp t, ''# TYPE '' @ name @ '' '' @ kind])"
proof -
  have h: "newline \<notin> set (''# HELP '' @ name @ '' '' @ escapeHelp t)" "newline \<notin> set (''# TYPE '' @ name @ '' '' @ kind)"
    using assms(2,3) escapeHelp_no_newline [of t] by (auto simp: newline_def)
  show ?thesis
    using text_lines_append [OF assms(1) text_lines_append [OF h [THEN text_lines_line]]] by (simp add: Help_def)
qed

lemma Metric_lines:
  assumes "text_lines w = Some ls" and "newline \<notin> set name"
    and "\<And>k. k |\<in>| fmdom labels \<Longrightarrow> newline \<notin> set k" and "newline \<notin> set (pct_g val)"
  shows "\<exists>l. text_lines (Metric isPrint pct_g name labels val w) = Some (ls @ [l]) \<and> prefix name l"
proof -
  let ?ls = "if fmlen labels = 0 then [] else
    ''{'' @ join_with '','' (map (label_pair isPrint labels) (sorted_list_of_fset (fmdom labels))) @ ''}''"
  let ?l = "name @ ?ls @ '' '' @ pct_g val"
  have "newline \<notin> set (join_with '','' (map (label_pair isPrint labels) (sorted_list_of_fset (fmdom labels))))"
    using label_pair_no_newline assms(3) by (intro join_with_no_newline) (auto simp: newline_def)
  then have "newline \<notin> set ?l"
    using assms(2,4) by (auto simp: newline_def)
  moreover have "Metric isPrint pct_g name labels val w = w @ ?l @ [newline]"
    by (simp add: Metric_def)
  ultimately show ?thesis
    using text_lines_append [OF assms(1) text_lines_line [of ?l]] by auto
qed

text \<open>
  A label value or a help text cannot start a line of its own.  Whatever they contain, \<open>Help\<close>
  appends its two lines and \<open>Metric\<close> its one, provided the metric name, the type, the label names
  and the printed number have no newline.
\<close>

theorem exposition_lines:
  assumes "text_lines w = Some ls" and "newline \<notin> set name" and "newline \<notin> set kind"
    and "\<And>k. k |\<in>| fmdom labels \<Longrightarrow> newline \<notin> set k" and "newline \<notin> set (pct_g val)"
  shows "text_lines (Help name kind t w) =
      Some (ls @ [''# HELP '' @ name @ '' '' @ escapeHelp t, ''# TYPE '' @ name @ '' '' @ kind]) \<and>
    (\<exists>l. text_lines (Metric isPrint pct_g name labels val w) = Some (ls @ [l]) \<and> prefix name l)"
  using Help_lines [OF assms(1-3)] Metric_lines [where pct_g = pct_g and val = val, OF assms(1,2,4,5)] by blast

theorem exposition_lines_witness:
  "\<exists>l. text_lines (Metric (\<lambda>_. True) (\<lambda>_. ''1'') ''up'' (fmupd ''path'' [CHR ''a'', dquote, newline, CHR ''b''] fmempty) () []) = Some [l] \<and>
     prefix ''up'' l"
proof -
  have "text_lines [] = Some []" and "newline \<notin> set ''up''" "newline \<notin> set ''gauge''" "newline \<notin> set ''1''" "newline \<notin> set ''path''"
    by (simp_all add: text_lines_def newline_def)
  then show ?thesis
    using exposition_lines [of "[]" "[]" "''up''" "''gauge''" "fmupd ''path'' [CHR ''a'', dquote, newline, CHR ''b''] fmempty"
      "\<lambda>_. ''1''" "()" "[]" "\<lambda>_. True"] by auto
qed

subsection \<open>What a reader finds in a label\<close>

text \<open>
  The exposition format's label value: after the opening quote, \<^verbatim>\<open>\\\\\<close>, \<^verbatim>\<open>\\"\<close> and \<^verbatim>\<open>\\n\<close> are escapes
  and an unescaped quote ends the value.
\<close>

fun read_label :: "string \<Rightarrow> (string \<times> string) option" where
  "read_label [] = None"
| "read_label (c # s) =
     (if c = dquote then Some ([], s)
      else if c = backslash then
        (case s of
           [] \<Rightarrow> None
         | d # t \<Rightarrow>
             if d = CHR ''n'' then map_option (\<lambda>(v, r). (newline # v, r)) (read_label t)
             else if d = dquote \<or> d = backslash then map_option (\<lambda>(v, r). (d # v, r)) (read_label t)
             else None)
      else map_option (\<lambda>(v, r). (c # v, r)) (read_label s))"

definition printable :: "char \<Rightarrow> bool" where
  "printable c \<longleftrightarrow> 0x20 \<le> byte c \<and> byte c < 0x7F"

lemma rune_len_printable: "printable c \<Longrightarrow> rune_len (c # s) = 1"
  by (simp add: printable_def rune_len_def lead_size_def)

lemma quoteWith_printable:
  assumes "printable c"
  shows "quoteWith isPrint (c # s) = (if c = dquote \<or> c = backslash then [backslash, c] else [c]) @ quoteWith isPrint s"
  using rune_len_printable [OF assms] assms
  by (simp add: quoteWith.simps [of isPrint "c # s"] appendEscapedRune_def Let_def decode_rune_def printable_def)

lemma read_label_Quote:
  assumes "list_all printable v"
  shows "read_label (tl (Quote isPrint v) @ s) = Some (v, s)"
proof -
  have "read_label (quoteWith isPrint v @ dquote # s) = Some (v, s)"
    using assms
  proof (induction v)
    case Nil
    then show ?case
      by (simp add: quoteWith.simps [of isPrint "[]"])
  next
    case (Cons c v)
    have "dquote \<noteq> backslash" "dquote \<noteq> CHR ''n''" "backslash \<noteq> CHR ''n''"
      by (simp_all add: dquote_def backslash_def)
    with Cons show ?case
      by (auto simp: quoteWith_printable)
  qed
  then show ?thesis
    by (simp add: Quote_def)
qed

lemma escapeLabel_printable: "list_all printable (filter (\<lambda>c. c \<noteq> newline) v) \<Longrightarrow> list_all printable (escapeLabel v)"
proof (induction v)
  case (Cons c v)
  have "printable backslash" "printable dquote" "printable (CHR ''n'')" "backslash \<noteq> newline" "dquote \<noteq> newline" "backslash \<noteq> dquote"
    by (simp_all add: printable_def byte_def backslash_def dquote_def newline_def)
  with Cons show ?case
    by (auto simp: escapeLabel_def split: if_splits)
qed (simp add: escapeLabel_def)

lemma escapeLabel_Cons:
  "escapeLabel (c # v) =
     (if c = backslash then [backslash, backslash] else if c = dquote then [backslash, dquote]
      else if c = newline then [backslash, CHR ''n''] else [c]) @ escapeLabel v"
  by (simp add: escapeLabel_def backslash_def dquote_def newline_def)

lemma escapeLabel_length: "length v \<le> length (escapeLabel v)"
proof (induction v)
  case (Cons c v)
  then show ?case
    by (simp add: escapeLabel_Cons)
qed simp

lemma escapeLabel_id:
  "escapeLabel v = v \<longleftrightarrow> backslash \<notin> set v \<and> dquote \<notin> set v \<and> newline \<notin> set v"
proof (induction v)
  case (Cons c v)
  have "escapeLabel (c # v) \<noteq> c # v" if "c = backslash"
  proof
    assume "escapeLabel (c # v) = c # v"
    then have "backslash # escapeLabel v = v"
      using that by (simp add: escapeLabel_Cons)
    then show False
      using escapeLabel_length [of v] by (metis Suc_n_not_le_n length_Cons)
  qed
  moreover have "backslash \<noteq> dquote" "backslash \<noteq> newline" "dquote \<noteq> newline"
    by (simp_all add: backslash_def dquote_def newline_def)
  ultimately show ?case
    using Cons.IH by (cases "c = backslash") (auto simp: escapeLabel_Cons)
qed (simp add: escapeLabel_def)

text \<open>
  A label is escaped twice, by \<open>escapeLabel\<close> and again by \<^verbatim>\<open>%q\<close>: a reader of the format gets back
  the once-escaped text, which is the label's value exactly when that has no quote, backslash or
  newline.
\<close>

theorem label_escaped_twice:
  assumes "list_all printable (filter (\<lambda>c. c \<noteq> newline) v)"
  shows "read_label (tl (Quote isPrint (escapeLabel v)) @ s) = Some (escapeLabel v, s) \<and>
    (escapeLabel v = v \<longleftrightarrow> backslash \<notin> set v \<and> dquote \<notin> set v \<and> newline \<notin> set v)"
  using read_label_Quote [OF escapeLabel_printable [OF assms]] escapeLabel_id by blast

end
