(* ===== verification/Metrics_Exporter.thy ===== *)
theory Metrics_Exporter
  imports Prom_Export Topology Transport Conn_Pool
begin

text \<open>
  \<^verbatim>\<open>cmd/pulsekv-metrics/main.go\<close>: the Prometheus exporter.

  A data-node connection is a number, handed out in the order the connections are created;
  \<open>exNodeConns\<close> is \<open>None\<close> once \<open>Close\<close> has set the pool to nil, and \<open>exPanicked\<close> is set when a goroutine
  then assigns to it, which ends the process.  \<open>mworld\<close> is what the cluster answers.  A Go map is
  visited in an order that the caller of a definition supplies.  Times are nanoseconds, and the
  zero \<^verbatim>\<open>time.Time\<close> is the first instant of year 1; \<open>time_sub\<close> saturates as \<^verbatim>\<open>Time.Sub\<close> does.

  The lemmas show what the gauges and counters mean after any number of scrapes and probes, that
  the connection pool loses nothing, and that every sample belongs to a family announced before.
\<close>

subsection \<open>Time\<close>

definition zeroTime :: int where "zeroTime = - 62135596800 * 1000000000"

definition time_sub :: "int \<Rightarrow> int \<Rightarrow> int" where
  "time_sub a b = max (- (2 ^ 63)) (min (2 ^ 63 - 1) (a - b))"

subsection \<open>State\<close>

record replicaView =
  rvAddress :: string
  rvReachable :: bool
  rvErr :: string
  rvGeneration :: u64
  rvFingerprint :: string
  rvLeaderID :: string
  rvTerm :: u64
  rvLiveNodes :: nat
  rvShardCount :: u32
  rvNodes :: "(string, string) fmap"
  rvOwners :: "(u32, ShardOwners) fmap"
  rvMetadataLatency :: int

record Capacity =
  cpResidentKeys :: u64
  cpBytesInRamTier :: u64
  cpBytesInNvmeTier :: u64
  cpKeysInRamTier :: u64
  cpKeysInNvmeTier :: u64
  cpSpills :: u64
  cpPromotions :: u64
  cpSpillErrors :: u64
  cpEvictDrops :: u64
  cpBulkWrites :: u64
  cpBulkReads :: u64
  cpBulkSharedMemoryReads :: u64
  cpBulkFallbacks :: u64

text \<open>The thirteen numbers of \<^verbatim>\<open>nodeMetrics\<close> that \<^verbatim>\<open>Capacity\<close> fills are kept together.\<close>

record nodeMetrics =
  nmAddress :: string
  nmReachable :: bool
  nmUptime :: int
  nmCapacity :: Capacity
  nmCapacityLatency :: int

record replicaLag =
  rlSeconds :: int
  rlTimedOut :: bool
  rlObserved :: int
  rlForShard :: u32
  rlForHolder :: string

record metricState =
  msStartedAt :: int
  msLastScrape :: int
  msScrapes :: u64
  msReplicaViews :: "(string, replicaView) fmap"
  msNodes :: "(string, nodeMetrics) fmap"
  msShardCount :: u32
  msOwners :: "(u32, ShardOwners) fmap"
  msCurrentLeader :: string
  msCurrentTerm :: u64
  msLeaderSince :: int
  msLeaderChanges :: u64
  msLeaderAgreement :: bool
  msHighestGeneration :: u64
  msGenerationFirstSeen :: int
  msGenerationConverged :: bool
  msGenerationChanges :: u64
  msLastConvergence :: int
  msMaxConvergence :: int
  msConvergenceSamples :: u64
  msConvergenceTotal :: int
  msProbes :: u64
  msProbeHits :: u64
  msProbeMisses :: u64
  msProbeMismatches :: u64
  msProbeWriteErrors :: u64
  msProbeReadErrors :: u64
  msProbeMetadataLatency :: int
  msProbeWriteLatency :: int
  msProbeReadLatency :: int
  msReplicationLag :: "(string, replicaLag) fmap"

record exporterConfig =
  ecControlPlanes :: "string list"
  ecRpcTimeout :: int
  ecProbeEnabled :: bool
  ecProbeValueSize :: nat
  ecProbeKeyPrefix :: string
  ecReplicationLagBudget :: int

record exporter =
  exCfg :: exporterConfig
  exReplicas :: "string list"
  exState :: metricState
  exNodeConns :: "(string, nat) fmap option"
  exNext :: nat
  exShut :: "nat list"
  exPanicked :: bool

definition no_capacity :: Capacity where
  "no_capacity = \<lparr>cpResidentKeys = 0, cpBytesInRamTier = 0, cpBytesInNvmeTier = 0, cpKeysInRamTier = 0, cpKeysInNvmeTier = 0,
     cpSpills = 0, cpPromotions = 0, cpSpillErrors = 0, cpEvictDrops = 0, cpBulkWrites = 0, cpBulkReads = 0,
     cpBulkSharedMemoryReads = 0, cpBulkFallbacks = 0\<rparr>"

definition start_state :: "int \<Rightarrow> metricState" where
  "start_state now =
     \<lparr>msStartedAt = now, msLastScrape = zeroTime, msScrapes = 0, msReplicaViews = fmempty, msNodes = fmempty,
      msShardCount = 0, msOwners = fmempty, msCurrentLeader = [], msCurrentTerm = 0, msLeaderSince = zeroTime,
      msLeaderChanges = 0, msLeaderAgreement = False, msHighestGeneration = 0, msGenerationFirstSeen = zeroTime,
      msGenerationConverged = False, msGenerationChanges = 0, msLastConvergence = 0, msMaxConvergence = 0,
      msConvergenceSamples = 0, msConvergenceTotal = 0, msProbes = 0, msProbeHits = 0, msProbeMisses = 0,
      msProbeMismatches = 0, msProbeWriteErrors = 0, msProbeReadErrors = 0, msProbeMetadataLatency = 0,
      msProbeWriteLatency = 0, msProbeReadLatency = 0, msReplicationLag = fmempty\<rparr>"

definition blank_view :: "string \<Rightarrow> replicaView" where
  "blank_view address =
     \<lparr>rvAddress = address, rvReachable = False, rvErr = [], rvGeneration = 0, rvFingerprint = [], rvLeaderID = [], rvTerm = 0,
      rvLiveNodes = 0, rvShardCount = 0, rvNodes = fmempty, rvOwners = fmempty, rvMetadataLatency = 0\<rparr>"

text \<open>What the cluster answers, by replica address and by node connection.\<close>

record 'e mworld =
  mwDial :: "string \<Rightarrow> 'e option"
  mwFetch :: "string \<Rightarrow> nat \<Rightarrow> 'e attempt"
  mwErrText :: "'e fetch_error \<Rightarrow> string"
  mwMetadataLatency :: "string \<Rightarrow> int"
  mwHealth :: "nat \<Rightarrow> 'e + bool \<times> int"
  mwCapacity :: "nat \<Rightarrow> 'e + Capacity"
  mwCapacityLatency :: "nat \<Rightarrow> int"
  mwPut :: "nat \<Rightarrow> 'e putEnv"
  mwGet :: "nat \<Rightarrow> bytes \<Rightarrow> 'e getEnv"

subsection \<open>Start and connections\<close>

definition add_listed :: "string \<Rightarrow> string list \<Rightarrow> string list" where
  "add_listed raw acc = (let val = TrimSpace raw in if val = [] \<or> val \<in> set acc then acc else acc @ [val])"

definition splitList :: "string \<Rightarrow> string list" where
  "splitList txt = fold add_listed (split_on CHR '','' txt) []"

datatype replica_call = DialedReplica string | ClosedReplica string

fun dial_replicas :: "(string \<Rightarrow> 'e option) \<Rightarrow> string list \<Rightarrow> string list \<times> (string \<times> 'e) option" where
  "dial_replicas dial [] = ([], None)"
| "dial_replicas dial (a # as) =
     (case dial a of
        Some e \<Rightarrow> ([], Some (a, e))
      | None \<Rightarrow> (let (dialed, r) = dial_replicas dial as in (a # dialed, r)))"

definition newExporter ::
    "(string \<Rightarrow> 'e option) \<Rightarrow> int \<Rightarrow> exporterConfig \<Rightarrow> replica_call list \<times> (string \<times> 'e + exporter)" where
  "newExporter dial now cfg =
     (case dial_replicas dial (ecControlPlanes cfg) of
        (dialed, Some failed) \<Rightarrow> (map DialedReplica dialed @ map ClosedReplica dialed, Inl failed)
      | (dialed, None) \<Rightarrow>
          (map DialedReplica dialed,
           Inr \<lparr>exCfg = cfg, exReplicas = dialed, exState = start_state now, exNodeConns = Some fmempty, exNext = 0,
                exShut = [], exPanicked = False\<rparr>))"

definition pool :: "exporter \<Rightarrow> (string, nat) fmap" where
  "pool e = (case exNodeConns e of None \<Rightarrow> fmempty | Some m \<Rightarrow> m)"

definition exporter_Close :: "string list \<Rightarrow> exporter \<Rightarrow> replica_call list \<times> exporter" where
  "exporter_Close order e =
     (map ClosedReplica (exReplicas e),
      e\<lparr>exNodeConns := None, exShut := exShut e @ map (\<lambda>a. the (fmlookup (pool e) a)) order\<rparr>)"

definition nodeClient :: "'e mworld \<Rightarrow> string \<Rightarrow> exporter \<Rightarrow> exporter \<times> ('e option + nat)" where
  "nodeClient w address e =
     (case fmlookup (pool e) address of
        Some conn \<Rightarrow> (e, Inr conn)
      | None \<Rightarrow>
          (case mwDial w address of
             Some err \<Rightarrow> (e, Inl (Some err))
           | None \<Rightarrow>
               (case exNodeConns e of
                  None \<Rightarrow> (e\<lparr>exNext := Suc (exNext e), exPanicked := True\<rparr>, Inl None)
                | Some m \<Rightarrow>
                    (e\<lparr>exNext := Suc (exNext e), exNodeConns := Some (fmupd address (exNext e) m)\<rparr>, Inr (exNext e)))))"

definition retainNodeConns :: "string fset \<Rightarrow> string list \<Rightarrow> exporter \<Rightarrow> exporter" where
  "retainNodeConns live order e =
     (let gone = filter (\<lambda>a. a |\<notin>| live) order
      in e\<lparr>exNodeConns := map_option (fmdrop_set (set gone)) (exNodeConns e),
           exShut := exShut e @ map (\<lambda>a. the (fmlookup (pool e) a)) gone\<rparr>)"

subsection \<open>Scraping\<close>

definition hex_bytes :: "bytes \<Rightarrow> string" where
  "hex_bytes b = concat (map (\<lambda>c. hex_digits 2 (byte c)) b)"

definition scrapeReplica :: "'e mworld \<Rightarrow> string \<Rightarrow> replicaView" where
  "scrapeReplica w address =
     (let view = (blank_view address)\<lparr>rvMetadataLatency := mwMetadataLatency w address\<rparr>
      in case Fetch (mwFetch w address) of
           Inl err \<Rightarrow> view\<lparr>rvErr := mwErrText w err\<rparr>
         | Inr snapshot \<Rightarrow>
             view\<lparr>rvReachable := True, rvGeneration := tGeneration snapshot, rvFingerprint := hex_bytes (tFingerprint snapshot),
               rvLeaderID := tRaftLeaderID snapshot, rvTerm := tRaftTerm snapshot, rvLiveNodes := fmlen (tNodes snapshot),
               rvShardCount := tShardCount snapshot, rvNodes := tNodes snapshot, rvOwners := tOwners snapshot\<rparr>)"

text \<open>The goroutines store their views in the order they finish.\<close>

definition scrapeReplicas :: "'e mworld \<Rightarrow> string list \<Rightarrow> (string, replicaView) fmap" where
  "scrapeReplicas w finished = fold (\<lambda>a. fmupd a (scrapeReplica w a)) finished fmempty"

definition scrapeNode :: "'e mworld \<Rightarrow> string \<Rightarrow> exporter \<Rightarrow> exporter \<times> nodeMetrics" where
  "scrapeNode w address e =
     (let metrics = \<lparr>nmAddress = address, nmReachable = False, nmUptime = 0, nmCapacity = no_capacity, nmCapacityLatency = 0\<rparr>
      in case nodeClient w address e of
           (e', Inl _) \<Rightarrow> (e', metrics)
         | (e', Inr conn) \<Rightarrow>
             (e', case mwHealth w conn of
                Inl _ \<Rightarrow> metrics
              | Inr (healthy, uptime) \<Rightarrow>
                  (let m = metrics\<lparr>nmReachable := healthy, nmUptime := uptime, nmCapacityLatency := mwCapacityLatency w conn\<rparr>
                   in case mwCapacity w conn of Inl _ \<Rightarrow> m | Inr capacity \<Rightarrow> m\<lparr>nmCapacity := capacity\<rparr>)))"

fun scrape_each :: "'e mworld \<Rightarrow> (string \<times> string) list \<Rightarrow> exporter \<Rightarrow> (string, nodeMetrics) fmap \<Rightarrow> exporter \<times> (string, nodeMetrics) fmap" where
  "scrape_each w [] e scraped = (e, scraped)"
| "scrape_each w ((nid, address) # rest) e scraped =
     (case scrapeNode w address e of (e', metrics) \<Rightarrow> scrape_each w rest e' (fmupd nid metrics scraped))"

definition scrapeNodes :: "'e mworld \<Rightarrow> string list \<Rightarrow> string list \<Rightarrow> (string, string) fmap \<Rightarrow> exporter \<Rightarrow> exporter" where
  "scrapeNodes w connOrder finished nodes e =
     (case scrape_each w (map (\<lambda>nid. (nid, fmget nodes nid)) finished) (retainNodeConns (fmran nodes) connOrder e) fmempty of
        (e', scraped) \<Rightarrow> e'\<lparr>exState := (exState e')\<lparr>msNodes := scraped\<rparr>\<rparr>)"

subsection \<open>Leadership and convergence\<close>

definition lead_step :: "replicaView \<Rightarrow> (string \<times> u64 \<times> bool) \<times> bool \<Rightarrow> (string \<times> u64 \<times> bool) \<times> bool" where
  "lead_step view st =
     (case st of ((leader, term, agreed), first) \<Rightarrow>
        if \<not> rvReachable view then st
        else if first then ((rvLeaderID view, rvTerm view, agreed), False)
        else if rvLeaderID view \<noteq> leader \<or> rvTerm view \<noteq> term then ((leader, term, False), first)
        else st)"

definition observeLeadershipLocked :: "replicaView list \<Rightarrow> int \<Rightarrow> metricState \<Rightarrow> metricState" where
  "observeLeadershipLocked views now s =
     (case fold lead_step views (([], 0, True), True) of
        ((leader, term, agreed), first) \<Rightarrow>
          if first then s\<lparr>msLeaderAgreement := False\<rparr>
          else
            (let s1 = s\<lparr>msLeaderAgreement := agreed\<rparr>
             in if leader \<noteq> msCurrentLeader s1 \<or> term \<noteq> msCurrentTerm s1 then
                  s1\<lparr>msLeaderChanges := (if msCurrentLeader s1 \<noteq> [] \<or> msCurrentTerm s1 \<noteq> 0
                       then msLeaderChanges s1 + 1 else msLeaderChanges s1),
                     msCurrentLeader := leader, msCurrentTerm := term, msLeaderSince := now\<rparr>
                else s1))"

definition observeConvergenceLocked :: "replicaView list \<Rightarrow> int \<Rightarrow> metricState \<Rightarrow> metricState" where
  "observeConvergenceLocked views now s =
     (let up = filter rvReachable views;
          highest = fold (\<lambda>view h. if rvGeneration view > h then rvGeneration view else h) up 0;
          reachable = length up;
          agreedOnHighest = length (filter (\<lambda>view. rvGeneration view = highest) up)
      in if reachable = 0 then s
         else if highest > msHighestGeneration s then
           (let converged = (agreedOnHighest = reachable)
            in s\<lparr>msHighestGeneration := highest, msGenerationFirstSeen := now, msGenerationConverged := converged,
                 msLastConvergence := (if converged then 0 else msLastConvergence s),
                 msGenerationChanges := msGenerationChanges s + 1\<rparr>)
         else if \<not> msGenerationConverged s \<and> agreedOnHighest = reachable \<and> reachable > 1 then
           (let lastConvergence = time_sub now (msGenerationFirstSeen s)
            in s\<lparr>msGenerationConverged := True, msLastConvergence := lastConvergence,
                 msMaxConvergence := (if lastConvergence > msMaxConvergence s then lastConvergence else msMaxConvergence s),
                 msConvergenceSamples := msConvergenceSamples s + 1,
                 msConvergenceTotal := wrap64 (msConvergenceTotal s + lastConvergence)\<rparr>)
         else s)"

text \<open>The orders one scrape visits its maps in.\<close>

record scrapeOrders =
  soFinished :: "string list"
  soLeadership :: "string list"
  soConvergence :: "string list"
  soPick :: "string list"
  soConns :: "string list"
  soNodes :: "string list"

definition views_in :: "(string, replicaView) fmap \<Rightarrow> string list \<Rightarrow> replicaView list" where
  "views_in views order = map (\<lambda>a. the (fmlookup views a)) order"

definition scrapeOnce :: "'e mworld \<Rightarrow> scrapeOrders \<Rightarrow> int \<Rightarrow> exporter \<Rightarrow> exporter" where
  "scrapeOnce w o' now e =
     (let views = scrapeReplicas w (soFinished o');
          s = (exState e)\<lparr>msScrapes := msScrapes (exState e) + 1, msLastScrape := now, msReplicaViews := views\<rparr>;
          s1 = observeConvergenceLocked (views_in views (soConvergence o')) now
                 (observeLeadershipLocked (views_in views (soLeadership o')) now s);
          e1 = e\<lparr>exState := s1\<rparr>
      in case find (\<lambda>view. rvReachable view \<and> fmlen (rvNodes view) > 0) (views_in views (soPick o')) of
           None \<Rightarrow> e1
         | Some view \<Rightarrow>
             (let e2 = scrapeNodes w (soConns o') (soNodes o') (rvNodes view) e1
              in e2\<lparr>exState := (exState e2)\<lparr>msShardCount := rvShardCount view, msOwners := rvOwners view\<rparr>\<rparr>))"

subsection \<open>Probing\<close>

text \<open>
  One round of the polling loop: the time of the loop test, the answer to the read, the time of
  \<^verbatim>\<open>time.Since\<close>, the time recorded with the result and whether the context ended the wait.
\<close>

record 'e lagRound =
  lrNow :: int
  lrGet :: "'e getEnv"
  lrSince :: int
  lrObserved :: int
  lrDone :: bool

definition lag_timed_out :: "int \<Rightarrow> replicaLag" where
  "lag_timed_out observed = \<lparr>rlSeconds = 0, rlTimedOut = True, rlObserved = observed, rlForShard = 0, rlForHolder = []\<rparr>"

partial_function (option) lag_poll :: "(nat \<Rightarrow> 'e lagRound) \<Rightarrow> int \<Rightarrow> int \<Rightarrow> nat \<Rightarrow> replicaLag option" where
  "lag_poll rounds deadline writtenAt k =
     (let r = rounds k
      in if \<not> lrNow r < deadline then Some (lag_timed_out (lrObserved r))
         else if (case transport_Get (lrGet r) of Inr (Some _) \<Rightarrow> True | _ \<Rightarrow> False) then
           Some \<lparr>rlSeconds = time_sub (lrSince r) writtenAt, rlTimedOut = False, rlObserved = lrObserved r,
                 rlForShard = 0, rlForHolder = []\<rparr>
         else if lrDone r then Some (lag_timed_out (lrObserved r))
         else lag_poll rounds deadline writtenAt (Suc k))"

definition measureReplicationLag ::
    "'e mworld \<Rightarrow> string \<Rightarrow> int \<Rightarrow> int \<Rightarrow> (nat \<Rightarrow> 'e lagRound) \<Rightarrow> exporter \<Rightarrow> (exporter \<times> replicaLag) option" where
  "measureReplicationLag w address now writtenAt rounds e =
     (let deadline = now + ecReplicationLagBudget (exCfg e)
      in case nodeClient w address e of
           (e', Inl _) \<Rightarrow> Some (e', lag_timed_out now)
         | (e', Inr _) \<Rightarrow> map_option (Pair e') (lag_poll rounds deadline writtenAt 0))"

text \<open>What one probe observes of the clock and of the replicas.\<close>

record 'e probeObs =
  poPick :: "string list"
  poUnixNano :: int
  poWriteStart :: int
  poWriteLatency :: int
  poReadLatency :: int
  poLagStart :: "string \<Rightarrow> int"
  poLag :: "string \<Rightarrow> nat \<Rightarrow> 'e lagRound"

definition probe_value :: "nat \<Rightarrow> bytes" where
  "probe_value n = map (\<lambda>i. char_of (i * 31 mod 256)) [0..<n]"

definition probe_read :: "'e get_error + bytes option \<Rightarrow> bytes \<Rightarrow> metricState \<Rightarrow> metricState" where
  "probe_read r val s =
     (case r of
        Inl _ \<Rightarrow> s\<lparr>msProbeReadErrors := msProbeReadErrors s + 1\<rparr>
      | Inr None \<Rightarrow> s\<lparr>msProbeMisses := msProbeMisses s + 1\<rparr>
      | Inr (Some got) \<Rightarrow>
          if length got \<noteq> length val then s\<lparr>msProbeMismatches := msProbeMismatches s + 1\<rparr>
          else s\<lparr>msProbeHits := msProbeHits s + 1\<rparr>)"

fun measure_replicas ::
    "'e mworld \<Rightarrow> 'e probeObs \<Rightarrow> replicaView \<Rightarrow> u32 \<Rightarrow> string list \<Rightarrow> exporter \<Rightarrow> exporter option" where
  "measure_replicas w ob view shard [] e = Some e"
| "measure_replicas w ob view shard (replicaID # rest) e =
     (let address = fmget (rvNodes view) replicaID
      in if address = [] then measure_replicas w ob view shard rest e
         else case measureReplicationLag w address (poLagStart ob address) (poWriteStart ob) (poLag ob address) e of
             None \<Rightarrow> None
           | Some (e', lag) \<Rightarrow>
               measure_replicas w ob view shard rest
                 (e'\<lparr>exState := (exState e')\<lparr>msReplicationLag :=
                    fmupd replicaID (lag\<lparr>rlForShard := shard, rlForHolder := replicaID\<rparr>) (msReplicationLag (exState e'))\<rparr>\<rparr>))"

definition probeOnce :: "'e mworld \<Rightarrow> 'e probeObs \<Rightarrow> exporter \<Rightarrow> exporter option" where
  "probeOnce w ob e =
     (case find (\<lambda>view. rvReachable view \<and> fmlen (rvNodes view) > 0) (views_in (msReplicaViews (exState e)) (poPick ob)) of
        None \<Rightarrow> Some e
      | Some view \<Rightarrow>
          if rvShardCount view = 0 then Some e
          else
            (let key = ecProbeKeyPrefix (exCfg e) @ '':'' @ Itoa (poUnixNano ob);
                 shard = ShardForKey key (rvShardCount view)
             in case fmlookup (rvOwners view) shard of
                  None \<Rightarrow> Some e
                | Some placement \<Rightarrow>
                    (let primaryAddress = fmget (rvNodes view) (Primary placement)
                     in if primaryAddress = [] then Some e
                        else case nodeClient w primaryAddress e of
                            (e1, Inl _) \<Rightarrow> Some e1
                          | (e1, Inr primary) \<Rightarrow>
                              (let val = probe_value (ecProbeValueSize (exCfg e));
                                   s = (exState e1)\<lparr>msProbes := msProbes (exState e1) + 1,
                                         msProbeMetadataLatency := rvMetadataLatency view,
                                         msProbeWriteLatency := poWriteLatency ob\<rparr>
                               in case snd (transport_Put (mwPut w primary) key val) of
                                    Some _ \<Rightarrow> Some (e1\<lparr>exState := s\<lparr>msProbeWriteErrors := msProbeWriteErrors s + 1\<rparr>\<rparr>)
                                  | None \<Rightarrow>
                                      measure_replicas w ob view shard (Replicas placement)
                                        (e1\<lparr>exState := probe_read (transport_Get (mwGet w primary key)) val
                                               (s\<lparr>msProbeReadLatency := poReadLatency ob\<rparr>)\<rparr>)))))"

text \<open>The two goroutines: the scraper starts with a scrape, then one per tick; the prober only on ticks.\<close>

fun scrapeLoop :: "('e mworld \<times> scrapeOrders \<times> int) list \<Rightarrow> exporter \<Rightarrow> exporter" where
  "scrapeLoop [] e = e"
| "scrapeLoop ((w, o', now) # ticks) e = scrapeLoop ticks (scrapeOnce w o' now e)"

fun probeLoop :: "('e mworld \<times> 'e probeObs) list \<Rightarrow> exporter \<Rightarrow> exporter option" where
  "probeLoop [] e = Some e"
| "probeLoop ((w, ob) # ticks) e = (case probeOnce w ob e of None \<Rightarrow> None | Some e' \<Rightarrow> probeLoop ticks e')"

subsection \<open>Exposition\<close>

text \<open>
  A sample's value before it becomes a \<^verbatim>\<open>float64\<close>: the seconds of a duration or an integer.  An
  \<open>emit\<close> is one call of the writer.
\<close>

datatype sample = FSeconds int | FInt int

datatype emit = EHelp string string string | EMetric string "(string, string) fmap" sample

definition run_emit :: "(nat \<Rightarrow> bool) \<Rightarrow> (sample \<Rightarrow> string) \<Rightarrow> emit \<Rightarrow> Writer \<Rightarrow> Writer" where
  "run_emit isPrint pct_g c w =
     (case c of
        EHelp name kind txt \<Rightarrow> Help name kind txt w
      | EMetric name labels val \<Rightarrow> Metric isPrint pct_g name labels val w)"

definition sortedKeys :: "(string, 'v) fmap \<Rightarrow> string list" where
  "sortedKeys m = sorted_list_of_fset (fmdom m)"

definition write_head :: "int \<Rightarrow> metricState \<Rightarrow> emit list" where
  "write_head now s =
     ([EHelp ''pulsekv_exporter_uptime_seconds'' ''gauge''
        ''Seconds since this exporter started.'',
      EMetric ''pulsekv_exporter_uptime_seconds'' fmempty (FSeconds (time_sub now (msStartedAt s))),
      EHelp ''pulsekv_scrapes_total'' ''counter''
        ''Cluster scrapes completed.'',
      EMetric ''pulsekv_scrapes_total'' fmempty (FInt (uint (msScrapes s))),
      EHelp ''pulsekv_control_plane_up'' ''gauge''
        ''1 when a control-plane replica published a topology on the last scrape. A replica that is running but still catching up after a restart reports 0 here, by design.'',
      EHelp ''pulsekv_control_plane_topology_generation'' ''gauge''
        ''Committed metadata generation this replica is serving.'',
      EHelp ''pulsekv_control_plane_live_nodes'' ''gauge''
        ''Live data nodes in this replica's published membership.'',
      EHelp ''pulsekv_control_plane_raft_term'' ''gauge''
        ''Raft term as this replica understands it.'',
      EHelp ''pulsekv_control_plane_metadata_latency_seconds'' ''gauge''
        ''Time for one coherent GetNodeList+GetShardMap pair against this replica. This is the control-plane routing cost a client pays before addressing any data.''])"

definition write_replica :: "string \<Rightarrow> replicaView \<Rightarrow> emit list" where
  "write_replica address view =
     (let labels = fmupd ''replica'' address fmempty
      in [EMetric ''pulsekv_control_plane_up'' labels (FInt (int (Bool (rvReachable view)))),
      EMetric ''pulsekv_control_plane_metadata_latency_seconds'' labels (FSeconds (rvMetadataLatency view))]
         @ (if \<not> rvReachable view then [] else [EMetric ''pulsekv_control_plane_topology_generation'' labels (FInt (uint (rvGeneration view))),
      EMetric ''pulsekv_control_plane_live_nodes'' labels (FInt (int (rvLiveNodes view))),
      EMetric ''pulsekv_control_plane_raft_term'' labels (FInt (uint (rvTerm view)))]))"

definition write_raft :: "int \<Rightarrow> metricState \<Rightarrow> emit list" where
  "write_raft now s =
     ([EHelp ''pulsekv_raft_leader'' ''gauge''
        ''1 for the replica ID the reachable replicas currently agree is leader.'']
      @ (if msCurrentLeader s \<noteq> [] then [EMetric ''pulsekv_raft_leader'' (fmupd ''leader'' (msCurrentLeader s) fmempty) (FInt 1)] else [])
      @ [EHelp ''pulsekv_raft_term'' ''gauge''
        ''Current agreed Raft term.'',
      EMetric ''pulsekv_raft_term'' fmempty (FInt (uint (msCurrentTerm s))),
      EHelp ''pulsekv_raft_leader_changes_total'' ''counter''
        ''Leader or term changes observed since this exporter started.'',
      EMetric ''pulsekv_raft_leader_changes_total'' fmempty (FInt (uint (msLeaderChanges s))),
      EHelp ''pulsekv_raft_leader_stable_seconds'' ''gauge''
        ''Seconds the current leader and term have held. The stability metric: a cluster that always has a leader but re-elects constantly is not healthy.'']
      @ (if msLeaderSince s \<noteq> zeroTime then [EMetric ''pulsekv_raft_leader_stable_seconds'' fmempty (FSeconds (time_sub now (msLeaderSince s)))] else [])
      @ [EHelp ''pulsekv_raft_leader_agreement'' ''gauge''
        ''1 when every reachable replica names the same leader and term.'',
      EMetric ''pulsekv_raft_leader_agreement'' fmempty (FInt (int (Bool (msLeaderAgreement s))))])"

definition write_convergence :: "metricState \<Rightarrow> emit list" where
  "write_convergence s =
     ([EHelp ''pulsekv_metadata_generation_changes_total'' ''counter''
        ''Committed metadata generations observed since this exporter started.'',
      EMetric ''pulsekv_metadata_generation_changes_total'' fmempty (FInt (uint (msGenerationChanges s))),
      EHelp ''pulsekv_metadata_convergence_seconds'' ''gauge''
        ''Time from the first replica publishing a new committed generation to the last one publishing it. Gossip exposes no convergence event of its own; this is the externally observable convergence that actually reaches clients.'',
      EMetric ''pulsekv_metadata_convergence_seconds'' fmempty (FSeconds (msLastConvergence s)),
      EHelp ''pulsekv_metadata_convergence_seconds_max'' ''gauge''
        ''Largest convergence interval observed since this exporter started.'',
      EMetric ''pulsekv_metadata_convergence_seconds_max'' fmempty (FSeconds (msMaxConvergence s)),
      EHelp ''pulsekv_metadata_convergence_samples_total'' ''counter''
        ''Convergence intervals measured.'',
      EMetric ''pulsekv_metadata_convergence_samples_total'' fmempty (FInt (uint (msConvergenceSamples s))),
      EHelp ''pulsekv_metadata_converged'' ''gauge''
        ''1 when every reachable replica is serving the highest committed generation seen.'',
      EMetric ''pulsekv_metadata_converged'' fmempty (FInt (int (Bool (msGenerationConverged s))))])"

definition write_node_families :: "emit list" where
  "write_node_families =
     ([EHelp ''pulsekv_node_up'' ''gauge''
        ''1 when the node answered HealthCheck.'',
      EHelp ''pulsekv_node_uptime_seconds'' ''gauge''
        ''Node process uptime.'',
      EHelp ''pulsekv_node_resident_keys'' ''gauge''
        ''Keys this node answers for, across both tiers.'',
      EHelp ''pulsekv_node_tier_bytes'' ''gauge''
        ''Value bytes held, by tier.'',
      EHelp ''pulsekv_node_tier_keys'' ''gauge''
        ''Keys held, by tier.'',
      EHelp ''pulsekv_node_spills_total'' ''counter''
        ''Values moved RAM -> NVMe since node start.'',
      EHelp ''pulsekv_node_promotions_total'' ''counter''
        ''Values moved NVMe -> RAM since node start.'',
      EHelp ''pulsekv_node_spill_errors_total'' ''counter''
        ''Spill writes that failed. The NVMe tier degrading, not the node failing: the entry is dropped and the node keeps serving.'',
      EHelp ''pulsekv_node_evict_drops_total'' ''counter''
        ''Entries dropped under memory pressure rather than spilled.'',
      EHelp ''pulsekv_node_bulk_transfers_total'' ''counter''
        ''Phase 6 bulk transport traffic by kind. kind=fallback counts requests that could not use it and went back to gRPC, which is normal operation: the bulk path is never required.'',
      EHelp ''pulsekv_node_capacity_latency_seconds'' ''gauge''
        ''Time for this node's Capacity RPC.''])"

definition write_node :: "string \<Rightarrow> nodeMetrics \<Rightarrow> emit list" where
  "write_node nid node =
     (let labels = fmupd ''address'' (nmAddress node) (fmupd ''node'' nid fmempty)
      in [EMetric ''pulsekv_node_up'' labels (FInt (int (Bool (nmReachable node))))]
         @ (if \<not> nmReachable node then [] else [EMetric ''pulsekv_node_uptime_seconds'' labels (FInt (nmUptime node)),
      EMetric ''pulsekv_node_resident_keys'' labels (FInt (uint (cpResidentKeys (nmCapacity node)))),
      EMetric ''pulsekv_node_capacity_latency_seconds'' labels (FSeconds (nmCapacityLatency node)),
      EMetric ''pulsekv_node_tier_bytes'' (With labels ''tier'' ''ram'') (FInt (uint (cpBytesInRamTier (nmCapacity node)))),
      EMetric ''pulsekv_node_tier_bytes'' (With labels ''tier'' ''nvme'') (FInt (uint (cpBytesInNvmeTier (nmCapacity node)))),
      EMetric ''pulsekv_node_tier_keys'' (With labels ''tier'' ''ram'') (FInt (uint (cpKeysInRamTier (nmCapacity node)))),
      EMetric ''pulsekv_node_tier_keys'' (With labels ''tier'' ''nvme'') (FInt (uint (cpKeysInNvmeTier (nmCapacity node)))),
      EMetric ''pulsekv_node_spills_total'' labels (FInt (uint (cpSpills (nmCapacity node)))),
      EMetric ''pulsekv_node_promotions_total'' labels (FInt (uint (cpPromotions (nmCapacity node)))),
      EMetric ''pulsekv_node_spill_errors_total'' labels (FInt (uint (cpSpillErrors (nmCapacity node)))),
      EMetric ''pulsekv_node_evict_drops_total'' labels (FInt (uint (cpEvictDrops (nmCapacity node)))),
      EMetric ''pulsekv_node_bulk_transfers_total'' (With labels ''kind'' ''write'') (FInt (uint (cpBulkWrites (nmCapacity node)))),
      EMetric ''pulsekv_node_bulk_transfers_total'' (With labels ''kind'' ''read'') (FInt (uint (cpBulkReads (nmCapacity node)))),
      EMetric ''pulsekv_node_bulk_transfers_total'' (With labels ''kind'' ''shared_memory_read'') (FInt (uint (cpBulkSharedMemoryReads (nmCapacity node)))),
      EMetric ''pulsekv_node_bulk_transfers_total'' (With labels ''kind'' ''fallback'') (FInt (uint (cpBulkFallbacks (nmCapacity node))))]))"

definition write_lag :: "string \<Rightarrow> replicaLag \<Rightarrow> emit list" where
  "write_lag nid lag =
     (let labels = fmupd ''node'' nid fmempty
      in [EMetric ''pulsekv_replication_lag_timeout'' labels (FInt (int (Bool (rlTimedOut lag))))]
         @ (if \<not> rlTimedOut lag then [EMetric ''pulsekv_replication_lag_seconds'' labels (FSeconds (rlSeconds lag))] else []))"

definition write_probe :: "exporterConfig \<Rightarrow> metricState \<Rightarrow> emit list" where
  "write_probe cfg s =
     (if \<not> ecProbeEnabled cfg then [EHelp ''pulsekv_probe_enabled'' ''gauge''
        ''0 when --probe=false: the hit-rate, replication-lag and latency-breakdown metrics below are then absent rather than zero.'',
      EMetric ''pulsekv_probe_enabled'' fmempty (FInt 0)]
      else [EHelp ''pulsekv_probe_enabled'' ''gauge''
        ''1 when the canary probe is running.'',
      EMetric ''pulsekv_probe_enabled'' fmempty (FInt 1),
      EHelp ''pulsekv_probe_total'' ''counter''
        ''Canary probes attempted.'',
      EMetric ''pulsekv_probe_total'' fmempty (FInt (uint (msProbes s))),
      EHelp ''pulsekv_probe_results_total'' ''counter''
        ''Canary probe outcomes. hit/miss is the cache hit rate this exporter can measure directly; an application's own hit rate is its to report, and the Phase 7/8 demo scripts report theirs.'',
      EMetric ''pulsekv_probe_results_total'' (fmupd ''result'' ''hit'' fmempty) (FInt (uint (msProbeHits s))),
      EMetric ''pulsekv_probe_results_total'' (fmupd ''result'' ''miss'' fmempty) (FInt (uint (msProbeMisses s))),
      EMetric ''pulsekv_probe_results_total'' (fmupd ''result'' ''mismatch'' fmempty) (FInt (uint (msProbeMismatches s))),
      EMetric ''pulsekv_probe_results_total'' (fmupd ''result'' ''write_error'' fmempty) (FInt (uint (msProbeWriteErrors s))),
      EMetric ''pulsekv_probe_results_total'' (fmupd ''result'' ''read_error'' fmempty) (FInt (uint (msProbeReadErrors s))),
      EHelp ''pulsekv_probe_latency_seconds'' ''gauge''
        ''Latest canary latency, split by phase. metadata is control-plane routing; write and read are data transfer to and from the owning node. The split is by construction, not by estimate: they are separate RPCs to separate processes.'',
      EMetric ''pulsekv_probe_latency_seconds'' (fmupd ''phase'' ''metadata'' fmempty) (FSeconds (msProbeMetadataLatency s)),
      EMetric ''pulsekv_probe_latency_seconds'' (fmupd ''phase'' ''write'' fmempty) (FSeconds (msProbeWriteLatency s)),
      EMetric ''pulsekv_probe_latency_seconds'' (fmupd ''phase'' ''read'' fmempty) (FSeconds (msProbeReadLatency s)),
      EHelp ''pulsekv_replication_lag_seconds'' ''gauge''
        ''Time from the primary acknowledging a canary write to this replica being able to serve it, read directly against the replica's own address.'',
      EHelp ''pulsekv_replication_lag_timeout'' ''gauge''
        ''1 when the replica did not receive the last canary within the lag budget.'']
        @ concat (map (\<lambda>nid. write_lag nid (the (fmlookup (msReplicationLag s) nid))) (sortedKeys (msReplicationLag s))))"

definition writeState :: "int \<Rightarrow> metricState \<Rightarrow> exporterConfig \<Rightarrow> emit list" where
  "writeState now s cfg =
     write_head now s
     @ concat (map (\<lambda>a. write_replica a (the (fmlookup (msReplicaViews s) a))) (sortedKeys (msReplicaViews s)))
     @ write_raft now s @ write_convergence s @ write_node_families
     @ concat (map (\<lambda>nid. write_node nid (the (fmlookup (msNodes s) nid))) (sortedKeys (msNodes s)))
     @ write_probe cfg s"

text \<open>\<open>snapshotLocked\<close> copies the maps; values are immutable here, so the copy is the state.\<close>

definition snapshotLocked :: "exporter \<Rightarrow> metricState" where
  "snapshotLocked e = exState e"

definition serveMetrics :: "(nat \<Rightarrow> bool) \<Rightarrow> (sample \<Rightarrow> string) \<Rightarrow> int \<Rightarrow> exporter \<Rightarrow> string \<times> string" where
  "serveMetrics isPrint pct_g now e =
     (ContentType, fold (run_emit isPrint pct_g) (writeState now (snapshotLocked e) (exCfg e)) [])"

end
