(* ===== verification/Metrics_Laws.thy ===== *)
theory Metrics_Laws
  imports Metrics_Exporter
begin

text \<open>
  What the exporter's numbers mean: the leader gauges and their change counter, the generation
  gauges (with two ways in which they say more than the replicas do), the conservation of node
  connections, the probe counters, the polling loop of the replication lag, and the shape of the
  exposition.
\<close>

subsection \<open>Leadership\<close>

lemma lead_step_simps [simp]:
  "\<not> rvReachable v \<Longrightarrow> lead_step v x = x"
  "rvReachable v \<Longrightarrow> lead_step v ((l, t, a), True) = ((rvLeaderID v, rvTerm v, a), False)"
  "rvReachable v \<Longrightarrow> lead_step v ((l, t, a), False) = ((l, t, a \<and> rvLeaderID v = l \<and> rvTerm v = t), False)"
  by (auto simp: lead_step_def split: prod.splits)

lemma lead_fold:
  "fold lead_step vs ((l, t, a), False) = ((l, t, a \<and> (\<forall>v \<in> set vs. rvReachable v \<longrightarrow> rvLeaderID v = l \<and> rvTerm v = t)), False)"
proof (induction vs arbitrary: a)
  case (Cons v vs)
  then show ?case
    by (cases "rvReachable v") auto
qed simp

lemma lead_fold_start:
  "fold lead_step vs (([], 0, True), True) =
     (case find rvReachable vs of
        None \<Rightarrow> (([], 0, True), True)
      | Some v \<Rightarrow> ((rvLeaderID v, rvTerm v, \<forall>u \<in> set vs. rvReachable u \<longrightarrow> rvLeaderID u = rvLeaderID v \<and> rvTerm u = rvTerm v), False))"
proof (induction vs)
  case (Cons v vs)
  then show ?case
    by (cases "rvReachable v") (auto simp: lead_fold split: option.splits)
qed simp

text \<open>Scrapes in which every reachable replica names the leader and term \<open>x\<close>, and at least one does.\<close>

definition unanimous :: "string \<times> u64 \<Rightarrow> replicaView list \<Rightarrow> bool" where
  "unanimous x vs \<longleftrightarrow> (\<exists>v \<in> set vs. rvReachable v) \<and>
     (\<forall>v \<in> set vs. rvReachable v \<longrightarrow> (rvLeaderID v, rvTerm v) = x)"

lemma observe_unanimous:
  assumes "unanimous x vs"
  shows "observeLeadershipLocked vs now s =
    (if x = (msCurrentLeader s, msCurrentTerm s) then s\<lparr>msLeaderAgreement := True\<rparr>
     else s\<lparr>msLeaderAgreement := True,
       msLeaderChanges := (if (msCurrentLeader s, msCurrentTerm s) = ([], 0) then msLeaderChanges s else msLeaderChanges s + 1),
       msCurrentLeader := fst x, msCurrentTerm := snd x, msLeaderSince := now\<rparr>)"
proof -
  have "find rvReachable vs \<noteq> None"
    using assms by (auto simp: find_None_iff unanimous_def)
  then obtain v where v: "find rvReachable vs = Some v"
    by blast
  then have "v \<in> set vs" "rvReachable v"
    by (auto simp: find_Some_iff)
  then have x: "rvLeaderID v = fst x" "rvTerm v = snd x"
    using assms by (auto simp: unanimous_def)
  have "\<forall>u \<in> set vs. rvReachable u \<longrightarrow> rvLeaderID u = fst x \<and> rvTerm u = snd x"
    using assms by (auto simp: unanimous_def)
  then have f: "fold lead_step vs (([], 0, True), True) = ((fst x, snd x, True), False)"
    by (simp add: lead_fold_start v x)
  show ?thesis
    by (simp add: observeLeadershipLocked_def f prod_eq_iff)
qed

fun observe_leaders :: "(replicaView list \<times> int) list \<Rightarrow> metricState \<Rightarrow> metricState" where
  "observe_leaders [] s = s"
| "observe_leaders ((vs, now) # rest) s = observe_leaders rest (observeLeadershipLocked vs now s)"

lemma observe_leaders_from:
  assumes "list_all2 (\<lambda>x (vs, now). unanimous x vs) xs obs" and "(msCurrentLeader s, msCurrentTerm s) \<noteq> ([], 0)"
    and "([], 0) \<notin> set xs" and "msLeaderAgreement s"
  shows "let s' = observe_leaders obs s; y = (msCurrentLeader s, msCurrentTerm s)
    in (msCurrentLeader s', msCurrentTerm s') = last (y # xs) \<and> msLeaderAgreement s' \<and>
       msLeaderChanges s' = msLeaderChanges s + of_nat (length (remdups_adj (y # xs)) - 1)"
  using assms
proof (induction xs arbitrary: obs s)
  case (Cons x xs)
  obtain vs now rest where o: "obs = (vs, now) # rest" "unanimous x vs" "list_all2 (\<lambda>x (vs, now). unanimous x vs) xs rest"
    using Cons.prems(1) by (auto simp: list_all2_Cons1)
  let ?s = "observeLeadershipLocked vs now s"
  have x: "(msCurrentLeader ?s, msCurrentTerm ?s) = x" "x \<noteq> ([], 0)"
    using Cons.prems(3) by (auto simp: observe_unanimous [OF o(2)])
  have ch: "msLeaderChanges ?s = msLeaderChanges s + (if x = (msCurrentLeader s, msCurrentTerm s) then 0 else 1)"
    using Cons.prems(2) by (auto simp: observe_unanimous [OF o(2)])
  have ag: "msLeaderAgreement ?s"
    by (simp add: observe_unanimous [OF o(2)])
  have "length (remdups_adj (x # xs)) \<noteq> 0"
    by simp
  then show ?case
    using Cons.IH [OF o(3), of ?s] ag x ch Cons.prems(3) o(1)
    by (auto simp: Let_def of_nat_diff)
qed simp

text \<open>
  The leader gauges count what they claim.  Over scrapes in each of which the reachable
  replicas agree, the gauges show the leader and term of the last one and the counter has grown by
  the number of times consecutive scrapes differed.
\<close>

theorem leader_changes_counted:
  assumes "list_all2 (\<lambda>x (vs, now). unanimous x vs) (x # xs) obs" and "([], 0) \<notin> set (x # xs)"
  shows "let s = observe_leaders obs (start_state t)
    in (msCurrentLeader s, msCurrentTerm s) = last (x # xs) \<and> msLeaderAgreement s \<and>
       msLeaderChanges s = of_nat (length (remdups_adj (x # xs)) - 1)"
proof -
  obtain vs now rest where o: "obs = (vs, now) # rest" "unanimous x vs" "list_all2 (\<lambda>x (vs, now). unanimous x vs) xs rest"
    using assms(1) by (auto simp: list_all2_Cons1)
  let ?s = "observeLeadershipLocked vs now (start_state t)"
  have "x \<noteq> ([], 0)"
    using assms(2) by auto
  then have "(msCurrentLeader ?s, msCurrentTerm ?s) = x" "msLeaderAgreement ?s" "msLeaderChanges ?s = 0"
    by (auto simp: observe_unanimous [OF o(2)] start_state_def)
  then show ?thesis
    using observe_leaders_from [OF o(3), of ?s] assms(2) o(1) by (auto simp: Let_def)
qed

definition sample_view_of :: "string \<Rightarrow> u64 \<Rightarrow> u64 \<Rightarrow> replicaView" where
  "sample_view_of leader term generation =
     (blank_view ''r:1'')\<lparr>rvReachable := True, rvLeaderID := leader, rvTerm := term, rvGeneration := generation\<rparr>"

theorem leader_changes_counted_witness:
  "let a = sample_view_of ''m1'' 3 1; b = sample_view_of ''m2'' 4 1;
       s = observe_leaders [([a, a], 1), ([a, blank_view ''x:1''], 2), ([b], 3), ([b, b], 4)] (start_state 0)
   in msCurrentLeader s = ''m2'' \<and> msLeaderChanges s = 1"
proof -
  let ?a = "sample_view_of ''m1'' 3 1" let ?b = "sample_view_of ''m2'' 4 1"
  have u: "unanimous (''m1'', 3) [?a, ?a]" "unanimous (''m1'', 3) [?a, blank_view ''x:1'']" "unanimous (''m2'', 4) [?b]"
      "unanimous (''m2'', 4) [?b, ?b]"
    by (simp_all add: unanimous_def sample_view_of_def blank_view_def)
  show ?thesis
    using leader_changes_counted [of "(''m1'', 3)" "[(''m1'', 3), (''m2'', 4), (''m2'', 4)]"
        "[([?a, ?a], 1), ([?a, blank_view ''x:1''], 2), ([?b], 3), ([?b, ?b], 4)]" 0] u
    by (simp add: Let_def)
qed

subsection \<open>Convergence\<close>

definition max_generation :: "replicaView list \<Rightarrow> u64" where
  "max_generation vs = fold (\<lambda>v h. max h (rvGeneration v)) (filter rvReachable vs) 0"

lemma fold_highest:
  "fold (\<lambda>v h. if rvGeneration v > h then rvGeneration v else h) vs h = fold (\<lambda>v h. max h (rvGeneration v)) vs h"
  by (rule fold_cong) (auto simp: max_def fun_eq_iff)

lemma observe_highest:
  "msHighestGeneration (observeConvergenceLocked vs now s) = max (msHighestGeneration s) (max_generation vs)"
proof (cases "filter rvReachable vs = []")
  case True
  then show ?thesis
    by (simp add: observeConvergenceLocked_def max_generation_def)
next
  case False
  then show ?thesis
    by (auto simp: observeConvergenceLocked_def max_generation_def fold_highest Let_def max_def)
qed

text \<open>
  The gauge \<^verbatim>\<open>pulsekv_metadata_converged\<close> is documented as 1 when every reachable replica serves the
  highest generation seen.  Once set it stays set until a higher generation appears, whatever the
  replicas serve.
\<close>

theorem converged_gauge_sticks:
  assumes "msGenerationConverged s" and "max_generation vs \<le> msHighestGeneration s"
  shows "msGenerationConverged (observeConvergenceLocked vs now s)"
  using assms by (simp add: observeConvergenceLocked_def Let_def fold_highest max_generation_def [symmetric])

theorem converged_gauge_sticks_example:
  "let s = observeConvergenceLocked [sample_view_of ''m1'' 3 2, sample_view_of ''m1'' 3 2] 1 (start_state 0);
       s' = observeConvergenceLocked [sample_view_of ''m1'' 3 1] 2 s
   in msGenerationConverged s' \<and> msHighestGeneration s' = 2"
  by (simp add: observeConvergenceLocked_def sample_view_of_def blank_view_def start_state_def Let_def)

text \<open>
  Two replicas that both serve generation 0 when the exporter starts count as having converged since
  the zero time: the interval saturates at the largest duration, and the maximum stays there.
\<close>

theorem first_convergence_saturates:
  assumes "0 \<le> now"
  shows "let s = observeConvergenceLocked [sample_view_of l t 0, sample_view_of l t 0] now (start_state started)
    in msLastConvergence s = 2 ^ 63 - 1 \<and> msMaxConvergence s = 2 ^ 63 - 1 \<and> msConvergenceSamples s = 1"
  using assms by (simp add: observeConvergenceLocked_def sample_view_of_def blank_view_def start_state_def Let_def time_sub_def
    zeroTime_def)

subsection \<open>Connections and probe counters\<close>

definition pool_inv :: "exporter \<Rightarrow> bool" where
  "pool_inv e \<longleftrightarrow> exPanicked e \<or> mset (exShut e) + conns_mset (pool e) = mset [0..<exNext e]"

definition probe_sum :: "metricState \<Rightarrow> u64" where
  "probe_sum s = msProbeHits s + msProbeMisses s + msProbeMismatches s + msProbeWriteErrors s + msProbeReadErrors s"







lemma observe_probe_fields [simp]:
  "msProbes (observeLeadershipLocked vs now s) = msProbes s"
  "probe_sum (observeLeadershipLocked vs now s) = probe_sum s"
  "msProbes (observeConvergenceLocked vs now s) = msProbes s"
  "probe_sum (observeConvergenceLocked vs now s) = probe_sum s"
  by (simp_all add: observeLeadershipLocked_def observeConvergenceLocked_def probe_sum_def Let_def split: prod.splits)

lemma pool_inv_state [simp]: "pool_inv (e\<lparr>exState := s\<rparr>) = pool_inv e"
  by (simp add: pool_inv_def pool_def)












definition sample_exporter_config :: exporterConfig where
  "sample_exporter_config = \<lparr>ecControlPlanes = [''cp:1''], ecRpcTimeout = 3, ecProbeEnabled = True, ecProbeValueSize = 2,
     ecProbeKeyPrefix = ''p'', ecReplicationLagBudget = 10\<rparr>"


text \<open>After \<open>Close\<close> any dial of a node assigns to the nil pool.\<close>

theorem nodeClient_after_Close:
  assumes "mwDial w address = None"
  shows "exPanicked (fst (nodeClient w address (snd (exporter_Close order e))))"
  using assms by (simp add: nodeClient_def exporter_Close_def pool_def)

subsection \<open>Replication lag\<close>

text \<open>The polling loop returns once the clock passes its deadline.\<close>

lemma lag_poll_from:
  assumes "\<not> lrNow (rounds (k + n)) < deadline"
  shows "\<exists>lag. lag_poll rounds deadline writtenAt k = Some lag \<and>
    (\<not> rlTimedOut lag \<longrightarrow> (\<exists>j v. k \<le> j \<and> j \<le> k + n \<and> lrNow (rounds j) < deadline \<and>
       transport_Get (lrGet (rounds j)) = Inr (Some v) \<and> rlSeconds lag = time_sub (lrSince (rounds j)) writtenAt))"
  using assms
proof (induction n arbitrary: k)
  case 0
  then show ?case
    by (subst lag_poll.simps) (simp add: Let_def lag_timed_out_def)
next
  case (Suc n)
  have "\<exists>lag. lag_poll rounds deadline writtenAt (Suc k) = Some lag \<and>
    (\<not> rlTimedOut lag \<longrightarrow> (\<exists>j v. Suc k \<le> j \<and> j \<le> Suc k + n \<and> lrNow (rounds j) < deadline \<and>
       transport_Get (lrGet (rounds j)) = Inr (Some v) \<and> rlSeconds lag = time_sub (lrSince (rounds j)) writtenAt))"
    using Suc.IH [of "Suc k"] Suc.prems by simp
  then obtain lag where lag: "lag_poll rounds deadline writtenAt (Suc k) = Some lag"
     "\<not> rlTimedOut lag \<Longrightarrow> \<exists>j v. k \<le> j \<and> j \<le> k + Suc n \<and> lrNow (rounds j) < deadline \<and>
       transport_Get (lrGet (rounds j)) = Inr (Some v) \<and> rlSeconds lag = time_sub (lrSince (rounds j)) writtenAt"
    by (metis Suc_leD add_Suc_shift)
  show ?case
  proof (cases "\<exists>v. lrNow (rounds k) < deadline \<and> transport_Get (lrGet (rounds k)) = Inr (Some v)")
    case True
    then show ?thesis
      by (subst lag_poll.simps) (auto simp: Let_def)
  next
    case False
    then show ?thesis
      using lag by (subst lag_poll.simps) (auto simp: Let_def lag_timed_out_def split: sum.splits option.splits)
  qed
qed

subsection \<open>The exposition is well formed\<close>

fun families :: "emit list \<Rightarrow> string list" where
  "families [] = []"
| "families (EHelp name kind t # es) = name # families es"
| "families (EMetric name labels val # es) = families es"

text \<open>Every family is announced once, and every sample belongs to one announced before it.\<close>

fun announced :: "string set \<Rightarrow> emit list \<Rightarrow> bool" where
  "announced seen [] = True"
| "announced seen (EHelp name kind t # es) = (name \<notin> seen \<and> announced (insert name seen) es)"
| "announced seen (EMetric name labels val # es) = (name \<in> seen \<and> announced seen es)"

lemma families_append [simp]: "families (xs @ ys) = families xs @ families ys"
  by (induction xs rule: families.induct) auto

lemma announced_append:
  "announced seen (xs @ ys) \<longleftrightarrow> announced seen xs \<and> announced (seen \<union> set (families xs)) ys"
  by (induction seen xs rule: announced.induct) auto

fun sample_of :: "string set \<Rightarrow> emit \<Rightarrow> bool" where
  "sample_of names (EHelp name kind t) = False"
| "sample_of names (EMetric name labels val) = (name \<in> names)"

lemma announced_samples:
  assumes "list_all (sample_of names) es" and "names \<subseteq> seen"
  shows "announced seen es" and "families es = []"
proof -
  have "announced seen es \<and> families es = []"
    using assms
  proof (induction es)
    case (Cons c es)
    then show ?case
      by (cases c) auto
  qed simp
  then show "announced seen es" "families es = []"
    by simp_all
qed

definition replica_names :: "string set" where
  "replica_names = {''pulsekv_control_plane_up'', ''pulsekv_control_plane_topology_generation'', ''pulsekv_control_plane_live_nodes'',
     ''pulsekv_control_plane_raft_term'', ''pulsekv_control_plane_metadata_latency_seconds''}"

definition node_names :: "string set" where
  "node_names = set (families write_node_families)"

definition lag_names :: "string set" where
  "lag_names = {''pulsekv_replication_lag_seconds'', ''pulsekv_replication_lag_timeout''}"

lemma replica_samples: "list_all (sample_of replica_names) (write_replica a v)"
  by (simp add: write_replica_def replica_names_def Let_def)

lemma node_samples: "list_all (sample_of node_names) (write_node n m)"
  by (simp add: write_node_def node_names_def write_node_families_def Let_def)

lemma lag_samples: "list_all (sample_of lag_names) (write_lag n l)"
  by (simp add: write_lag_def lag_names_def Let_def)

lemma concat_samples:
  assumes "\<And>x. list_all (sample_of names) (f x)"
  shows "list_all (sample_of names) (concat (map f xs))"
  using assms by (induction xs) auto

lemma head_announced: "announced {} (write_head now s)"
  by (simp add: write_head_def)

lemma head_families: "families (write_head now s) =
   [''pulsekv_exporter_uptime_seconds'', ''pulsekv_scrapes_total'', ''pulsekv_control_plane_up'',
    ''pulsekv_control_plane_topology_generation'', ''pulsekv_control_plane_live_nodes'', ''pulsekv_control_plane_raft_term'',
    ''pulsekv_control_plane_metadata_latency_seconds'']"
  by (simp add: write_head_def)

lemma raft_families: "families (write_raft now s) =
   [''pulsekv_raft_leader'', ''pulsekv_raft_term'', ''pulsekv_raft_leader_changes_total'', ''pulsekv_raft_leader_stable_seconds'',
    ''pulsekv_raft_leader_agreement'']"
  by (simp add: write_raft_def)

lemma convergence_families: "families (write_convergence s) =
   [''pulsekv_metadata_generation_changes_total'', ''pulsekv_metadata_convergence_seconds'',
    ''pulsekv_metadata_convergence_seconds_max'', ''pulsekv_metadata_convergence_samples_total'', ''pulsekv_metadata_converged'']"
  by (simp add: write_convergence_def)

lemma raft_announced: "announced (set (families (write_head now s))) (write_raft now s)"
  by (simp add: write_raft_def head_families announced_append)

lemma convergence_announced:
  "announced (set (families (write_head now s)) \<union> set (families (write_raft now s))) (write_convergence s)"
  by (simp add: write_convergence_def head_families raft_families)

lemma node_families_announced:
  "announced (set (families (write_head now s)) \<union> set (families (write_raft now s)) \<union> set (families (write_convergence s)))
     write_node_families"
  by (simp add: write_node_families_def head_families raft_families convergence_families)

lemma probe_announced:
  "announced (set (families (write_head now s)) \<union> set (families (write_raft now s)) \<union> set (families (write_convergence s))
     \<union> set (families write_node_families)) (write_probe cfg s)"
proof -
  note samples = announced_samples [OF concat_samples [OF lag_samples]]
  show ?thesis
    by (simp add: write_probe_def announced_append samples lag_names_def head_families raft_families convergence_families
      write_node_families_def)
qed

lemma writeState_announced: "announced {} (writeState now s cfg)"
proof -
  let ?R = "concat (map (\<lambda>a. write_replica a (the (fmlookup (msReplicaViews s) a))) (sortedKeys (msReplicaViews s)))"
  let ?N = "concat (map (\<lambda>nid. write_node nid (the (fmlookup (msNodes s) nid))) (sortedKeys (msNodes s)))"
  have R: "announced (set (families (write_head now s))) ?R"
    by (rule announced_samples(1) [OF concat_samples [OF replica_samples]]) (simp add: replica_names_def head_families)
  have R2: "families ?R = []"
    by (rule announced_samples(2) [OF concat_samples [OF replica_samples] subset_refl])
  have N: "families ?N = []"
    by (rule announced_samples(2) [OF concat_samples [OF node_samples] subset_refl])
  have "announced (A \<union> set (families write_node_families)) ?N" for A
    by (rule announced_samples(1) [OF concat_samples [OF node_samples]]) (auto simp: node_names_def)
  then show ?thesis
    using head_announced raft_announced convergence_announced node_families_announced probe_announced
    unfolding writeState_def announced_append R2 N by (simp add: R)
qed

fun clean :: "emit \<Rightarrow> bool" where
  "clean (EHelp name kind t) = (newline \<notin> set name \<and> newline \<notin> set kind)"
| "clean (EMetric name labels val) = (newline \<notin> set name \<and> (\<forall>k. k |\<in>| fmdom labels \<longrightarrow> newline \<notin> set k))"

lemma clean_samples: "list_all clean (write_replica a v)" "list_all clean (write_node n m)" "list_all clean (write_lag n l)"
  by (auto simp: write_replica_def write_node_def write_lag_def With_def newline_def Let_def)

lemma clean_concat: "(\<And>x. list_all clean (f x)) \<Longrightarrow> list_all clean (concat (map f xs))"
  by (induction xs) auto

lemma clean_parts: "list_all clean (write_head now s)" "list_all clean (write_raft now s)" "list_all clean (write_convergence s)"
  "list_all clean write_node_families" "list_all clean (write_probe cfg s)"
  by (simp_all add: write_head_def write_raft_def write_convergence_def write_node_families_def write_probe_def newline_def
    clean_concat clean_samples)

lemma writeState_clean: "list_all clean (writeState now s cfg)"
  by (simp add: writeState_def clean_parts clean_concat clean_samples)

lemma run_emit_lines:
  assumes "text_lines w = Some ls" and "clean c" and "\<And>v. newline \<notin> set (pct_g v)"
  shows "\<exists>ls'. text_lines (run_emit isPrint pct_g c w) = Some ls' \<and>
    length ls' = length ls + (case c of EHelp _ _ _ \<Rightarrow> 2 | EMetric _ _ _ \<Rightarrow> 1)"
proof (cases c)
  case (EHelp name kind t)
  then show ?thesis
    using Help_lines [OF assms(1), of name kind t] assms(2) by (simp add: run_emit_def)
next
  case (EMetric name labels val)
  then show ?thesis
    using Metric_lines [OF assms(1), of name labels pct_g val isPrint] assms(2,3) by (auto simp: run_emit_def)
qed

text \<open>
  Every scrape is well-formed exposition.  Whatever state, addresses and identifiers the exporter
  holds, each metric family is announced once, each sample follows the announcement of its family, and
  the text is a sequence of complete lines, two per family and one per sample.
\<close>

theorem scrape_well_formed:
  assumes "\<And>v. newline \<notin> set (pct_g v)"
  shows "announced {} (writeState now (exState e) (exCfg e)) \<and>
    (\<exists>ls. text_lines (snd (serveMetrics isPrint pct_g now e)) = Some ls \<and>
       length ls = length (writeState now (exState e) (exCfg e)) + length (families (writeState now (exState e) (exCfg e))))"
proof -
  have "\<exists>ls. text_lines (fold (run_emit isPrint pct_g) es w) = Some ls \<and> length ls = length ws + length es + length (families es)"
    if "text_lines w = Some ws" "list_all clean es" for es w ws
    using that
  proof (induction es arbitrary: w ws)
    case (Cons c es)
    obtain ls where ls: "text_lines (run_emit isPrint pct_g c w) = Some ls"
        "length ls = length ws + (case c of EHelp _ _ _ \<Rightarrow> 2 | EMetric _ _ _ \<Rightarrow> 1)"
      using run_emit_lines [where pct_g = pct_g, OF Cons.prems(1) _ assms] Cons.prems(2) by auto
    then show ?case
      using Cons.IH [OF ls(1)] Cons.prems(2) by (cases c) auto
  qed simp
  from this [of "[]" "[]" "writeState now (exState e) (exCfg e)"] show ?thesis
    using writeState_announced writeState_clean by (simp add: serveMetrics_def snapshotLocked_def text_lines_def)
qed

theorem scrape_well_formed_witness:
  "\<exists>ls. text_lines (snd (serveMetrics (\<lambda>_. True) (\<lambda>_. ''0'') 0
     \<lparr>exCfg = sample_exporter_config, exReplicas = [], exState = start_state 0, exNodeConns = None, exNext = 0, exShut = [],
      exPanicked = False\<rparr>)) = Some ls"
proof -
  have "newline \<notin> set ''0''"
    by (simp add: newline_def)
  from scrape_well_formed [where pct_g = "\<lambda>_. ''0''", OF this] show ?thesis
    by blast
qed

end
