(* ===== verification/Host_Text.thy ===== *)
theory Host_Text
  imports Cluster_Config Membership_Manager
begin

text \<open>
  Facts on the texts a validated configuration consists of: which characters an address accepted
  by \<^verbatim>\<open>net.ParseIP\<close> has and how long it is, so that \<^verbatim>\<open>host:port\<close> texts split back, are left alone by
  \<^verbatim>\<open>TrimSpace\<close> and fit the limits of the gossip library.
\<close>

subsection \<open>Plain characters\<close>

text \<open>Printable ASCII without space and without the characters JSON output escapes.\<close>

definition is_plain :: "char \<Rightarrow> bool" where
  "is_plain c \<longleftrightarrow> 33 \<le> byte c \<and> byte c < 127 \<and> c \<notin> {CHR 0x22, CHR 0x5C, CHR ''<'', CHR ''>'', CHR ''&''}"

lemma space_encodings_not_plain: "e \<in> set space_encodings \<Longrightarrow> e \<noteq> [] \<Longrightarrow> \<not> is_plain (hd e) \<and> \<not> is_plain (last e)"
  by (auto simp: space_encodings_def is_plain_def byte_def upt_conv_Cons)

lemma TrimSpace_plain:
  assumes "list_all is_plain s"
  shows "TrimSpace s = s"
proof -
  have "trim_with space_encodings s = s"
    using assms space_encodings_not_plain by (intro trim_with_id) (auto simp: list_all_iff dest!: in_set_takeD)
  moreover have "hd (rev e) \<notin> set (take 1 (rev s))" if "e \<in> set space_encodings" "e \<noteq> []" for e
    using assms space_encodings_not_plain [OF that] that(2) by (auto simp: hd_rev list_all_iff dest: in_set_takeD)
  then have "trim_with (map rev space_encodings) (rev s) = rev s"
    by (intro trim_with_id) auto
  ultimately show ?thesis
    by (simp add: TrimSpace_def)
qed

lemma quote_body_plain: "list_all is_plain s \<Longrightarrow> quote_body s = s"
proof (induction s)
  case (Cons c s)
  then have c: "byte c < 0x80" "is_html_safe c"
    by (auto simp: is_plain_def is_html_safe_def)
  then have "rune_len (c # s) = 1"
    by (simp add: rune_len_def lead_size_def)
  moreover have "escape_rune [c] = [c]"
    using c by (simp add: escape_rune_def escape_ascii_def encode_rune_def)
  ultimately show ?case
    using Cons by (simp add: quote_body.simps [of "c # s"])
qed (simp add: quote_body.simps)

lemma is_digit_plain: "is_digit c \<Longrightarrow> is_plain c"
  by (auto simp: is_digit_def is_plain_def byte_def less_eq_char_def)

lemma is_hex_plain: "is_hex c \<Longrightarrow> is_plain c"
  by (auto simp: is_hex_def is_digit_plain) (auto simp: is_plain_def byte_def less_eq_char_def)

lemma is_id_char_plain: "is_id_char c \<Longrightarrow> is_plain c"
  by (auto simp: is_id_char_def is_alnum_def is_digit_plain is_plain_def byte_def less_eq_char_def)

subsection \<open>What ParseIP accepts\<close>

definition is_addr_char :: "char \<Rightarrow> bool" where
  "is_addr_char c \<longleftrightarrow> is_hex c \<or> c = CHR ''.'' \<or> c = CHR '':''"

lemma is_addr_char_plain: "is_addr_char c \<Longrightarrow> is_plain c"
  by (auto simp: is_addr_char_def is_hex_plain) (simp_all add: is_plain_def byte_def)

lemma split_on_chars: "c \<in> set s \<Longrightarrow> c = sep \<or> (\<exists>w \<in> set (split_on sep s). c \<in> set w)"
  by (induction s) (auto split: list.splits if_splits)

lemma split_on_length: "length s + 1 = sum_list (map length (split_on sep s)) + length (split_on sep s)"
  by (induction s) (auto split: list.splits)

lemma digits_val_lower:
  assumes "list_all is_digit w" and "w \<noteq> []" and "hd w \<noteq> CHR ''0''"
  shows "10 ^ (length w - 1) \<le> digits_val w"
  using assms
proof (induction w rule: rev_induct)
  case (snoc c w)
  show ?case
  proof (cases "w = []")
    case True
    then have "is_digit c" "c \<noteq> CHR ''0''"
      using snoc.prems by auto
    then have "CHR ''0'' < c"
      by (auto simp: is_digit_def order_less_le)
    then have "48 < (of_char c :: nat)"
      by (simp add: less_char_def)
    then show ?thesis
      using True digits_val_snoc [of "[]" c] by (simp add: digits_val_def)
  next
    case False
    then have "10 ^ (length w - 1) \<le> digits_val w"
      using snoc by auto
    then have "10 * 10 ^ (length w - 1) \<le> digits_val w * 10 + (of_char c - 48)"
      by simp
    moreover have "10 * 10 ^ (length w - 1) = (10 :: nat) ^ (length (w @ [c]) - 1)"
      using False by (cases w) simp_all
    ultimately show ?thesis
      by simp
  qed
qed simp

lemma ipv4_octet_short: "ipv4_octet w \<noteq> None \<Longrightarrow> list_all is_digit w \<and> length w \<le> 3"
proof -
  assume "ipv4_octet w \<noteq> None"
  then have w: "w \<noteq> []" "list_all is_digit w" "length w > 1 \<Longrightarrow> hd w \<noteq> CHR ''0''" "digits_val w \<le> 255"
    by (auto simp: ipv4_octet_def split: if_splits)
  have "length w \<le> 3"
  proof (rule ccontr)
    assume "\<not> length w \<le> 3"
    then have "10 ^ (length w - 1) \<le> digits_val w"
      using digits_val_lower [OF w(2,1)] w(3) by simp
    moreover have "(10 :: nat) ^ 3 \<le> 10 ^ (length w - 1)"
      using \<open>\<not> length w \<le> 3\<close> by (intro power_increasing) simp_all
    ultimately have "10 ^ 3 \<le> digits_val w"
      by (rule order_trans [rotated])
    with w(4) show False
      by simp
  qed
  with w(2) show ?thesis
    by simp
qed

lemma ipv4_text: "ipv4_fields s = Some ip \<Longrightarrow> list_all is_addr_char s \<and> length s \<le> 15"
proof -
  assume "ipv4_fields s = Some ip"
  then have ws: "length (split_on CHR ''.'' s) = 4" "list_all (\<lambda>w. ipv4_octet w \<noteq> None) (split_on CHR ''.'' s)"
    by (auto simp: ipv4_fields_def Let_def split: if_splits)
  then have short: "\<And>w. w \<in> set (split_on CHR ''.'' s) \<Longrightarrow> list_all is_digit w \<and> length w \<le> 3"
    using ipv4_octet_short by (auto simp: list_all_iff)
  have "sum_list (map length (split_on CHR ''.'' s)) \<le> sum_list (map (\<lambda>_. 3) (split_on CHR ''.'' s))"
    using short by (intro sum_list_mono) blast
  then have "length s \<le> 15"
    using split_on_length [of s "CHR ''.''"] ws(1) by (simp add: sum_list_triv)
  moreover have "is_addr_char c" if "c \<in> set s" for c
    using split_on_chars [OF that, of "CHR ''.''"] short by (auto simp: is_addr_char_def is_hex_def list_all_iff)
  ultimately show ?thesis
    by (simp add: list_all_iff)
qed

lemma ipv6_text: "ipv6_groups n s ip e = Some r \<Longrightarrow> list_all is_addr_char s \<and> length s \<le> 6 * n + 15"
proof (induction n arbitrary: s ip e r)
  case (Suc n)
  let ?hex = "takeWhile is_hex s" let ?rest = "dropWhile is_hex s"
  have h: "list_all is_addr_char ?hex" "s = ?hex @ ?rest"
    by (auto simp: list_all_iff is_addr_char_def dest: set_takeWhileD)
  have len: "length ?hex \<le> 4" "?hex \<noteq> []"
    using Suc.prems by (auto simp: Let_def split: if_splits)
  have colon: "is_addr_char CHR '':''"
    by (simp add: is_addr_char_def)
  have rest: "list_all is_addr_char ?rest \<and> length ?rest \<le> 6 * n + 17 \<or> list_all is_addr_char s \<and> length s \<le> 15"
  proof (cases ?rest)
    case (Cons c more)
    show ?thesis
    proof (cases "c = CHR ''.''")
      case True
      then have "ipv4_fields s \<noteq> None"
        using Suc.prems Cons len by (auto simp: Let_def split: if_splits)
      then show ?thesis
        using ipv4_text by blast
    next
      case False
      then obtain d tail where d: "c = CHR '':''" "more = d # tail"
        using Suc.prems Cons len by (auto simp: Let_def split: if_splits list.splits)
      have "list_all is_addr_char more \<and> length more \<le> 6 * n + 16"
      proof (cases "d = CHR '':''")
        case True
        then have "tail = [] \<or> (\<exists>ip' e'. ipv6_groups n tail ip' e' = Some r)"
          using Suc.prems Cons len d by (auto simp: Let_def split: if_splits)
        then have "list_all is_addr_char tail \<and> length tail \<le> 6 * n + 15"
        proof
          assume "\<exists>ip' e'. ipv6_groups n tail ip' e' = Some r"
          then show ?thesis
            using Suc.IH by blast
        qed simp
        then show ?thesis
          using True d colon by simp
      next
        case False
        then have "\<exists>ip' e'. ipv6_groups n more ip' e' = Some r"
          using Suc.prems Cons len d by (auto simp: Let_def split: if_splits)
        then have "list_all is_addr_char more \<and> length more \<le> 6 * n + 15"
          using Suc.IH by blast
        then show ?thesis
          by simp
      qed
      then show ?thesis
        using Cons d colon by simp
    qed
  next
    case Nil
    show ?thesis
      unfolding Nil by simp
  qed
  have "length s = length ?hex + length ?rest"
    by (metis length_append takeWhile_dropWhile_id)
  moreover have "list_all is_addr_char s" if "list_all is_addr_char ?rest"
    using h that by (metis list_all_append)
  ultimately show ?case
    using rest len(1) by auto
qed (auto split: if_splits)

lemma ParseIP_text:
  assumes "ParseIP s = Some ip"
  shows "list_all is_addr_char s \<and> length s \<le> 65 \<and> s \<noteq> []"
proof -
  have ne: "s \<noteq> []"
    using assms by (auto simp: ParseIP_def)
  consider v where "ipv4_fields s = Some v" | "ParseIPv6 s = Some ip"
    using assms by (auto simp: ParseIP_def split: if_splits option.splits)
  then show ?thesis
  proof cases
    case 1
    then show ?thesis
      using ipv4_text ne by fastforce
  next
    case 2
    show ?thesis
    proof (cases "take 2 s = ''::''")
      case True
      then obtain r where r: "s = ''::'' @ r"
        by (metis append_take_drop_id)
      have "list_all is_addr_char r \<and> length r \<le> 63"
        using 2 r ipv6_text [of 8 r] by (fastforce simp: ParseIPv6_def split: if_splits Option.bind_splits)
      then show ?thesis
        using r by (simp add: is_addr_char_def)
    next
      case False
      then show ?thesis
        using 2 ipv6_text ne by (fastforce simp: ParseIPv6_def split: if_splits Option.bind_splits)
    qed
  qed
qed

subsection \<open>Host and port\<close>

lemma nat_digits_short: "n < 10 ^ Suc k \<Longrightarrow> length (nat_digits n) \<le> Suc k"
proof (induction k arbitrary: n)
  case 0
  then show ?case
    by (subst nat_digits.simps) simp
next
  case (Suc k)
  show ?case
  proof (cases "n < 10")
    case True
    then show ?thesis
      by (subst nat_digits.simps) simp
  next
    case False
    have "n div 10 < 10 ^ Suc k"
      using Suc.prems by simp
    from Suc.IH [OF this] show ?thesis
      using False by (subst nat_digits.simps) simp
  qed
qed

lemma Itoa_port:
  assumes "port_ok p"
  shows "list_all is_plain (Itoa p)" and "length (Itoa p) \<le> 5" and "Atoi (Itoa p) = Some p" and "Itoa p \<noteq> []"
proof -
  have p: "0 < p" "p \<le> 65535"
    using assms by (simp_all add: port_ok_def maxPort_def)
  then show "list_all is_plain (Itoa p)"
    using nat_digits_all [of "nat p"] by (auto simp: Itoa_def list_all_iff is_digit_plain)
  show "length (Itoa p) \<le> 5"
    using p nat_digits_short [of "nat p" 4] by (simp add: Itoa_def)
  show "Atoi (Itoa p) = Some p"
    using p by (intro Atoi_Itoa) simp_all
  show "Itoa p \<noteq> []"
    by (simp add: Itoa_def)
qed

lemma host_text:
  assumes "host_ok h"
  shows "list_all is_addr_char h" and "length h \<le> 65" and "h \<noteq> []" and "list_all is_plain h" and "ParseIP h \<noteq> None"
  using assms ParseIP_text [of h]
  by (auto simp: host_ok_def list_all_iff is_addr_char_plain split: option.splits)

lemma bracket_not_addr: "is_addr_char c \<Longrightarrow> c \<noteq> CHR ''['' \<and> c \<noteq> CHR '']'' \<and> c \<noteq> CHR '',''"
  by (auto simp: is_addr_char_def is_hex_def is_digit_def less_eq_char_def)

lemma host_port_text:
  assumes "host_ok h" and "port_ok p"
  shows "list_all is_plain (JoinHostPort h (Itoa p))" and "length (JoinHostPort h (Itoa p)) \<le> 73"
    and "JoinHostPort h (Itoa p) \<noteq> []" and "CHR '','' \<notin> set (JoinHostPort h (Itoa p))"
    and "validateServiceAddress (JoinHostPort h (Itoa p)) = Inr ()"
proof -
  note h = host_text [OF assms(1)] and p = Itoa_port [OF assms(2)]
  have brackets: "is_plain CHR ''['' \<and> is_plain CHR '']'' \<and> is_plain CHR '':''"
    by (simp add: is_plain_def byte_def)
  show "list_all is_plain (JoinHostPort h (Itoa p))"
    using h(4) p(1) brackets by (simp add: JoinHostPort_def)
  show "length (JoinHostPort h (Itoa p)) \<le> 73"
    using h(2) p(2) by (simp add: JoinHostPort_def)
  show "JoinHostPort h (Itoa p) \<noteq> []"
    by (simp add: JoinHostPort_def)
  have h': "CHR ''['' \<notin> set h" "CHR '']'' \<notin> set h" "CHR '','' \<notin> set h"
    using h(1) bracket_not_addr by (auto simp: list_all_iff)
  have pos: "0 \<le> p" and range: "1 \<le> p" "p \<le> 65535"
    using assms(2) by (simp_all add: port_ok_def maxPort_def)
  have "CHR '','' \<notin> set (Itoa p)"
    using nat_digits_all [of "nat p"] pos by (auto simp: Itoa_def list_all_iff is_digit_def less_eq_char_def)
  then show "CHR '','' \<notin> set (JoinHostPort h (Itoa p))"
    using h'(3) by (simp add: JoinHostPort_def)
  have "SplitHostPort (JoinHostPort h (Itoa p)) = Some (h, Itoa p)"
    using SplitHostPort_JoinHostPort [OF h'(1,2) Itoa_no_colon [OF pos]] .
  then show "validateServiceAddress (JoinHostPort h (Itoa p)) = Inr ()"
    using TrimSpace_plain [OF h(4)] h(3) p(3) range by (simp add: validateServiceAddress_def)
qed

lemma split_on_join:
  "ws \<noteq> [] \<Longrightarrow> \<forall>w \<in> set ws. sep \<notin> set w \<Longrightarrow> split_on sep (join_with [sep] ws) = ws"
proof (induction "[sep]" ws rule: join_with.induct)
  case (2 w)
  have "sep \<notin> set w \<Longrightarrow> split_on sep w = [w]"
    by (induction w) auto
  then show ?case
    using 2 by simp
next
  case (3 w v vs)
  have "sep \<notin> set w \<Longrightarrow> split_on sep (w @ sep # r) = w # split_on sep r" for r
    by (induction w) auto
  then show ?case
    using 3 by simp
qed simp

lemma id_ok_plain: "id_ok nid \<Longrightarrow> list_all is_plain nid \<and> nid \<noteq> [] \<and> nodeIDPattern nid \<and> length nid \<le> 64"
  using nodeIDPattern_chars [of nid] is_id_char_plain
  by (auto simp: id_ok_def list_all_iff MaxNodeIDBytes_def nodeIDPattern_def)

end
