(* ===== verification/Member_Sidecar.thy ===== *)
theory Member_Sidecar
  imports Host_Text
begin

text \<open>
  \<^verbatim>\<open>cmd/pulsekv-member/main.go\<close>: the gossip sidecar of one data node.

  Times are nanoseconds and a deadline of \<open>None\<close> is the zero \<^verbatim>\<open>time.Time\<close>.  What the sidecar observes of
  the clock, of the signal context, of its node and of the gossip library is supplied round by
  round; \<open>isCanceled\<close> says for which errors \<^verbatim>\<open>errors.Is\<close> finds \<^verbatim>\<open>context.Canceled\<close>.  The two waiting loops and
  the main loop may run forever: they are partial functions, and the lemmas show when they return.

  The lemmas show that a sidecar started from a valid configuration is accepted by the gossip
  library's limits, when its watchdog withdraws the node, and that it never leaves a participant
  behind.
\<close>

subsection \<open>Options\<close>

record sideOptions =
  soConfigPath :: string
  soNodeID :: string
  startupTimeout :: int
  joinRetry :: int
  joinTimeout :: int
  healthInterval :: int
  healthTimeout :: int
  failureThreshold :: int
  soLeaveTimeout :: int

definition flag_defaults :: sideOptions where
  "flag_defaults =
     \<lparr>soConfigPath = ''deploy/cluster.config.yaml'', soNodeID = [], startupTimeout = 15 * Second,
      joinRetry = 200 * Millisecond, joinTimeout = DefaultTCPTimeout, healthInterval = 250 * Millisecond,
      healthTimeout = 200 * Millisecond, failureThreshold = 3, soLeaveTimeout = DefaultLeaveTimeout\<rparr>"

datatype option_problem =
    NodeIDEmpty | StartupTimeout | JoinRetry | JoinTimeout | HealthInterval | HealthTimeout | FailureThreshold | LeaveTimeout

definition validateOptions :: "sideOptions \<Rightarrow> option_problem list" where
  "validateOptions opts =
     (if TrimSpace (soNodeID opts) = [] then [NodeIDEmpty] else [])
     @ (if startupTimeout opts \<le> 0 then [StartupTimeout] else [])
     @ (if joinRetry opts \<le> 0 then [JoinRetry] else [])
     @ (if joinTimeout opts \<le> 0 then [JoinTimeout] else [])
     @ (if healthInterval opts \<le> 0 then [HealthInterval] else [])
     @ (if healthTimeout opts \<le> 0 then [HealthTimeout] else [])
     @ (if failureThreshold opts \<le> 0 then [FailureThreshold] else [])
     @ (if soLeaveTimeout opts \<le> 0 then [LeaveTimeout] else [])"

definition configuredNode :: "Config \<Rightarrow> string \<Rightarrow> cfgNode option" where
  "configuredNode cfg nodeID = find (\<lambda>node. cnNodeID node = nodeID) (cfNodes cfg)"

definition isLoopback :: "string \<Rightarrow> bool" where
  "isLoopback host = IsLoopback (ParseIP host)"

definition add_unique :: "string \<Rightarrow> string list \<Rightarrow> string list" where
  "add_unique val out = (if val \<noteq> [] \<and> val \<notin> set out then out @ [val] else out)"

definition uniqueStrings :: "string list \<Rightarrow> string list" where
  "uniqueStrings vals = fold add_unique vals []"

definition bootstrapSeeds :: "Config \<Rightarrow> string \<Rightarrow> string list" where
  "bootstrapSeeds cfg localNodeID =
     uniqueStrings (ControlPlaneGossipSeeds cfg
       @ map cn_GossipAddress (filter (\<lambda>node. cnNodeID node \<noteq> localNodeID) (cfNodes cfg)))"

text \<open>The configuration \<open>newMembership\<close> passes to \<^verbatim>\<open>membership.New\<close>; fields it leaves out are zero.\<close>

definition newMembership :: "Config \<Rightarrow> cfgNode \<Rightarrow> sideOptions \<Rightarrow> mgrConfig" where
  "newMembership cfg node opts =
     \<lparr>mcName = ''data:'' @ cnNodeID node, mcRole = RoleData, mcNodeID = cnNodeID node, mcNodeAddress = cn_Address node,
      mcBindAddr = cnHost node, mcBindPort = cnGossipPort node, mcAdvertiseAddr = cnHost node,
      mcAdvertisePort = cnGossipPort node, mcClusterLabel = cfClusterName cfg, mcSecretKey = [],
      mcLocal = isLoopback (cnHost node), mcProbeInterval = 0, mcProbeTimeout = 0, mcTCPTimeout = joinTimeout opts,
      mcGossipInterval = 0, mcPushPullInterval = 0, mcSuspicionMult = 0, mcLeaveTimeout = soLeaveTimeout opts\<rparr>"

subsection \<open>Waiting\<close>

datatype ctx_error = Canceled | DeadlineExceeded

definition boundedAttemptTimeout :: "int \<Rightarrow> int option \<Rightarrow> int \<Rightarrow> ctx_error + int" where
  "boundedAttemptTimeout now deadline maximum =
     (case deadline of
        None \<Rightarrow> Inr maximum
      | Some d \<Rightarrow>
          (let remaining = d - now
           in if remaining \<le> 0 then Inl DeadlineExceeded
              else if remaining < maximum then Inr remaining else Inr maximum))"

text \<open>The time of the call, how the \<^verbatim>\<open>select\<close> ends, and the time after a timer of a given length.\<close>

record retryObs =
  rtNow :: int
  rtDone :: "ctx_error option"
  rtAfter :: "int \<Rightarrow> int"

definition waitRetry :: "retryObs \<Rightarrow> int option \<Rightarrow> int \<Rightarrow> ctx_error option" where
  "waitRetry ob deadline retry =
     (case deadline of
        None \<Rightarrow> rtDone ob
      | Some d \<Rightarrow>
          (let remaining = d - rtNow ob
           in if remaining \<le> 0 then Some DeadlineExceeded
              else
                (let wait = (if remaining < retry then remaining else retry)
                 in case rtDone ob of
                      Some e \<Rightarrow> Some e
                    | None \<Rightarrow> if \<not> rtAfter ob wait < d then Some DeadlineExceeded else None)))"

record 'e probeEnv =
  prDial :: "'e option"
  prHealth :: "int \<Rightarrow> 'e + bool \<times> string"

datatype 'e probe_error = ProbeFailed 'e | ProbeNotOk | ProbeWrongNode string string

definition probeNodeContext :: "'e probeEnv \<Rightarrow> cfgNode \<Rightarrow> int \<Rightarrow> 'e probe_error option" where
  "probeNodeContext env node timeout =
     (case prDial env of
        Some e \<Rightarrow> Some (ProbeFailed e)
      | None \<Rightarrow>
          (case prHealth env timeout of
             Inl e \<Rightarrow> Some (ProbeFailed e)
           | Inr (healthy, nid) \<Rightarrow>
               if \<not> healthy then Some ProbeNotOk
               else if nid \<noteq> cnNodeID node then Some (ProbeWrongNode nid (cnNodeID node))
               else None))"

definition probe_canceled :: "('e \<Rightarrow> bool) \<Rightarrow> 'e probe_error \<Rightarrow> bool" where
  "probe_canceled isCanceled e = (case e of ProbeFailed x \<Rightarrow> isCanceled x | _ \<Rightarrow> False)"

record 'e waitRound =
  wrNow :: int
  wrProbe :: "'e probeEnv"
  wrRetry :: retryObs

datatype 'e wait_error = NotReady "'e probe_error option" | WaitCanceled | WaitContext ctx_error

partial_function (option) waitForNode ::
    "('e \<Rightarrow> bool) \<Rightarrow> (nat \<Rightarrow> 'e waitRound) \<Rightarrow> cfgNode \<Rightarrow> int option \<Rightarrow> int \<Rightarrow> int \<Rightarrow> nat \<Rightarrow> 'e probe_error option
       \<Rightarrow> 'e wait_error option option" where
  "waitForNode isCanceled rounds node deadline rpcTimeout retry k lastErr =
     (case boundedAttemptTimeout (wrNow (rounds k)) deadline rpcTimeout of
        Inl _ \<Rightarrow> Some (Some (NotReady lastErr))
      | Inr attemptTimeout \<Rightarrow>
          (case probeNodeContext (wrProbe (rounds k)) node attemptTimeout of
             None \<Rightarrow> Some None
           | Some e \<Rightarrow>
               if probe_canceled isCanceled e then Some (Some WaitCanceled)
               else
                 (case waitRetry (wrRetry (rounds k)) deadline retry of
                    Some DeadlineExceeded \<Rightarrow> Some (Some (NotReady (Some e)))
                  | Some Canceled \<Rightarrow> Some (Some (WaitContext Canceled))
                  | None \<Rightarrow> waitForNode isCanceled rounds node deadline rpcTimeout retry (Suc k) (Some e))))"

subsection \<open>Joining\<close>

record 'e seedObs =
  sdNow :: int
  sdDone :: "ctx_error option"
  sdJoin :: "string list \<Rightarrow> int \<times> 'e option"

datatype 'e seed_error = SeedFailed "'e life_error" | NoJoinedPeers

datatype 'e join_error = JoinDeadline "(string \<times> 'e seed_error) option" | JoinContext ctx_error

text \<open>
  One pass over the seeds: the gossip calls made, and how it ends.  \<open>Inl\<close> returns from \<open>joinUntil\<close>;
  \<open>Inr\<close> is the end of the pass with the last error.
\<close>

fun join_pass ::
    "(nat \<Rightarrow> 'e seedObs) \<Rightarrow> int option \<Rightarrow> int \<Rightarrow> 'e Manager \<Rightarrow> nat \<Rightarrow> string list \<Rightarrow> (string \<times> 'e seed_error) option
       \<Rightarrow> ml_call list \<times> ('e join_error option + (string \<times> 'e seed_error) option)" where
  "join_pass obs deadline timeout m i [] lastErr = ([], Inr lastErr)"
| "join_pass obs deadline timeout m i (seed # seeds) lastErr =
     (let ob = obs i
      in if (case boundedAttemptTimeout (sdNow ob) deadline timeout of Inl _ \<Rightarrow> True | Inr t \<Rightarrow> t < timeout)
         then ([], Inl (Some (JoinDeadline lastErr)))
         else case sdDone ob of
             Some e \<Rightarrow> ([], Inl (Some (JoinContext e)))
           | None \<Rightarrow>
               (case Join (sdJoin ob) [seed] m of
                  (calls, _, joined, err) \<Rightarrow>
                    if err = None \<and> joined > 0 then (calls, Inl None)
                    else
                      (case join_pass obs deadline timeout m (Suc i) seeds
                              (Some (seed, case err of None \<Rightarrow> NoJoinedPeers | Some e \<Rightarrow> SeedFailed e)) of
                         (calls', r) \<Rightarrow> (calls @ calls', r))))"

record 'e joinRound =
  jnSeeds :: "nat \<Rightarrow> 'e seedObs"
  jnRetry :: retryObs

partial_function (option) joinUntil ::
    "(nat \<Rightarrow> 'e joinRound) \<Rightarrow> 'e Manager \<Rightarrow> string list \<Rightarrow> int option \<Rightarrow> int \<Rightarrow> int \<Rightarrow> nat \<Rightarrow> ml_call list
       \<Rightarrow> (string \<times> 'e seed_error) option \<Rightarrow> (ml_call list \<times> 'e join_error option) option" where
  "joinUntil rounds m seeds deadline timeout retry k made lastErr =
     (case join_pass (jnSeeds (rounds k)) deadline timeout m 0 seeds lastErr of
        (calls, Inl r) \<Rightarrow> Some (made @ calls, r)
      | (calls, Inr lastErr') \<Rightarrow>
          (case waitRetry (jnRetry (rounds k)) deadline retry of
             Some DeadlineExceeded \<Rightarrow> Some (made @ calls, Some (JoinDeadline lastErr'))
           | Some Canceled \<Rightarrow> Some (made @ calls, Some (JoinContext Canceled))
           | None \<Rightarrow> joinUntil rounds m seeds deadline timeout retry (Suc k) (made @ calls) lastErr'))"

fun sync_seeds ::
    "(nat \<Rightarrow> 'e seedObs) \<Rightarrow> int option \<Rightarrow> int \<Rightarrow> 'e Manager \<Rightarrow> nat \<Rightarrow> string list \<Rightarrow> nat \<Rightarrow> ml_call list \<times> nat" where
  "sync_seeds obs deadline timeout m i [] synced = ([], synced)"
| "sync_seeds obs deadline timeout m i (seed # seeds) synced =
     (let ob = obs i
      in if sdDone ob \<noteq> None then ([], synced)
         else case boundedAttemptTimeout (sdNow ob) deadline timeout of
             Inl _ \<Rightarrow> ([], synced)
           | Inr _ \<Rightarrow>
               (case Join (sdJoin ob) [seed] m of
                  (calls, _, joined, err) \<Rightarrow>
                    (case sync_seeds obs deadline timeout m (Suc i) seeds
                            (if err = None \<and> joined > 0 then Suc synced else synced) of
                       (calls', n) \<Rightarrow> (calls @ calls', n))))"

definition syncControlPlanes ::
    "(nat \<Rightarrow> 'e seedObs) \<Rightarrow> 'e Manager \<Rightarrow> Config \<Rightarrow> int option \<Rightarrow> int \<Rightarrow> ml_call list \<times> nat" where
  "syncControlPlanes obs m cfg deadline timeout = sync_seeds obs deadline timeout m 0 (ControlPlaneGossipSeeds cfg) 0"

subsection \<open>The watchdog\<close>

datatype 'e monitor_event = MonitorDone | MonitorTick "'e probeEnv"

text \<open>Why the watchdog stops; \<open>None\<close> while it is still running.\<close>

fun watch ::
    "('e \<Rightarrow> bool) \<Rightarrow> cfgNode \<Rightarrow> int \<Rightarrow> int \<Rightarrow> 'e monitor_event list \<Rightarrow> int \<Rightarrow> bool option" where
  "watch isCanceled node timeout threshold [] failures = None"
| "watch isCanceled node timeout threshold (MonitorDone # events) failures = Some False"
| "watch isCanceled node timeout threshold (MonitorTick env # events) failures =
     (case probeNodeContext env node timeout of
        None \<Rightarrow> watch isCanceled node timeout threshold events 0
      | Some e \<Rightarrow>
          if probe_canceled isCanceled e then Some False
          else if failures + 1 < threshold then watch isCanceled node timeout threshold events (failures + 1)
          else Some True)"

text \<open>Every way out of \<open>monitorNode\<close> closes the participant.\<close>

definition monitorNode ::
    "('e \<Rightarrow> bool) \<Rightarrow> (int \<Rightarrow> 'e option) \<Rightarrow> 'e option \<Rightarrow> 'e Manager \<Rightarrow> cfgNode \<Rightarrow> sideOptions \<Rightarrow> 'e monitor_event list
       \<Rightarrow> (ml_call list \<times> bool \<times> 'e list) option" where
  "monitorNode isCanceled leave shutdown m node opts events =
     map_option (\<lambda>failed. case Close leave shutdown m of (calls, _, errs) \<Rightarrow> (calls, failed, errs))
       (watch isCanceled node (healthTimeout opts) (failureThreshold opts) events 0)"

subsection \<open>The main loop\<close>

text \<open>One iteration: what the gossip library, the seeds and the node answer, and the recovery wait.\<close>

record 'e sideRound =
  srCreate :: "mlConfig \<Rightarrow> 'e option"
  srJoin :: "nat \<Rightarrow> 'e joinRound"
  srSync :: "nat \<Rightarrow> 'e seedObs"
  srEvents :: "'e monitor_event list"
  srLeave :: "int \<Rightarrow> 'e option"
  srShutdown :: "'e option"
  srRecovery :: "nat \<Rightarrow> 'e waitRound"

datatype side_call = Created string | Gossip ml_call

datatype 'e side_error =
    BadOptions "option_problem list"
  | BadConfig "'e load_error"
  | NotConfigured string
  | NotStarted "'e wait_error"
  | CannotCreate "'e mgr_error"
  | CannotJoin "'e join_error" "'e list"
  | CloseErrors "'e list"

definition join_canceled :: "'e join_error \<Rightarrow> bool" where
  "join_canceled e = (case e of JoinContext Canceled \<Rightarrow> True | _ \<Rightarrow> False)"

definition wait_canceled :: "'e wait_error \<Rightarrow> bool" where
  "wait_canceled e = (case e of WaitCanceled \<Rightarrow> True | WaitContext Canceled \<Rightarrow> True | _ \<Rightarrow> False)"

definition close_result :: "'e list \<Rightarrow> 'e side_error option" where
  "close_result errs = (if errs = [] then None else Some (CloseErrors errs))"

text \<open>The constants and defaults of the gossip library.\<close>

record mlLimits =
  mlMetaMax :: nat
  mlLabelMax :: nat
  mlLAN :: mlConfig
  mlLocal :: mlConfig

definition create_participant :: "mlLimits \<Rightarrow> (mlConfig \<Rightarrow> 'e option) \<Rightarrow> mgrConfig \<Rightarrow> 'e mgr_error + 'e Manager" where
  "create_participant L create mc =
     (case manager_New (mlMetaMax L) (mlLabelMax L) (mlLAN L) (mlLocal L) create mc of
        Inl e \<Rightarrow> Inl e | Inr (_, m) \<Rightarrow> Inr m)"

partial_function (option) run_loop ::
    "mlLimits \<Rightarrow> ('e \<Rightarrow> bool) \<Rightarrow> Config \<Rightarrow> cfgNode \<Rightarrow> sideOptions \<Rightarrow> string list \<Rightarrow> (nat \<Rightarrow> 'e sideRound) \<Rightarrow> nat \<Rightarrow> int option
       \<Rightarrow> side_call list \<Rightarrow> (side_call list \<times> 'e side_error option) option" where
  "run_loop L isCanceled cfg node opts seeds rounds k deadline trace =
     (let r = rounds k; mc = newMembership cfg node opts
      in case create_participant L (srCreate r) mc of
           Inl e \<Rightarrow> Some (trace, Some (CannotCreate e))
         | Inr m \<Rightarrow>
      (case joinUntil (srJoin r) m seeds deadline (joinTimeout opts) (joinRetry opts) 0 [] None of
           None \<Rightarrow> None
         | Some (calls, Some e) \<Rightarrow>
             (case Close (srLeave r) (srShutdown r) m of
                (closing, _, errs) \<Rightarrow>
                  Some (trace @ Created (mcName mc) # map Gossip (calls @ closing),
                        if join_canceled e then close_result errs else Some (CannotJoin e errs)))
         | Some (calls, None) \<Rightarrow>
      (case syncControlPlanes (srSync r) m cfg deadline (joinTimeout opts) of
           (syncs, _) \<Rightarrow>
      (case monitorNode isCanceled (srLeave r) (srShutdown r) m node opts (srEvents r) of
           None \<Rightarrow> None
         | Some (closing, failed, errs) \<Rightarrow>
             (let trace' = trace @ Created (mcName mc) # map Gossip (calls @ syncs @ closing)
              in if errs \<noteq> [] then Some (trace', Some (CloseErrors errs))
                 else if \<not> failed then Some (trace', None)
                 else
                   (case waitForNode isCanceled (srRecovery r) node None (healthTimeout opts) (joinRetry opts) 0 None of
                      None \<Rightarrow> None
                    | Some (Some e) \<Rightarrow> Some (trace', if wait_canceled e then None else Some (NotStarted e))
                    | Some None \<Rightarrow> run_loop L isCanceled cfg node opts seeds rounds (Suc k) None trace'))))))"

definition sidecar_run ::
    "mlLimits \<Rightarrow> ('e \<Rightarrow> bool) \<Rightarrow> 'e load_error + Config \<Rightarrow> int \<Rightarrow> (nat \<Rightarrow> 'e waitRound) \<Rightarrow> (nat \<Rightarrow> 'e sideRound) \<Rightarrow> sideOptions
       \<Rightarrow> (side_call list \<times> 'e side_error option) option" where
  "sidecar_run L isCanceled loaded now startup rounds opts =
     (if validateOptions opts \<noteq> [] then Some ([], Some (BadOptions (validateOptions opts)))
      else case loaded of
          Inl e \<Rightarrow> Some ([], Some (BadConfig e))
        | Inr cfg \<Rightarrow>
      (case configuredNode cfg (soNodeID opts) of
          None \<Rightarrow> Some ([], Some (NotConfigured (soNodeID opts)))
        | Some node \<Rightarrow>
      (let deadline = Some (now + startupTimeout opts)
       in case waitForNode isCanceled startup node deadline (healthTimeout opts) (joinRetry opts) 0 None of
            None \<Rightarrow> None
          | Some (Some e) \<Rightarrow> Some ([], if wait_canceled e then None else Some (NotStarted e))
          | Some None \<Rightarrow>
              run_loop L isCanceled cfg node opts (bootstrapSeeds cfg (cnNodeID node)) rounds 0 deadline [])))"

end
