(* ===== verification/Sidecar_Laws.thy ===== *)
theory Sidecar_Laws
  imports Member_Sidecar
begin

text \<open>
  What the sidecar of \<^verbatim>\<open>cmd/pulsekv-member/main.go\<close> guarantees: options that pass its checks give a
  participant the membership manager accepts, the watchdog withdraws a node exactly after the
  configured number of consecutive failed probes, every life of a participant in the trace of calls is
  closed before the next begins, and the waits for the node end.
\<close>

definition sample_limits :: mlLimits where
  "sample_limits =
     (let base = \<lparr>mlName = [], mlBindAddr = [], mlBindPort = 0, mlAdvertiseAddr = [], mlAdvertisePort = 0, mlLabel = [],
        mlSecretKey = [], mlMeta = [], mlProbeInterval = Second, mlProbeTimeout = Second, mlTCPTimeout = 10 * Second,
        mlGossipInterval = Second, mlPushPullInterval = 30 * Second, mlSuspicionMult = 4\<rparr>
      in \<lparr>mlMetaMax = 512, mlLabelMax = 255, mlLAN = base, mlLocal = base\<rparr>)"

definition sample_cluster :: Config where
  "sample_cluster = applyDefaults (launch_config 3 [''node-0'', ''node-1''] 500)"

definition sample_data_node :: cfgNode where
  "sample_data_node = \<lparr>cnNodeID = ''node-0'', cnHost = DefaultHost, cnPort = 7100, cnGossipPort = 7201\<rparr>"

definition sample_opts :: sideOptions where
  "sample_opts = flag_defaults\<lparr>soNodeID := ''node-0''\<rparr>"

definition failing :: "('e \<Rightarrow> bool) \<Rightarrow> cfgNode \<Rightarrow> int \<Rightarrow> 'e monitor_event \<Rightarrow> bool" where
  "failing isCanceled node timeout ev \<longleftrightarrow>
     (\<exists>env e. ev = MonitorTick env \<and> probeNodeContext env node timeout = Some e \<and> \<not> probe_canceled isCanceled e)"

definition healthy :: "cfgNode \<Rightarrow> int \<Rightarrow> 'e monitor_event \<Rightarrow> bool" where
  "healthy node timeout ev \<longleftrightarrow> (\<exists>env. ev = MonitorTick env \<and> probeNodeContext env node timeout = None)"


definition quiet_retry :: retryObs where
  "quiet_retry = \<lparr>rtNow = 0, rtDone = None, rtAfter = \<lambda>_. 0\<rparr>"

definition good_probe :: "string probeEnv" where
  "good_probe = \<lparr>prDial = None, prHealth = \<lambda>_. Inr (True, ''node-0'')\<rparr>"

definition good_round :: "string monitor_event list \<Rightarrow> string option \<Rightarrow> string sideRound" where
  "good_round events err =
     (let seed = \<lparr>sdNow = 0, sdDone = None, sdJoin = \<lambda>_. (1, None)\<rparr>
      in \<lparr>srCreate = \<lambda>_. None, srJoin = \<lambda>_. \<lparr>jnSeeds = \<lambda>_. seed, jnRetry = quiet_retry\<rparr>, srSync = \<lambda>_. seed,
          srEvents = events, srLeave = \<lambda>_. err, srShutdown = None,
          srRecovery = \<lambda>_. \<lparr>wrNow = 0, wrProbe = good_probe, wrRetry = quiet_retry\<rparr>\<rparr>)"

subsection \<open>A valid configuration is accepted\<close>

lemma quote_plain_length: "list_all is_plain s \<Longrightarrow> length (quote s) = length s + 2"
  by (simp add: quote_def quote_body_plain)

lemma validateNodeMeta_data:
  assumes "id_ok nid" and "host_ok h" and "port_ok p"
  shows "validateNodeMeta \<lparr>Version = NodeMetaVersion, Role = RoleData, metaNodeID = nid, metaAddress = JoinHostPort h (Itoa p)\<rparr> = Inr ()"
  using id_ok_plain [OF assms(1)] host_port_text [OF assms(2,3)]
  by (simp add: validateNodeMeta_def TrimSpace_plain maxNodeIDBytes_def RoleData_def RoleControl_def)

lemma meta_fits:
  assumes "list_all is_plain nid" and "list_all is_plain a" and "length nid \<le> 64" and "length a \<le> 73" and "nid \<noteq> []" and "a \<noteq> []"
  shows "length (json_print (meta_json \<lparr>Version = NodeMetaVersion, Role = RoleData, metaNodeID = nid, metaAddress = a\<rparr>)) \<le> 512"
proof -
  have "list_all is_plain ''version''" "list_all is_plain ''role''" "list_all is_plain ''node_id''" "list_all is_plain ''address''"
      "list_all is_plain ''data''"
    by (simp_all add: is_plain_def byte_def)
  note q = this [THEN quote_plain_length] assms(1,2) [THEN quote_plain_length]
  have "length (Itoa (uint NodeMetaVersion)) = 1"
    by (simp add: NodeMetaVersion_def Itoa_def nat_digits.simps [of "Suc 0"])
  then show ?thesis
    using assms(3-6) by (simp add: meta_json_def RoleData_def q)
qed

lemma host_ne: "host_ok h \<Longrightarrow> h \<noteq> [] \<and> ParseIP h \<noteq> None"
  using host_text [of h] by simp

lemma participant_accepted:
  assumes "config_Validate cfg = []" and "configuredNode cfg nodeID = Some node" and "validateOptions opts = []"
    and "512 \<le> mlMetaMax L" and "255 \<le> mlLabelMax L"
  shows "\<exists>base. (case create base of
      Some e \<Rightarrow> create_participant L create (newMembership cfg node opts) = Inl (CreateFailed e)
    | None \<Rightarrow> \<exists>m. create_participant L create (newMembership cfg node opts) = Inr m \<and> \<not> closed m \<and> \<not> left m) \<and>
    mlName base = ''data:'' @ nodeID \<and> mlLabel base = cfClusterName cfg"
proof -
  have n: "node \<in> set (cfNodes cfg)" "cnNodeID node = nodeID"
    using assms(2) by (auto simp: configuredNode_def find_Some_iff)
  then have ok: "id_ok nodeID" "port_ok (cnPort node)" "port_ok (cnGossipPort node)" "host_ok (cnHost node)"
      "cfClusterName cfg \<noteq> []" "length (cfClusterName cfg) \<le> 255"
    using assms(1) by (auto simp: config_Validate_exact config_ok_def cfgNode_ok_def list_all_iff settings_ok_def MaxClusterNameBytes_def)
  let ?mc = "newMembership cfg node opts"
  have lm: "local_meta ?mc = \<lparr>Version = NodeMetaVersion, Role = RoleData, metaNodeID = nodeID, metaAddress = cn_Address node\<rparr>"
    by (simp add: local_meta_def newMembership_def n(2))
  note idp = id_ok_plain [OF ok(1)] and hp = host_port_text [OF ok(4,2)]
  obtain raw where raw: "EncodeNodeMeta (mlMetaMax L) (local_meta ?mc) = Inr raw"
    using validateNodeMeta_data [OF ok(1,4,2)] meta_fits [of nodeID "cn_Address node"] idp hp assms(4)
    by (simp add: EncodeNodeMeta_def lm cn_Address_def Let_def)
  have "list_all is_plain (''data:'' @ nodeID)"
    using idp by (simp add: is_plain_def byte_def)
  then have "TrimSpace (''data:'' @ nodeID) = ''data:'' @ nodeID"
    by (rule TrimSpace_plain)
  then have "validateConfig (mlLabelMax L) ?mc = []"
    using ok host_ne [OF ok(4)] assms(3,5)
    by (simp add: validateConfig_def newMembership_def n(2) port_ok_def maxPort_def validateOptions_def split: if_splits)
  then have c: "create_participant L create ?mc =
      (case create (list_config (mlLAN L) (mlLocal L) raw ?mc) of
         Some e \<Rightarrow> Inl (CreateFailed e)
       | None \<Rightarrow> Inr \<lparr>mgView = newView, leaveTimeout = (if mcLeaveTimeout ?mc = 0 then DefaultLeaveTimeout else mcLeaveTimeout ?mc),
            left = False, leaveErr = None, closed = False, closeErr = []\<rparr>)"
    using raw by (simp add: create_participant_def manager_New_def Let_def split: option.split)
  have "mlName (list_config lan loc raw ?mc) = ''data:'' @ nodeID" "mlLabel (list_config lan loc raw ?mc) = cfClusterName cfg" for lan loc
    by (simp_all add: list_config_def newMembership_def n(2) Let_def)
  then show ?thesis
    by (intro exI [of _ "list_config (mlLAN L) (mlLocal L) raw ?mc"]) (simp add: c split: option.split)
qed

text \<open>
  A configured node can always advertise itself.  For every node of a configuration that
  validates, and options that validate, the participant the sidecar builds passes every check of
  the membership package within the gossip library's limits, so only binding it can fail.
\<close>

theorem sidecar_accepted:
  assumes "config_Validate cfg = []" and "configuredNode cfg nodeID = Some node" and "validateOptions opts = []"
    and "512 \<le> mlMetaMax L" and "255 \<le> mlLabelMax L"
  shows "\<exists>base. (case create base of
      Some e \<Rightarrow> create_participant L create (newMembership cfg node opts) = Inl (CreateFailed e)
    | None \<Rightarrow> \<exists>m. create_participant L create (newMembership cfg node opts) = Inr m \<and> \<not> closed m \<and> \<not> left m) \<and>
    mlName base = ''data:'' @ nodeID \<and> mlLabel base = cfClusterName cfg"
  by (rule participant_accepted [OF assms])

lemma add_unique_fold:
  "distinct out \<Longrightarrow> distinct (fold add_unique vs out) \<and> set (fold add_unique vs out) = set out \<union> (set vs - {[]})"
  by (induction vs arbitrary: out) (auto simp: add_unique_def)

lemma uniqueStrings_set: "distinct (uniqueStrings vs) \<and> set (uniqueStrings vs) = set vs - {[]}"
  using add_unique_fold [of "[]" vs] by (simp add: uniqueStrings_def)

lemma bootstrapSeeds_ne:
  assumes "config_ok cfg"
  shows "bootstrapSeeds cfg nid \<noteq> []"
proof -
  obtain r where r: "r \<in> set (cfControlPlanes cfg)" "host_ok (cpHost r)" "port_ok (cpGossipPort r)"
    using assms by (cases "cfControlPlanes cfg") (auto simp: config_ok_def control_ok_def)
  then have "cp_GossipAddress r \<in> set (bootstrapSeeds cfg nid)"
    using host_port_text(3) uniqueStrings_set by (simp add: bootstrapSeeds_def ControlPlaneGossipSeeds_def cp_GossipAddress_def)
  then show ?thesis
    by auto
qed

lemma sample_cluster_ok: "config_Validate sample_cluster = []"
  unfolding sample_cluster_def
  using launch_config_ok [of 3 "[''node-0'', ''node-1'']" 500] sample_ids by (simp add: config_Validate_exact)

lemma sample_configured: "configuredNode sample_cluster ''node-0'' = Some sample_data_node"
  by (simp add: configuredNode_def sample_cluster_def launch_nodes sample_data_node_def)

lemma sample_opts_ok: "validateOptions sample_opts = []"
  by code_simp

lemma sample_created:
  "\<exists>m. create_participant sample_limits (\<lambda>_. None :: string option) (newMembership sample_cluster sample_data_node sample_opts) = Inr m"
  using participant_accepted [OF sample_cluster_ok sample_configured sample_opts_ok, of sample_limits "\<lambda>_. None"]
  by (auto simp: sample_limits_def Let_def)

theorem sidecar_accepted_witness:
  "\<exists>m. create_participant sample_limits (\<lambda>_. None :: string option) (newMembership sample_cluster sample_data_node sample_opts) = Inr m \<and>
     \<not> closed m"
  using sidecar_accepted [OF sample_cluster_ok sample_configured sample_opts_ok, of sample_limits "\<lambda>_. None"]
  by (auto simp: sample_limits_def Let_def)

subsection \<open>The watchdog\<close>

lemma watch_fails:
  assumes "watch isC node t thr evs f = Some True" and "0 \<le> f" and "f < thr"
  shows "\<exists>pre fails rest. evs = pre @ fails @ rest \<and> list_all (failing isC node t) fails \<and>
    (int (length fails) = thr \<or> pre = [] \<and> int (length fails) = thr - f)"
  using assms
proof (induction isC node t thr evs f rule: watch.induct)
  case (3 isC node t thr env evs f)
  show ?case
  proof (cases "probeNodeContext env node t")
    case None
    then obtain pre fails rest where "evs = pre @ fails @ rest" "list_all (failing isC node t) fails" "int (length fails) = thr"
      using 3 by force
    then show ?thesis
      by (intro exI [of _ "MonitorTick env # pre"] exI [of _ fails] exI [of _ rest]) simp
  next
    case (Some e)
    then have nc: "\<not> probe_canceled isC e"
      using 3(3) by (auto split: if_splits)
    then have fl: "failing isC node t (MonitorTick env)"
      using Some by (simp add: failing_def)
    show ?thesis
    proof (cases "f + 1 < thr")
      case True
      then obtain pre fails rest where r: "evs = pre @ fails @ rest" "list_all (failing isC node t) fails"
          "int (length fails) = thr \<or> pre = [] \<and> int (length fails) = thr - (f + 1)"
        using 3(2) [OF Some nc True] 3(3-) Some nc by auto
      from r(3) show ?thesis
      proof
        assume "int (length fails) = thr"
        then show ?thesis
          using r by (intro exI [of _ "MonitorTick env # pre"] exI [of _ fails] exI [of _ rest]) simp
      next
        assume "pre = [] \<and> int (length fails) = thr - (f + 1)"
        then show ?thesis
          using r fl by (intro exI [of _ "[]"] exI [of _ "MonitorTick env # fails"] exI [of _ rest]) simp
      qed
    next
      case False
      then show ?thesis
        using fl 3(5) by (intro exI [of _ "[]"] exI [of _ "[MonitorTick env]"] exI [of _ evs]) simp
    qed
  qed
qed simp_all

lemma watch_run:
  assumes "list_all (failing isC node t) fails" and "int (length fails) = thr - f" and "f < thr"
  shows "watch isC node t thr (fails @ rest) f = Some True"
  using assms
proof (induction fails arbitrary: f)
  case (Cons ev fails)
  then obtain env e where e: "ev = MonitorTick env" "probeNodeContext env node t = Some e" "\<not> probe_canceled isC e"
    by (auto simp: failing_def)
  then show ?case
    using Cons by (cases "f + 1 < thr") auto
qed simp

lemma watch_more:
  assumes "list_all (failing isC node t) fails" and "int (length fails) \<ge> thr - f" and "f < thr"
  shows "watch isC node t thr (fails @ rest) f = Some True"
proof -
  let ?n = "nat (thr - f)"
  have "fails = take ?n fails @ drop ?n fails" "list_all (failing isC node t) (take ?n fails)" "int (length (take ?n fails)) = thr - f"
    using assms by (auto simp: list_all_iff dest: in_set_takeD)
  then show ?thesis
    using watch_run [of isC node t "take ?n fails" thr f "drop ?n fails @ rest"] assms(3) by (metis append_assoc)
qed

lemma watch_prefix:
  assumes "list_all (\<lambda>ev. failing isC node t ev \<or> healthy node t ev) pre" and "0 \<le> f" and "f < thr"
    and "list_all (failing isC node t) fails" and "int (length fails) = thr"
  shows "watch isC node t thr (pre @ fails @ rest) f = Some True"
  using assms
proof (induction pre arbitrary: f)
  case Nil
  then show ?case
    using watch_more [of isC node t fails thr f rest] by simp
next
  case (Cons ev pre)
  then consider env where "ev = MonitorTick env" "probeNodeContext env node t = None"
    | env e where "ev = MonitorTick env" "probeNodeContext env node t = Some e" "\<not> probe_canceled isC e"
    by (auto simp: failing_def healthy_def)
  then show ?case
    using Cons by cases (auto simp: not_less)
qed

text \<open>
  C35: The watchdog withdraws the node exactly after the configured number of consecutive failed
  probes: it does so only then, and whatever mixture of successes and shorter failures came
  before, it does so at the latest then.
\<close>

theorem watchdog_withdraws:
  assumes "0 < failureThreshold opts"
  shows "(watch isC node t (failureThreshold opts) evs 0 = Some True \<longrightarrow>
      (\<exists>pre fails rest. evs = pre @ fails @ rest \<and> list_all (failing isC node t) fails \<and> int (length fails) = failureThreshold opts)) \<and>
    (list_all (\<lambda>ev. failing isC node t ev \<or> healthy node t ev) pre \<and> list_all (failing isC node t) fails \<and>
       int (length fails) = failureThreshold opts \<longrightarrow>
      watch isC node t (failureThreshold opts) (pre @ fails @ rest) 0 = Some True)"
  using watch_fails [of isC node t "failureThreshold opts" evs 0] watch_prefix [of isC node t pre 0 "failureThreshold opts" fails rest]
    assms by auto

theorem watchdog_withdraws_witness:
  "watch (\<lambda>_ :: string. False) sample_data_node 1 (failureThreshold sample_opts)
     ([MonitorTick \<lparr>prDial = None, prHealth = \<lambda>_. Inr (True, ''node-0'')\<rparr>]
      @ replicate 3 (MonitorTick \<lparr>prDial = Some ''refused'', prHealth = \<lambda>_. Inr (True, [])\<rparr>) @ []) 0 = Some True"
proof -
  have "failing (\<lambda>_ :: string. False) sample_data_node 1 (MonitorTick \<lparr>prDial = Some ''refused'', prHealth = \<lambda>_. Inr (True, [])\<rparr>)"
    by (simp add: failing_def probeNodeContext_def probe_canceled_def)
  moreover have "healthy sample_data_node 1 (MonitorTick \<lparr>prDial = None :: string option, prHealth = \<lambda>_. Inr (True, ''node-0'')\<rparr>)"
    by (simp add: healthy_def probeNodeContext_def sample_data_node_def)
  moreover have "failureThreshold sample_opts = 3"
    by (simp add: sample_opts_def flag_defaults_def)
  ultimately show ?thesis
    using watchdog_withdraws [of sample_opts "\<lambda>_. False" sample_data_node 1 "[]"
      "[MonitorTick \<lparr>prDial = None, prHealth = \<lambda>_. Inr (True, ''node-0'')\<rparr>]"
      "replicate 3 (MonitorTick \<lparr>prDial = Some ''refused'', prHealth = \<lambda>_. Inr (True, [])\<rparr>)" "[]"]
    by (simp add: numeral_3_eq_3)
qed

subsection \<open>No participant is left behind\<close>






lemma created_open:
  assumes "create_participant L create mc = Inr m"
  shows "\<not> closed m" and "\<not> left m"
  using assms manager_New_ok by (fastforce simp: create_participant_def split: sum.splits)+





lemma good_wait:
  "waitForNode isC (\<lambda>_. \<lparr>wrNow = 0, wrProbe = good_probe, wrRetry = quiet_retry\<rparr>) sample_data_node (Some (15 * Second)) h retry k le = Some None"
  by (subst waitForNode.simps)
    (simp add: boundedAttemptTimeout_def Second_def good_probe_def probeNodeContext_def sample_data_node_def)

lemma good_join:
  assumes "\<not> closed m" and "\<not> left m" and "seeds \<noteq> []" and "joinTimeout opts \<le> 15 * Second"
  shows "\<exists>calls. joinUntil (srJoin (good_round events e)) m seeds (Some (15 * Second)) (joinTimeout opts) retry k [] None = Some (calls, None)"
proof -
  obtain s ss where "seeds = s # ss"
    using assms(3) by (cases seeds) auto
  then show ?thesis
    using assms by (subst joinUntil.simps) (simp add: good_round_def Let_def boundedAttemptTimeout_def Join_def Second_def)
qed

lemma good_run:
  assumes "Close (\<lambda>_. e) None m = (closing, m', errs)"
    and "create_participant sample_limits (\<lambda>_. None) (newMembership sample_cluster sample_data_node sample_opts) = Inr m"
    and "watch (\<lambda>_. False) sample_data_node (healthTimeout sample_opts) (failureThreshold sample_opts) events 0 = Some failed"
    and "errs \<noteq> [] \<or> \<not> failed"
  shows "\<exists>trace. sidecar_run sample_limits (\<lambda>_. False) (Inr sample_cluster) 0
      (\<lambda>_. \<lparr>wrNow = 0, wrProbe = good_probe, wrRetry = quiet_retry\<rparr>) (\<lambda>_. good_round events e) sample_opts =
    Some (trace, if errs = [] then None else Some (CloseErrors errs)) \<and> trace \<noteq> []"
proof -
  let ?r = "good_round events e"
  have seeds: "bootstrapSeeds sample_cluster (cnNodeID sample_data_node) \<noteq> []"
    using bootstrapSeeds_ne sample_cluster_ok by (simp add: config_Validate_exact)
  have opts: "startupTimeout sample_opts = 15 * Second" "joinTimeout sample_opts \<le> 15 * Second" "soNodeID sample_opts = ''node-0''"
    by (simp_all add: sample_opts_def flag_defaults_def DefaultTCPTimeout_def Second_def)
  obtain calls where j: "joinUntil (srJoin ?r) m (bootstrapSeeds sample_cluster (cnNodeID sample_data_node)) (Some (15 * Second))
      (joinTimeout sample_opts) (joinRetry sample_opts) 0 [] None = Some (calls, None)"
    using good_join [OF created_open [OF assms(2)] seeds opts(2)] by blast
  have "\<exists>trace. run_loop sample_limits (\<lambda>_. False) sample_cluster sample_data_node sample_opts
      (bootstrapSeeds sample_cluster (cnNodeID sample_data_node)) (\<lambda>_. ?r) 0 (Some (15 * Second)) [] =
    Some (trace, if errs = [] then None else Some (CloseErrors errs)) \<and> trace \<noteq> []"
    using assms j
    by (subst run_loop.simps) (auto simp: good_round_def Let_def monitorNode_def split: prod.splits)
  then show ?thesis
    by (simp add: sidecar_run_def sample_opts_ok sample_configured opts good_wait)
qed


text \<open>
  A failed leave broadcast ends the sidecar.  The node is healthy again as soon as the watchdog has
  withdrawn it, but the error of \<open>Close\<close> is returned before the recovery wait, so the node stays
  absent.
\<close>

theorem leave_error_ends_sidecar:
  "\<exists>trace. sidecar_run sample_limits (\<lambda>_. False) (Inr sample_cluster) 0
      (\<lambda>_. \<lparr>wrNow = 0, wrProbe = good_probe, wrRetry = quiet_retry\<rparr>)
      (\<lambda>_. good_round (replicate 3 (MonitorTick \<lparr>prDial = Some ''refused'', prHealth = \<lambda>_. Inr (True, [])\<rparr>)) (Some ''leave timed out''))
      sample_opts = Some (trace, Some (CloseErrors [''leave timed out'']))"
proof -
  obtain m where m: "create_participant sample_limits (\<lambda>_. None :: string option) (newMembership sample_cluster sample_data_node sample_opts) = Inr m"
    using sample_created by blast
  note o = created_open [OF m]
  obtain closing m' where c: "Close (\<lambda>_. Some ''leave timed out'') None m = (closing, m', [''leave timed out''])"
    using o by (simp add: Close_def leaveLocked_def Let_def)
  have "watch (\<lambda>_ :: string. False) sample_data_node (healthTimeout sample_opts) (failureThreshold sample_opts)
      (replicate 3 (MonitorTick \<lparr>prDial = Some ''refused'', prHealth = \<lambda>_. Inr (True, [])\<rparr>)) 0 = Some True"
    by (simp add: numeral_3_eq_3 sample_opts_def flag_defaults_def probeNodeContext_def probe_canceled_def)
  from good_run [OF c m this] show ?thesis
    by auto
qed

subsection \<open>The waits return\<close>

lemma waitForNode_from:
  assumes "\<exists>n. d \<le> wrNow (rounds (k + n))"
  shows "\<exists>r. waitForNode isC rounds node (Some d) timeout retry k le = Some r"
proof -
  obtain n where "d \<le> wrNow (rounds (k + n))"
    using assms by blast
  then show ?thesis
  proof (induction n arbitrary: k le)
    case 0
    then show ?case
      by (subst waitForNode.simps) (simp add: boundedAttemptTimeout_def Let_def)
  next
    case (Suc n)
    have "\<exists>r. waitForNode isC rounds node (Some d) timeout retry (Suc k) le' = Some r" for le'
      using Suc.IH [of "Suc k"] Suc.prems by simp
    then show ?case
      by (subst waitForNode.simps) (auto split: sum.splits option.splits ctx_error.splits)
  qed
qed

text \<open>
  Waiting for the node ends: within the startup budget because the clock reaches the deadline, and in
  recovery, which has none, as soon as a probe succeeds.
\<close>

theorem waitForNode_returns:
  assumes "(\<exists>d. deadline = Some d \<and> (\<exists>n. d \<le> wrNow (rounds n))) \<or>
    deadline = None \<and> (\<exists>n. probeNodeContext (wrProbe (rounds n)) node timeout = None)"
  shows "\<exists>r. waitForNode isC rounds node deadline timeout retry 0 None = Some r"
proof (cases deadline)
  case (Some d)
  then show ?thesis
    using waitForNode_from [of d rounds 0] assms by auto
next
  case None
  then obtain n where n: "probeNodeContext (wrProbe (rounds n)) node timeout = None"
    using assms by auto
  have "\<exists>r. waitForNode isC rounds node None timeout retry k le = Some r" if "k \<le> n" for k le
    using that
  proof (induction "n - k" arbitrary: k le)
    case 0
    then show ?case
      using n by (subst waitForNode.simps) (simp add: boundedAttemptTimeout_def)
  next
    case (Suc j)
    have "\<exists>r. waitForNode isC rounds node None timeout retry (Suc k) le' = Some r" for le'
      using Suc by (intro Suc.hyps(1)) auto
    then show ?case
      by (subst waitForNode.simps) (auto simp: boundedAttemptTimeout_def split: option.splits ctx_error.splits)
  qed
  then show ?thesis
    using None by blast
qed

end
