(* ===== verification/Go_Path.thy ===== *)
theory Go_Path
  imports Host_Text
begin

text \<open>
  The part of \<^verbatim>\<open>path/filepath\<close> (Unix) the control plane uses: \<open>Clean\<close> works on the elements
  between separators with the elements kept so far as a stack, \<open>path_Join\<close> and \<open>Dir\<close> clean what they build.
  The lemmas say that joining one ordinary name to a directory appends it, so that different names give
  different paths.
\<close>

definition IsAbs :: "string \<Rightarrow> bool" where
  "IsAbs path \<longleftrightarrow> path \<noteq> [] \<and> hd path = CHR ''/''"

text \<open>One element of \<open>Clean\<close>; the stack holds the kept elements, last first.\<close>

definition clean_step :: "bool \<Rightarrow> string \<Rightarrow> string list \<Rightarrow> string list" where
  "clean_step rooted w stack =
     (if w = [] \<or> w = ''.'' then stack
      else if w = ''..'' then
        (if stack \<noteq> [] \<and> hd stack \<noteq> ''..'' then tl stack
         else if rooted then stack
         else w # stack)
      else w # stack)"

definition clean_stack :: "string \<Rightarrow> string list" where
  "clean_stack path = fold (clean_step (IsAbs path)) (split_on CHR ''/'' path) []"

definition clean_text :: "bool \<Rightarrow> string list \<Rightarrow> string" where
  "clean_text rooted stack =
     (if rooted then ''/'' @ join_with ''/'' (rev stack)
      else if stack = [] then ''.''
      else join_with ''/'' (rev stack))"

definition Clean :: "string \<Rightarrow> string" where
  "Clean path = clean_text (IsAbs path) (clean_stack path)"

fun path_Join :: "string list \<Rightarrow> string" where
  "path_Join [] = []"
| "path_Join (e # es) = (if e \<noteq> [] then Clean (join_with ''/'' (e # es)) else path_Join es)"

text \<open>The directory: everything up to the last separator, cleaned.\<close>

definition Dir :: "string \<Rightarrow> string" where
  "Dir path = Clean (rev (dropWhile (\<lambda>c. c \<noteq> CHR ''/'') (rev path)))"

subsection \<open>Lemmas\<close>

text \<open>A name is one element that is neither empty nor a dot entry.\<close>

definition is_name :: "string \<Rightarrow> bool" where
  "is_name w \<longleftrightarrow> w \<noteq> [] \<and> w \<noteq> ''.'' \<and> w \<noteq> ''..'' \<and> CHR ''/'' \<notin> set w"

lemma id_ok_name: "id_ok nid \<Longrightarrow> is_name nid"
proof -
  assume "id_ok nid"
  then obtain c cs where "nid = c # cs" "is_alnum c" "list_all is_id_char cs"
    by (auto simp: id_ok_def nodeIDPattern_def split: list.splits)
  moreover have "\<not> is_alnum CHR ''.''" "\<not> is_id_char CHR ''/''" "\<not> is_alnum CHR ''/''"
    by (simp_all add: is_alnum_def is_id_char_def is_digit_def less_eq_char_def)
  ultimately show ?thesis
    by (auto simp: is_name_def list_all_iff)
qed

lemma split_on_snoc:
  assumes "sep \<notin> set w"
  shows "split_on sep (s @ sep # w) = split_on sep s @ [w]"
proof (induction s)
  case Nil
  have "split_on sep w = [w]"
    using assms by (induction w) auto
  then show ?case
    by simp
next
  case (Cons c s)
  have "split_on sep s \<noteq> []"
    by (induction s) (auto split: list.splits)
  with Cons show ?case
    by (auto split: list.splits)
qed

lemma clean_stack_name:
  assumes "dir \<noteq> []" and "is_name w"
  shows "clean_stack (dir @ ''/'' @ w) = w # clean_stack dir"
proof -
  have "IsAbs (dir @ ''/'' @ w) = IsAbs dir"
    using assms(1) by (cases dir) (simp_all add: IsAbs_def)
  then show ?thesis
    using assms split_on_snoc [of "CHR ''/''" w dir] by (simp add: clean_stack_def is_name_def clean_step_def)
qed

lemma join_with_snoc: "ws \<noteq> [] \<Longrightarrow> join_with sep (ws @ [w]) = join_with sep ws @ sep @ w"
  by (induction sep ws rule: join_with.induct) auto

text \<open>What joining a name to a directory gives.\<close>

definition below :: "string \<Rightarrow> string" where
  "below dir =
     (if clean_stack dir = [] then (if IsAbs dir then ''/'' else []) else Clean dir @ ''/'')"

lemma path_Join_name:
  assumes "dir \<noteq> []" and "is_name w"
  shows "path_Join [dir, w] = below dir @ w"
proof -
  have "IsAbs (dir @ ''/'' @ w) = IsAbs dir"
    using assms(1) by (cases dir) (simp_all add: IsAbs_def)
  then show ?thesis
    using clean_stack_name [OF assms] assms(1)
    by (cases "clean_stack dir = []") (simp_all add: Clean_def clean_text_def below_def join_with_snoc)
qed

lemma path_Join_inject:
  assumes "dir \<noteq> []" and "is_name v" and "is_name w"
  shows "path_Join [dir, v] = path_Join [dir, w] \<longleftrightarrow> v = w"
  using path_Join_name [OF assms(1)] assms(2,3) by simp

lemma path_Join_ne:
  assumes "dir \<noteq> []"
  shows "path_Join [dir, w] \<noteq> []"
proof -
  have "join_with ''/'' ws \<noteq> []" if "ws \<noteq> []" "[] \<notin> set ws" for ws
    using that by (induction "''/''" ws rule: join_with.induct) auto
  moreover have "[] \<notin> set (fold (clean_step r) ws st)" if "[] \<notin> set st" for r ws st
    using that
  proof (induction ws arbitrary: st)
    case (Cons w ws)
    have "[] \<notin> set (clean_step r w st)"
      using Cons.prems by (cases st) (auto simp: clean_step_def)
    then show ?case
      using Cons.IH by simp
  qed simp
  ultimately show ?thesis
    using assms by (auto simp: Clean_def clean_text_def clean_stack_def)
qed

end
