(* ===== verification/Control_Plane.thy ===== *)
theory Control_Plane
  imports Go_Path Metastore_Bridge Metadata_Service Member_Sidecar
begin

text \<open>
  \<^verbatim>\<open>cmd/controlplane/main.go\<close>: one control-plane replica, and the configuration dumps the deployment
  scripts read.

  The process is translated as what it does to its parts: \<open>cp_run\<close> returns the calls it makes on the gossip
  participant, the Raft store, the listener and the background loops it starts, in order and with its deferred
  closes, together with the error it returns.  What the libraries answer is held in \<open>cpEnv\<close>.  The loops that
  poll in the background are functions of what each round of them observes.  Logging is left out, except
  where deciding what to log is the loop's work; flag parsing, signals and the gRPC server are left out.
\<close>

definition leaderWaitTimeout :: int where "leaderWaitTimeout = 15 * Second"

subsection \<open>Text helpers\<close>

definition splitCommaList :: "string \<Rightarrow> string list" where
  "splitCommaList txt = filter (\<lambda>v. v \<noteq> []) (map TrimSpace (split_on CHR '','' txt))"

definition cp_uniqueStrings :: "string list \<Rightarrow> string list" where
  "cp_uniqueStrings vals = fold (\<lambda>v out. if v \<noteq> [] \<and> v \<notin> set out then out @ [v] else out) vals []"

definition cp_isLoopback :: "string \<Rightarrow> bool" where
  "cp_isLoopback host = IsLoopback (ParseIP host)"

subsection \<open>Flags and configuration dumps\<close>

datatype dump_mode = PrintNodes | PrintControlPlane | PrintEngine | PrintGossip | PrintReplication | PrintRaft

record mainFlags =
  flNodeID :: string
  flPortOverride :: int
  flReplicationOverride :: int
  flGossipJoin :: string
  flPrintNodes :: bool
  flPrintControlPlane :: bool
  flPrintEngine :: bool
  flPrintGossip :: bool
  flPrintReplication :: bool
  flPrintRaft :: bool

definition main_defaults :: mainFlags where
  "main_defaults =
     \<lparr>flNodeID = [], flPortOverride = 0, flReplicationOverride = -1, flGossipJoin = [], flPrintNodes = False,
      flPrintControlPlane = False, flPrintEngine = False, flPrintGossip = False, flPrintReplication = False, flPrintRaft = False\<rparr>"

definition raftDataRoot :: "Config \<Rightarrow> string" where
  "raftDataRoot cfg =
     (if IsAbs (rfDataDir (cfRaft cfg)) then rfDataDir (cfRaft cfg)
      else
        (let base = Dir (cfPath cfg);
             base = (if base = [] then ''.'' else base)
         in path_Join [base, rfDataDir (cfRaft cfg)]))"

definition tab :: string where "tab = [CHR 0x09]"
definition nl :: string where "nl = [CHR 0x0A]"

text \<open>\<^verbatim>\<open>Printf("%s\t%s\t%d\n")\<close>\<close>

definition print_row :: "string \<Rightarrow> string \<Rightarrow> int \<Rightarrow> string" where
  "print_row nid host port = nid @ tab @ host @ tab @ Itoa port @ nl"

text \<open>The \<^verbatim>\<open>switch\<close> of the dump modes: what is printed, or \<open>None\<close> when the process goes on to serve.\<close>

definition dump :: "mainFlags \<Rightarrow> Config \<Rightarrow> string option" where
  "dump fl cfg =
     (if flPrintNodes fl then Some (concat (map (\<lambda>n. print_row (cnNodeID n) (cnHost n) (cnPort n)) (cfNodes cfg)))
      else if flPrintControlPlane fl then
        Some (concat (map (\<lambda>r. print_row (cpNodeID r) (cpHost r) (cpPort r)) (cfControlPlanes cfg)))
      else if flPrintEngine fl then
        Some (Itoa (uint (RAMBudgetBytes (cfEngine cfg))) @ tab @ Itoa (uint (MaxValueBytes (cfEngine cfg))) @ tab
          @ DataRoot (cfEngine cfg) @ nl)
      else if flPrintGossip fl then
        Some (concat (map (\<lambda>r. print_row (cpNodeID r) (cpHost r) (cpGossipPort r)) (cfControlPlanes cfg))
          @ concat (map (\<lambda>n. print_row (cnNodeID n) (cnHost n) (cnGossipPort n)) (cfNodes cfg)))
      else if flPrintReplication fl then Some (Itoa (cfReplicationFactor cfg) @ nl)
      else if flPrintRaft fl then
        Some (concat (map (\<lambda>r. print_row (cpNodeID r) (cpHost r) (cpRaftPort r)) (cfControlPlanes cfg))
          @ ''#'' @ tab @ raftDataRoot cfg @ nl)
      else None)"

subsection \<open>Choosing the replica\<close>

datatype select_error = NodeIDRequired nat "string list" | NotAReplica string "string list"

definition selectReplica :: "Config \<Rightarrow> string \<Rightarrow> select_error + ControlPlane" where
  "selectReplica cfg nodeID =
     (if nodeID = [] then
        (if length (cfControlPlanes cfg) = 1 then Inr (cfControlPlanes cfg ! 0)
         else Inl (NodeIDRequired (length (cfControlPlanes cfg)) (ControlPlaneIDs cfg)))
      else
        (case ControlPlaneByID cfg nodeID of
           None \<Rightarrow> Inl (NotAReplica nodeID (ControlPlaneIDs cfg))
         | Some replica \<Rightarrow> Inr replica))"

subsection \<open>Joining the gossip ring\<close>

text \<open>
  What one pass over the seeds observes: for each seed whether the context is done by then and what the
  library's join returns, and whether the context ends the pause after the pass.
\<close>

record 'e passObs =
  poDone :: "string \<Rightarrow> bool"
  poJoin :: "string \<Rightarrow> int \<times> 'e option"
  poPauseDone :: bool

datatype join_end = NoSeeds | Interrupted | Contacted string int

text \<open>\<open>syncControlPlanePeers\<close>: the calls, and the number of peers synced (\<open>None\<close>: the context ended it).\<close>

fun syncControlPlanePeers ::
    "(string \<Rightarrow> bool) \<Rightarrow> (string \<Rightarrow> int \<times> 'e option) \<Rightarrow> 'e Manager \<Rightarrow> string list \<Rightarrow> string \<Rightarrow> string \<Rightarrow> nat
       \<Rightarrow> ml_call list \<times> nat option" where
  "syncControlPlanePeers ended join m [] self alreadyJoined synced = ([], Some synced)"
| "syncControlPlanePeers ended join m (seed # seeds) self alreadyJoined synced =
     (if ended seed then ([], None)
      else if seed = self \<or> seed = alreadyJoined then syncControlPlanePeers ended join m seeds self alreadyJoined synced
      else
        (case Join (\<lambda>_. join seed) [seed] m of
           (calls, _, _, err) \<Rightarrow>
             (case syncControlPlanePeers ended join m seeds self alreadyJoined (if err = None then synced + 1 else synced) of
                (later, result) \<Rightarrow> (calls @ later, result))))"

text \<open>
  One pass of the loop of \<open>joinGossipPeers\<close> over the seeds: the calls, and how the loop ends when it ends here.
\<close>

fun gossip_pass ::
    "'e passObs \<Rightarrow> (string \<Rightarrow> bool) \<Rightarrow> (string \<Rightarrow> int \<times> 'e option) \<Rightarrow> 'e Manager \<Rightarrow> string list \<Rightarrow> string list \<Rightarrow> string
       \<Rightarrow> ml_call list \<times> join_end option" where
  "gossip_pass obs ended join m cps [] self = ([], None)"
| "gossip_pass obs ended join m cps (seed # seeds) self =
     (if poDone obs seed then ([], Some Interrupted)
      else if seed = self then gossip_pass obs ended join m cps seeds self
      else
        (case Join (\<lambda>_. poJoin obs seed) [seed] m of
           (calls, _, joined, None) \<Rightarrow>
             (calls @ fst (syncControlPlanePeers ended join m cps self seed 0), Some (Contacted seed joined))
         | (calls, _, _, Some _) \<Rightarrow>
             (case gossip_pass obs ended join m cps seeds self of (later, result) \<Rightarrow> (calls @ later, result))))"

partial_function (option) join_passes ::
    "(nat \<Rightarrow> 'e passObs) \<Rightarrow> (string \<Rightarrow> bool) \<Rightarrow> (string \<Rightarrow> int \<times> 'e option) \<Rightarrow> 'e Manager \<Rightarrow> string list \<Rightarrow> string list
       \<Rightarrow> string \<Rightarrow> nat \<Rightarrow> ml_call list \<Rightarrow> (ml_call list \<times> join_end) option" where
  "join_passes obs ended join m seeds cps self k calls =
     (case gossip_pass (obs k) ended join m cps seeds self of
        (later, Some result) \<Rightarrow> Some (calls @ later, result)
      | (later, None) \<Rightarrow>
          if poPauseDone (obs k) then Some (calls @ later, Interrupted)
          else join_passes obs ended join m seeds cps self (Suc k) (calls @ later))"

definition joinGossipPeers ::
    "(nat \<Rightarrow> 'e passObs) \<Rightarrow> (string \<Rightarrow> bool) \<Rightarrow> (string \<Rightarrow> int \<times> 'e option) \<Rightarrow> 'e Manager \<Rightarrow> string list \<Rightarrow> string list
       \<Rightarrow> string \<Rightarrow> (ml_call list \<times> join_end) option" where
  "joinGossipPeers obs ended join m seeds cps self =
     (if length seeds = 0 then Some ([], NoSeeds) else join_passes obs ended join m seeds cps self 0 [])"

subsection \<open>Narrating changes\<close>

text \<open>The lines of the two narrators over the values the ticks read.\<close>

fun logMembershipChanges :: "Snapshot list \<Rightarrow> u64 \<Rightarrow> (u64 \<times> string list) list" where
  "logMembershipChanges [] lastGen = []"
| "logMembershipChanges (snapshot # rest) lastGen =
     (if Generation snapshot = lastGen then logMembershipChanges rest lastGen
      else (Generation snapshot, map NodeID (Nodes snapshot)) # logMembershipChanges rest (Generation snapshot))"

datatype leader_line = NoLeader u64 | Leading u64 | Following string u64

fun logLeadershipChanges :: "(string \<times> u64 \<times> bool) list \<Rightarrow> string \<Rightarrow> u64 \<Rightarrow> leader_line list" where
  "logLeadershipChanges [] lastID lastTerm = []"
| "logLeadershipChanges ((nid, trm, leads) # rest) lastID lastTerm =
     (if nid = lastID \<and> trm = lastTerm then logLeadershipChanges rest lastID lastTerm
      else (if nid = [] then NoLeader trm else if leads then Leading trm else Following nid trm)
        # logLeadershipChanges rest nid trm)"

subsection \<open>Running a replica\<close>

definition gossip_config :: "Config \<Rightarrow> ControlPlane \<Rightarrow> mgrConfig" where
  "gossip_config cfg replica =
     \<lparr>mcName = ''controlplane:'' @ cpNodeID replica @ ''@'' @ cp_GossipAddress replica, mcRole = RoleControl,
      mcNodeID = [], mcNodeAddress = [], mcBindAddr = cpHost replica, mcBindPort = cpGossipPort replica,
      mcAdvertiseAddr = cpHost replica, mcAdvertisePort = cpGossipPort replica, mcClusterLabel = cfClusterName cfg,
      mcSecretKey = [], mcLocal = cp_isLoopback (cpHost replica), mcProbeInterval = 0, mcProbeTimeout = 0,
      mcTCPTimeout = DefaultTCPTimeout, mcGossipInterval = 0, mcPushPullInterval = 0, mcSuspicionMult = 0, mcLeaveTimeout = 0\<rparr>"

definition raft_config :: "Config \<Rightarrow> ControlPlane \<Rightarrow> storeConfig" where
  "raft_config cfg replica =
     \<lparr>scNodeID = cpNodeID replica, scBindAddress = cp_RaftAddress replica,
      scPeers = map (\<lambda>entry. Peer (cpNodeID entry) (cp_RaftAddress entry)) (cfControlPlanes cfg),
      scDataDir = path_Join [raftDataRoot cfg, cpNodeID replica],
      scHeartbeatTimeout = HeartbeatTimeout (cfRaft cfg), scElectionTimeout = ElectionTimeout (cfRaft cfg),
      scLeaderLeaseTimeout = LeaderLeaseTimeout (cfRaft cfg), scSnapshotThreshold = rfSnapshotThreshold (cfRaft cfg),
      scApplyTimeout = ElectionTimeout (cfRaft cfg)\<rparr>"

definition bridge_config :: "Config \<Rightarrow> bridgeConfig" where
  "bridge_config cfg =
     \<lparr>bcHasStore = True, bcHasGossip = True, bcReplicationFactor = cfReplicationFactor cfg,
      bcInterval = ProposeInterval (cfRaft cfg), bcSettleWindow = 0\<rparr>"

definition gossip_seeds :: "Config \<Rightarrow> string list \<Rightarrow> string list" where
  "gossip_seeds cfg extraSeeds = extraSeeds @ ControlPlaneGossipSeeds cfg @ map cn_GossipAddress (cfNodes cfg)"

text \<open>The loops started in the background.\<close>

datatype background = NarrateMembership | NarrateLeadership | BridgeLoop | JoinLoop "string list" "string list" string

datatype cp_call =
    GossipStarted string
  | GossipCall ml_call
  | RaftCall store_call
  | Listening string
  | Spawned background
  | MonitorStopped
  | GracefulStop

datatype 'e run_end = ServeReturned "'e option" | Signalled

datatype 'e cp_error =
    GossipFailed "'e mgr_error"
  | StoreFailed "'e store_error"
  | BridgeFailed bridge_error
  | ServiceFailed new_error
  | ListenFailed 'e
  | ServeFailed 'e

text \<open>
  What the libraries answer: the gossip library's creation, address, leave and shutdown, the Raft library's
  calls, the listener and how serving ends.
\<close>

record 'e cpEnv =
  ceCreate :: "mlConfig \<Rightarrow> 'e option"
  ceLocalAddress :: string
  ceLeave :: "int \<Rightarrow> 'e option"
  ceShutdown :: "'e option"
  ceStore :: "'e storeEnv"
  ceListen :: "string \<Rightarrow> 'e option"
  ceEnd :: "'e run_end"

text \<open>Once the parts exist: listen, start the loops, serve until an error or a signal, stop the loops.\<close>

definition serve :: "'e cpEnv \<Rightarrow> Config \<Rightarrow> ControlPlane \<Rightarrow> string list \<Rightarrow> cp_call list \<times> 'e cp_error option" where
  "serve env cfg replica extraSeeds =
     (case ceListen env (cp_Address replica) of
        Some e \<Rightarrow> ([], Some (ListenFailed e))
      | None \<Rightarrow>
          (let seeds = gossip_seeds cfg extraSeeds;
               started = [Listening (cp_Address replica), Spawned NarrateMembership, Spawned NarrateLeadership,
                 Spawned BridgeLoop,
                 Spawned (JoinLoop (cp_uniqueStrings seeds) (cp_uniqueStrings (ControlPlaneGossipSeeds cfg)) (ceLocalAddress env))]
           in case ceEnd env of
                ServeReturned err \<Rightarrow> (started @ [MonitorStopped], map_option ServeFailed err)
              | Signalled \<Rightarrow> (started @ [GracefulStop, MonitorStopped], None)))"

definition cp_run ::
    "mlLimits \<Rightarrow> 'e cpEnv \<Rightarrow> int \<Rightarrow> Config \<Rightarrow> ControlPlane \<Rightarrow> string list \<Rightarrow> cp_call list \<times> 'e cp_error option" where
  "cp_run L env now cfg replica extraSeeds =
     (case create_participant L (ceCreate env) (gossip_config cfg replica) of
        Inl e \<Rightarrow> ([], Some (GossipFailed e))
      | Inr members \<Rightarrow>
          (let started = GossipStarted (mcName (gossip_config cfg replica));
               closing = map GossipCall (fst (Close (ceLeave env) (ceShutdown env) members))
           in case store_New (ceStore env) (raft_config cfg replica) of
                (calls, Inl e) \<Rightarrow> (started # map RaftCall calls @ closing, Some (StoreFailed e))
              | (calls, Inr store) \<Rightarrow>
                  (let opened = started # map RaftCall calls;
                       closing = map RaftCall (fst (store_Close (ceStore env) store)) @ closing
                   in case NewBridge (bridge_config cfg) of
                        Inl e \<Rightarrow> (opened @ closing, Some (BridgeFailed e))
                      | Inr bridge \<Rightarrow>
                          (case service_New (Some cfg) (Some True) now [WithLeaderInfo True] of
                             Inl e \<Rightarrow> (opened @ closing, Some (ServiceFailed e))
                           | Inr svc \<Rightarrow>
                               (case serve env cfg replica extraSeeds of
                                  (calls, err) \<Rightarrow> (opened @ calls @ closing, err))))))"

subsection \<open>The command\<close>

datatype 'e main_result =
    FatalLoad "'e load_error"
  | FatalFactor int "problem list"
  | Printed string
  | FatalReplica select_error
  | Ran "warning list" "cp_call list" "'e cp_error option"

definition controlplane_main ::
    "mlLimits \<Rightarrow> 'e cpEnv \<Rightarrow> int \<Rightarrow> 'e load_error + Config \<Rightarrow> mainFlags \<Rightarrow> 'e main_result" where
  "controlplane_main L env now loaded fl =
     (case loaded of
        Inl e \<Rightarrow> FatalLoad e
      | Inr cfg \<Rightarrow>
          (let overridden = flReplicationOverride fl \<ge> 0;
               cfg = (if overridden then cfg\<lparr>cfReplicationFactor := flReplicationOverride fl\<rparr> else cfg)
           in if overridden \<and> config_Validate cfg \<noteq> []
              then FatalFactor (flReplicationOverride fl) (config_Validate cfg)
              else case dump fl cfg of
                  Some txt \<Rightarrow> Printed txt
                | None \<Rightarrow>
                    (case selectReplica cfg (flNodeID fl) of
                       Inl e \<Rightarrow> FatalReplica e
                     | Inr replica \<Rightarrow>
                         (let replica = (if flPortOverride fl \<noteq> 0 then replica\<lparr>cpPort := flPortOverride fl\<rparr> else replica);
                              (calls, err) = cp_run L env now cfg replica (splitCommaList (flGossipJoin fl))
                          in Ran (Warnings cfg) calls err))))"

end
