(* ===== verification/Control_Plane_Laws.thy ===== *)
theory Control_Plane_Laws
  imports Control_Plane Sidecar_Laws Pulse_Client
begin

text \<open>
  What \<^verbatim>\<open>cmd/controlplane/main.go\<close> guarantees: a configuration that validates is accepted by every part
  the process builds from it, a run releases what it acquired in order, replicas never share a data
  directory, the endpoint list and the dumps are read back as they were configured, and the gossip
  join reaches every other replica.
\<close>


definition serving :: "cp_call list \<Rightarrow> bool" where
  "serving t \<longleftrightarrow> Spawned BridgeLoop \<in> set t"



text \<open>A complete life of the process: gossip first and last, and whatever Raft opened is closed in between.\<close>

definition cp_life :: "cp_call list \<Rightarrow> bool" where
  "cp_life t \<longleftrightarrow>
     (\<exists>name body timeout. t = GossipStarted name # body @ [GossipCall (MlLeave timeout), GossipCall MlShutdown] \<and>
        (\<forall>r. count_list body (RaftCall (Opened r)) = count_list body (RaftCall (Closed r))) \<and>
        (\<forall>c n. GossipCall c \<notin> set body \<and> GossipStarted n \<notin> set body))"

text \<open>A reader of a dump: the lines, each split at its tabs.\<close>

definition rows :: "string \<Rightarrow> string list list" where
  "rows txt = map (split_on CHR 0x09) (butlast (split_on CHR 0x0A txt))"

subsection \<open>Text helpers\<close>

lemma cp_uniqueStrings_same: "cp_uniqueStrings = uniqueStrings"
proof -
  have "add_unique = (\<lambda>v out. if v \<noteq> [] \<and> v \<notin> set out then out @ [v] else out)"
    by (intro ext) (simp add: add_unique_def)
  then show ?thesis
    by (intro ext) (simp add: cp_uniqueStrings_def uniqueStrings_def)
qed

lemma replica_ok:
  assumes "config_ok cfg" and "replica \<in> set (cfControlPlanes cfg)"
  shows "control_ok replica" and "id_ok (cpNodeID replica)" and "host_ok (cpHost replica)" and "port_ok (cpGossipPort replica)"
    and "port_ok (cpRaftPort replica)" and "port_ok (cpPort replica)"
  using assms by (auto simp: config_ok_def list_all_iff control_ok_def)

subsection \<open>A valid configuration is accepted by every part\<close>




subsection \<open>Running\<close>




lemma serving_append [simp]: "serving (s @ t) \<longleftrightarrow> serving s \<or> serving t"
  by (auto simp: serving_def)

lemma serving_Cons [simp]: "serving (c # t) \<longleftrightarrow> c = Spawned BridgeLoop \<or> serving t"
  by (auto simp: serving_def)



text \<open>The run does not read the service port of the configuration, so overriding it changes nothing before the listener.\<close>

lemma port_override [simp]:
  "gossip_config cfg (replica\<lparr>cpPort := p\<rparr>) = gossip_config cfg replica"
  "raft_config cfg (replica\<lparr>cpPort := p\<rparr>) = raft_config cfg replica"
  by (simp_all add: gossip_config_def raft_config_def cp_GossipAddress_def cp_RaftAddress_def)





subsection \<open>Everything is released\<close>

lemma store_balance:
  assumes "store_New env cfg = (calls, res)"
  shows "count_list (calls @ (case res of Inl _ \<Rightarrow> [] | Inr s \<Rightarrow> fst (store_Close env s))) (Opened r) =
    count_list (calls @ (case res of Inl _ \<Rightarrow> [] | Inr s \<Rightarrow> fst (store_Close env s))) (Closed r)"
proof -
  note parts = store_New_def closeStores_def store_Close_def Let_def
  from openStores_cases [of env cfg] show ?thesis
  proof (elim disjE exE)
    assume "openStores env cfg = ([], Inr False)"
    then show ?thesis
      using assms by (cases r) (auto simp: parts split: option.splits sum.splits bool.splits if_splits)
  next
    assume "openStores env cfg = ([Opened BoltStore], Inr True)"
    then show ?thesis
      using assms by (cases r) (auto simp: parts split: option.splits sum.splits bool.splits if_splits)
  qed (use assms in \<open>auto simp: parts split: option.splits if_splits\<close>)
qed

lemma count_raft [simp]: "count_list (map RaftCall cs) (RaftCall c) = count_list cs c"
  by (induction cs) auto

lemma serve_calls:
  "count_list (fst (serve env cfg replica seeds)) (RaftCall c) = 0"
  "GossipCall g \<notin> set (fst (serve env cfg replica seeds))" "GossipStarted n \<notin> set (fst (serve env cfg replica seeds))"
  by (simp_all add: serve_def Let_def split: option.split run_end.split)

lemma cp_lifeI:
  assumes "create_participant L create mc = Inr m" and "\<And>r. count_list body (RaftCall (Opened r)) = count_list body (RaftCall (Closed r))"
    and "\<And>c n. GossipCall c \<notin> set body \<and> GossipStarted n \<notin> set body"
  shows "cp_life (GossipStarted name # body @ map GossipCall (fst (Close leave shutdown m)))"
proof -
  obtain timeout where "fst (Close leave shutdown m) = [MlLeave timeout, MlShutdown]"
    using created_open [OF assms(1)] by (simp add: Close_def leaveLocked_def Let_def)
  then show ?thesis
    using assms(2,3) by (auto simp: cp_life_def)
qed

text \<open>
  C38: The process releases what it acquires, in order.  Whatever fails, a run that created its gossip
  participant ends by leaving the ring and shutting it down, after every Raft resource it opened has been closed
  exactly as often; a run that did not has made no call at all.
\<close>

theorem run_releases:
  "fst (cp_run L env now cfg replica seeds) = [] \<or> cp_life (fst (cp_run L env now cfg replica seeds))"
proof (cases "create_participant L (ceCreate env) (gossip_config cfg replica)")
  case (Inl e)
  then show ?thesis
    by (simp add: cp_run_def)
next
  case (Inr m)
  obtain calls res where s: "store_New (ceStore env) (raft_config cfg replica) = (calls, res)"
    by (cases "store_New (ceStore env) (raft_config cfg replica)")
  have "\<exists>mid. fst (cp_run L env now cfg replica seeds) = GossipStarted (mcName (gossip_config cfg replica)) #
      (map RaftCall calls @ mid @ map RaftCall (case res of Inl _ \<Rightarrow> [] | Inr s \<Rightarrow> fst (store_Close (ceStore env) s)))
      @ map GossipCall (fst (Close (ceLeave env) (ceShutdown env) m)) \<and> (mid = [] \<or> mid = fst (serve env cfg replica seeds))"
    using Inr s
    by (cases res; cases "NewBridge (bridge_config cfg)"; cases "service_New (Some cfg) (Some True) now [WithLeaderInfo True]")
      (auto simp: cp_run_def Let_def case_prod_unfold)
  then obtain mid where mid: "fst (cp_run L env now cfg replica seeds) = GossipStarted (mcName (gossip_config cfg replica)) #
      (map RaftCall calls @ mid @ map RaftCall (case res of Inl _ \<Rightarrow> [] | Inr s \<Rightarrow> fst (store_Close (ceStore env) s)))
      @ map GossipCall (fst (Close (ceLeave env) (ceShutdown env) m))"
    and quiet: "mid = [] \<or> mid = fst (serve env cfg replica seeds)"
    by blast
  have "count_list mid (RaftCall c) = 0" "GossipCall g \<notin> set mid" "GossipStarted n \<notin> set mid" for c g n
    using quiet by (auto simp: serve_calls)
  then have "cp_life (fst (cp_run L env now cfg replica seeds))"
    unfolding mid using store_balance [OF s] by (intro cp_lifeI [OF Inr]) auto
  then show ?thesis
    by simp
qed

subsection \<open>What the process derives from a file\<close>

lemma raftDataRoot_ne:
  assumes "rfDataDir (cfRaft cfg) \<noteq> []"
  shows "raftDataRoot cfg \<noteq> []"
  using assms path_Join_ne [of "if Dir (cfPath cfg) = [] then ''.'' else Dir (cfPath cfg)"]
  by (simp add: raftDataRoot_def Let_def del: path_Join.simps)

text \<open>
  No two replicas of a valid configuration keep their Raft state in the same directory, wherever the
  configuration file and \<^verbatim>\<open>raft.data_dir\<close> point.
\<close>

theorem data_dirs_distinct:
  assumes "config_Validate cfg = []"
  shows "distinct (map (\<lambda>r. scDataDir (raft_config cfg r)) (cfControlPlanes cfg))"
proof -
  have ok: "config_ok cfg"
    using assms by (simp add: config_Validate_exact)
  have root: "raftDataRoot cfg \<noteq> []"
    using ok by (intro raftDataRoot_ne) (simp add: config_ok_def settings_ok_def)
  have "scDataDir (raft_config cfg r) = scDataDir (raft_config cfg s) \<longleftrightarrow> cpNodeID r = cpNodeID s"
    if "r \<in> set (cfControlPlanes cfg)" "s \<in> set (cfControlPlanes cfg)" for r s
    using path_Join_inject [OF root] id_ok_name replica_ok(2) [OF ok] that
    by (simp add: raft_config_def del: path_Join.simps)
  moreover have "distinct (map cpNodeID (cfControlPlanes cfg))"
    using ok by (simp add: config_ok_def ControlPlaneIDs_def)
  ultimately show ?thesis
    by (simp add: distinct_map inj_on_def)
qed

lemma fold_add_endpoint:
  assumes "distinct (ps @ ws)" and "\<forall>w \<in> set ws. w \<noteq> [] \<and> TrimSpace w = w"
  shows "fold add_endpoint ws ps = ps @ ws"
  using assms by (induction ws arbitrary: ps) (auto simp: add_endpoint_def)

lemma distinct_concat_heads: "distinct (concat (map (\<lambda>x. f x # g x) xs)) \<Longrightarrow> distinct (map f xs)"
  by (induction xs) auto

text \<open>
  The endpoint list a configuration hands to clients is the list they dial.  For a valid
  configuration, splitting \<open>ControlPlaneEndpoints\<close> gives back exactly the replica addresses, in order, with no
  address dropped as blank or duplicate.
\<close>

theorem endpoints_roundtrip:
  assumes "config_Validate cfg = []"
  shows "(splitEndpoints (ControlPlaneEndpoints cfg) :: 'e client_error + string list) = Inr (ControlPlaneAddresses cfg)"
proof -
  have ok: "config_ok cfg"
    using assms by (simp add: config_Validate_exact)
  let ?as = "ControlPlaneAddresses cfg"
  have a: "a \<noteq> [] \<and> TrimSpace a = a \<and> CHR '','' \<notin> set a" if "a \<in> set ?as" for a
  proof -
    obtain r where "r \<in> set (cfControlPlanes cfg)" "a = JoinHostPort (cpHost r) (Itoa (cpPort r))"
      using \<open>a \<in> set ?as\<close> by (auto simp: ControlPlaneAddresses_def cp_Address_def)
    then show ?thesis
      using host_port_text [OF replica_ok(3,6) [OF ok]] by (auto intro: TrimSpace_plain)
  qed
  have ne: "?as \<noteq> []"
    using ok by (simp add: config_ok_def ControlPlaneAddresses_def)
  have "distinct (concat (map (\<lambda>r. cp_Address r # [cp_GossipAddress r, cp_RaftAddress r]) (cfControlPlanes cfg)))"
    using ok by (simp add: config_ok_def listen_addresses_def)
  then have "distinct ?as"
    unfolding ControlPlaneAddresses_def by (rule distinct_concat_heads)
  then have "fold add_endpoint ?as [] = ?as"
    using a fold_add_endpoint [of "[]" ?as] by simp
  moreover have "split_on CHR '','' (ControlPlaneEndpoints cfg) = ?as"
    unfolding ControlPlaneEndpoints_def using a ne by (intro split_on_join) auto
  ultimately show ?thesis
    using ne by (simp add: splitEndpoints_def)
qed

theorem endpoints_roundtrip_witness:
  "(splitEndpoints (ControlPlaneEndpoints sample_cluster) :: unit client_error + string list) = Inr (ControlPlaneAddresses sample_cluster) \<and>
   length (ControlPlaneAddresses sample_cluster) = 3"
  using endpoints_roundtrip [OF sample_cluster_ok]
  by (simp add: sample_cluster_def ControlPlaneAddresses_def launch_replicas)

text \<open>The replication override is accepted exactly up to the configured maximum.\<close>

theorem factor_override:
  assumes "config_Validate cfg = []" and "0 \<le> flReplicationOverride fl"
  shows "(\<exists>ps. controlplane_main L env now (Inr cfg) fl = FatalFactor (flReplicationOverride fl) ps) \<longleftrightarrow>
    MaxReplicationFactor < flReplicationOverride fl"
proof -
  let ?c = "cfg\<lparr>cfReplicationFactor := flReplicationOverride fl\<rparr>"
  have "config_Validate ?c = [] \<longleftrightarrow> flReplicationOverride fl \<le> MaxReplicationFactor"
    using assms unfolding config_Validate_exact
    by (simp add: config_ok_def settings_ok_def ControlPlaneIDs_def NodeIDs_def listen_addresses_def)
  then show ?thesis
    using assms(2) by (auto simp: controlplane_main_def Let_def case_prod_unfold split: option.splits sum.splits)
qed

subsection \<open>The dumps\<close>

lemma split_on_free: "sep \<notin> set w \<Longrightarrow> split_on sep w = [w]"
  by (induction w) auto

lemma split_on_first: "sep \<notin> set w \<Longrightarrow> split_on sep (w @ sep # s) = w # split_on sep s"
  by (induction w) auto

lemma split_on_nonempty: "split_on sep s \<noteq> []"
  by (induction s) (auto split: list.splits)

lemma plain_no_tab: "list_all is_plain s \<Longrightarrow> CHR 0x09 \<notin> set s \<and> CHR 0x0A \<notin> set s"
proof -
  have "\<not> is_plain CHR 0x09" "\<not> is_plain CHR 0x0A"
    by (simp_all add: is_plain_def byte_def)
  then show "list_all is_plain s \<Longrightarrow> CHR 0x09 \<notin> set s \<and> CHR 0x0A \<notin> set s"
    by (auto simp: list_all_iff)
qed

lemma rows_row:
  assumes "list_all is_plain nid" and "list_all is_plain host" and "port_ok port"
  shows "rows (print_row nid host port @ s) = [nid, host, Itoa port] # rows s"
proof -
  note p = plain_no_tab [OF assms(1)] plain_no_tab [OF assms(2)] plain_no_tab [OF Itoa_port(1) [OF assms(3)]]
  let ?l = "nid @ CHR 0x09 # host @ CHR 0x09 # Itoa port"
  have "split_on CHR 0x0A (?l @ CHR 0x0A # s) = ?l # split_on CHR 0x0A s"
    using p by (intro split_on_first) auto
  moreover have "split_on CHR 0x09 ?l = [nid, host, Itoa port]"
    using p by (simp add: split_on_first split_on_free)
  ultimately show ?thesis
    by (simp add: rows_def print_row_def tab_def nl_def split_on_nonempty)
qed

lemma rows_concat:
  assumes "\<forall>x \<in> set xs. list_all is_plain (f x) \<and> list_all is_plain (g x) \<and> port_ok (h x)"
  shows "rows (concat (map (\<lambda>x. print_row (f x) (g x) (h x)) xs) @ s) = map (\<lambda>x. [f x, g x, Itoa (h x)]) xs @ rows s"
  using assms by (induction xs) (auto simp: rows_row)

text \<open>
  The dumps the deployment scripts read are unambiguous: the rows and fields a reader finds are the
  configured ones, in order, because no field of a valid configuration holds a tab or a line end.
\<close>

theorem dump_readable:
  assumes "config_Validate cfg = []"
  shows "dump (main_defaults\<lparr>flPrintNodes := True\<rparr>) cfg = Some t \<longrightarrow>
      rows t = map (\<lambda>n. [cnNodeID n, cnHost n, Itoa (cnPort n)]) (cfNodes cfg)"
    and "dump (main_defaults\<lparr>flPrintControlPlane := True\<rparr>) cfg = Some t \<longrightarrow>
      rows t = map (\<lambda>r. [cpNodeID r, cpHost r, Itoa (cpPort r)]) (cfControlPlanes cfg)"
    and "dump (main_defaults\<lparr>flPrintGossip := True\<rparr>) cfg = Some t \<longrightarrow>
      rows t = map (\<lambda>r. [cpNodeID r, cpHost r, Itoa (cpGossipPort r)]) (cfControlPlanes cfg)
        @ map (\<lambda>n. [cnNodeID n, cnHost n, Itoa (cnGossipPort n)]) (cfNodes cfg)"
proof -
  have ok: "config_ok cfg"
    using assms by (simp add: config_Validate_exact)
  have n: "\<forall>n \<in> set (cfNodes cfg). list_all is_plain (cnNodeID n) \<and> list_all is_plain (cnHost n) \<and> port_ok (cnPort n) \<and> port_ok (cnGossipPort n)"
    using ok id_ok_plain host_text(4) by (auto simp: config_ok_def list_all_iff cfgNode_ok_def)
  have r: "\<forall>r \<in> set (cfControlPlanes cfg). list_all is_plain (cpNodeID r) \<and> list_all is_plain (cpHost r) \<and> port_ok (cpPort r) \<and> port_ok (cpGossipPort r)"
    using ok id_ok_plain host_text(4) by (auto simp: config_ok_def list_all_iff control_ok_def)
  have [simp]: "rows [] = []"
    by (simp add: rows_def)
  show "dump (main_defaults\<lparr>flPrintNodes := True\<rparr>) cfg = Some t \<longrightarrow>
      rows t = map (\<lambda>n. [cnNodeID n, cnHost n, Itoa (cnPort n)]) (cfNodes cfg)"
    using rows_concat [of "cfNodes cfg" cnNodeID cnHost cnPort "[]"] n by (auto simp: dump_def main_defaults_def)
  show "dump (main_defaults\<lparr>flPrintControlPlane := True\<rparr>) cfg = Some t \<longrightarrow>
      rows t = map (\<lambda>r. [cpNodeID r, cpHost r, Itoa (cpPort r)]) (cfControlPlanes cfg)"
    using rows_concat [of "cfControlPlanes cfg" cpNodeID cpHost cpPort "[]"] r by (auto simp: dump_def main_defaults_def)
  show "dump (main_defaults\<lparr>flPrintGossip := True\<rparr>) cfg = Some t \<longrightarrow>
      rows t = map (\<lambda>r. [cpNodeID r, cpHost r, Itoa (cpGossipPort r)]) (cfControlPlanes cfg)
        @ map (\<lambda>n. [cnNodeID n, cnHost n, Itoa (cnGossipPort n)]) (cfNodes cfg)"
    using rows_concat [of "cfNodes cfg" cnNodeID cnHost cnGossipPort "[]"] n r
    by (auto simp: dump_def main_defaults_def rows_concat [of "cfControlPlanes cfg" cpNodeID cpHost cpGossipPort])
qed

subsection \<open>Joining the ring\<close>








end
