(* ===== verification/Chaos_Checks.thy ===== *)
theory Chaos_Checks
  imports Go_Path Topology Go_Json
begin

text \<open>
  \<^verbatim>\<open>cmd/pulsekv-chaos/main.go\<close>, the judgements: which settings the chaos verifier accepts, which
  topologies it takes for a correct removal or rejoin of the target node, which keys it works with, and when it
  takes the control-plane replicas to agree.  These are functions of fetched topologies; the loops
  that fetch them are in \<open>Chaos_Run\<close>.  Error texts are values of an error type that carry what the text
  prints.
\<close>

definition maxKeyAttempts :: nat where "maxKeyAttempts = 1000000"

subsection \<open>Settings\<close>

record settings =
  stControlPlane :: string
  stTarget :: string
  cycles :: int
  seed :: int
  readyFile :: string
  reportPath :: string
  transitionTimeout :: int
  pollInterval :: int
  stRefreshInterval :: int
  stRpcTimeout :: int
  workers :: int
  promotionKeys :: int
  catchUpTimeout :: int
  scenario :: string
  leaderReadyFile :: string
  leaderTimeout :: int
  leaderPollTimeout :: int

definition scenarioDataNode :: string where "scenarioDataNode = ''data-node''"
definition scenarioLeader :: string where "scenarioLeader = ''leader''"
definition scenarioBoth :: string where "scenarioBoth = ''both''"

definition runsDataNodeScenario :: "settings \<Rightarrow> bool" where
  "runsDataNodeScenario c \<longleftrightarrow> scenario c = scenarioDataNode \<or> scenario c = scenarioBoth"

definition runsLeaderScenario :: "settings \<Rightarrow> bool" where
  "runsLeaderScenario c \<longleftrightarrow> scenario c = scenarioLeader \<or> scenario c = scenarioBoth"

datatype settings_error =
    EmptyControlPlane | EmptyTarget | NonPositiveCycles | NegativeSeed | EmptyReadyFile | EmptyReport | SameReadyAndReport
  | NonPositiveTransition | NonPositivePoll | NonPositiveRefresh | NonPositiveRPC | NonPositiveWorkers | NegativePromotionKeys
  | NonPositiveCatchUp | UnknownScenario | NonPositiveLeader | NonPositiveLeaderPoll | EmptyLeaderFile | SameLeaderFile

definition settings_validate :: "settings \<Rightarrow> settings_error option" where
  "settings_validate c =
     (if TrimSpace (stControlPlane c) = [] then Some EmptyControlPlane
      else if TrimSpace (stTarget c) = [] then Some EmptyTarget
      else if cycles c \<le> 0 then Some NonPositiveCycles
      else if seed c < 0 then Some NegativeSeed
      else if TrimSpace (readyFile c) = [] then Some EmptyReadyFile
      else if TrimSpace (reportPath c) = [] then Some EmptyReport
      else if Clean (readyFile c) = Clean (reportPath c) then Some SameReadyAndReport
      else if transitionTimeout c \<le> 0 then Some NonPositiveTransition
      else if pollInterval c \<le> 0 then Some NonPositivePoll
      else if stRefreshInterval c \<le> 0 then Some NonPositiveRefresh
      else if stRpcTimeout c \<le> 0 then Some NonPositiveRPC
      else if workers c \<le> 0 then Some NonPositiveWorkers
      else if promotionKeys c < 0 then Some NegativePromotionKeys
      else if catchUpTimeout c \<le> 0 then Some NonPositiveCatchUp
      else if scenario c \<noteq> scenarioDataNode \<and> scenario c \<noteq> scenarioLeader \<and> scenario c \<noteq> scenarioBoth then Some UnknownScenario
      else if leaderTimeout c \<le> 0 then Some NonPositiveLeader
      else if leaderPollTimeout c \<le> 0 then Some NonPositiveLeaderPoll
      else if runsLeaderScenario c \<and> TrimSpace (leaderReadyFile c) = [] then Some EmptyLeaderFile
      else if runsLeaderScenario c \<and>
          (Clean (leaderReadyFile c) = Clean (readyFile c) \<or> Clean (leaderReadyFile c) = Clean (reportPath c))
        then Some SameLeaderFile
      else None)"

subsection \<open>The baseline\<close>

datatype check_error =
    TooFewNodes nat
  | TargetAbsent string "string list"
  | OwnerNotHRW u32 string string
  | MapNotHRW
  | TargetOwnsNothing string
  | TargetOwnsEverything
  | KeysMissing nat nat
  | NoKeyForShard u32
  | GenerationStuck u64 u64
  | TargetGone string
  | TargetPresent string
  | NodesChanged string "string list" "string list"
  | ShardCountChanged u32 u32
  | NotReassigned u32
  | SurvivorMoved u32 string string
  | NothingMoved string
  | NodesNotRestored "string list" "string list"
  | MapNotRestored

definition sortedNodeIDs :: "(string, string) fmap \<Rightarrow> string list" where
  "sortedNodeIDs nodes = sorted_list_of_fset (fmdom nodes)"

definition validateExactHRW :: "Topology \<Rightarrow> check_error + unit" where
  "validateExactHRW s =
     (let ids = sortedNodeIDs (tNodes s);
          want = AssignShards ids (tShardCount s)
      in if tShardMap s = want then Inr ()
         else case for_u32E (\<lambda>shard u.
                  if fmget (tShardMap s) shard \<noteq> fmget want shard
                  then Inl (OwnerNotHRW shard (fmget (tShardMap s) shard) (fmget want shard)) else Inr u)
                0 (tShardCount s) () of
              Inl e \<Rightarrow> Inl e
            | Inr _ \<Rightarrow> Inl MapNotHRW)"

definition shardsOwnedBy :: "Topology \<Rightarrow> string \<Rightarrow> u32 list" where
  "shardsOwnedBy s owner =
     for_u32 (\<lambda>shard shards. if fmget (tShardMap s) shard = owner then shards @ [shard] else shards) 0 (tShardCount s) []"

definition validateBaseline :: "Topology \<Rightarrow> string \<Rightarrow> check_error + unit" where
  "validateBaseline s target =
     (if fmlen (tNodes s) < 2 then Inl (TooFewNodes (fmlen (tNodes s)))
      else if fmlookup (tNodes s) target = None then Inl (TargetAbsent target (sortedNodeIDs (tNodes s)))
      else case validateExactHRW s of
          Inl e \<Rightarrow> Inl e
        | Inr _ \<Rightarrow> if shardsOwnedBy s target = [] then Inl (TargetOwnsNothing target) else Inr ())"

subsection \<open>Keys\<close>

record stableEntry =
  seKey :: bytes
  seValue :: bytes
  seShard :: u32
  seOwner :: string

text \<open>The loop that looks for a key of every wanted shard; \<open>tried\<close> counts the keys tried.\<close>

definition stable_key :: "string \<Rightarrow> nat \<Rightarrow> bytes" where
  "stable_key namespace tried = namespace @ '':stable:'' @ Itoa (int tried)"

function stable_from ::
    "Topology \<Rightarrow> string \<Rightarrow> u32 fset \<Rightarrow> nat \<Rightarrow> (u32, stableEntry) fmap \<Rightarrow> (u32, stableEntry) fmap" where
  "stable_from s namespace wanted tried entries =
     (if tried < maxKeyAttempts \<and> fmlen entries < fcard wanted then
        (let key = stable_key namespace tried;
             shard = ShardForKey key (tShardCount s)
         in if shard |\<notin>| wanted then stable_from s namespace wanted (tried + 1) entries
            else if fmlookup entries shard \<noteq> None then stable_from s namespace wanted (tried + 1) entries
            else stable_from s namespace wanted (tried + 1)
              (fmupd shard \<lparr>seKey = key, seValue = ''stable-value:'' @ namespace @ '':'' @ Itoa (uint shard), seShard = shard,
                 seOwner = fmget (tShardMap s) shard\<rparr> entries))
      else entries)"
  by pat_completeness auto
termination
  by (relation "measure (\<lambda>(s, namespace, wanted, tried, entries). maxKeyAttempts - tried)") auto

declare stable_from.simps [simp del]

definition buildStableEntries :: "Topology \<Rightarrow> string \<Rightarrow> string \<Rightarrow> check_error + stableEntry list" where
  "buildStableEntries s target namespace =
     (let wanted = for_u32 (\<lambda>shard w. if fmget (tShardMap s) shard \<noteq> target then finsert shard w else w) 0 (tShardCount s) {||}
      in if fcard wanted = 0 then Inl TargetOwnsEverything
         else
           (let entries = stable_from s namespace wanted 0 fmempty
            in if fmlen entries \<noteq> fcard wanted then Inl (KeysMissing (fmlen entries) (fcard wanted))
               else Inr (map (\<lambda>shard. the (fmlookup entries shard)) (sorted_list_of_fset (fmdom entries)))))"

function key_from :: "string \<Rightarrow> u32 \<Rightarrow> u32 \<Rightarrow> nat \<Rightarrow> bytes option" where
  "key_from stem want shardCount tried =
     (if tried < maxKeyAttempts then
        (let key = stem @ '':'' @ Itoa (int tried)
         in if ShardForKey key shardCount = want then Some key else key_from stem want shardCount (tried + 1))
      else None)"
  by pat_completeness auto
termination
  by (relation "measure (\<lambda>(stem, want, shardCount, tried). maxKeyAttempts - tried)") auto

declare key_from.simps [simp del]

definition keyForShard :: "string \<Rightarrow> u32 \<Rightarrow> u32 \<Rightarrow> check_error + bytes" where
  "keyForShard stem want shardCount =
     (case key_from stem want shardCount 0 of None \<Rightarrow> Inl (NoKeyForShard want) | Some key \<Rightarrow> Inr key)"

record promotionEntry =
  peKey :: bytes
  peBase :: string
  peValue :: bytes
  peShard :: u32
  peReplicas :: "string list"

datatype skip_reason = NoPromotionKeys | FactorZero | NoOwnerMap | NoLiveReplica string nat | NoPromotionKey u32

definition promotionValue :: "string \<Rightarrow> int \<Rightarrow> bytes" where
  "promotionValue base rnd = base @ '':rnd'' @ Itoa rnd"

definition promotion_entry :: "Topology \<Rightarrow> string \<Rightarrow> u32 \<Rightarrow> promotionEntry list \<Rightarrow> skip_reason + promotionEntry list" where
  "promotion_entry s namespace shard entries =
     (case keyForShard (namespace @ '':promotion:'' @ Itoa (uint shard)) shard (tShardCount s) of
        Inl _ \<Rightarrow> Inl (NoPromotionKey shard)
      | Inr key \<Rightarrow>
          (let base = ''promotion-value:'' @ namespace @ '':shard'' @ Itoa (uint shard)
           in Inr (entries @ [\<lparr>peKey = key, peBase = base, peValue = promotionValue base 0, peShard = shard,
                peReplicas = topology_Replicas s shard\<rparr>])))"

definition buildPromotionEntries ::
    "Topology \<Rightarrow> string \<Rightarrow> u32 list \<Rightarrow> string \<Rightarrow> int \<Rightarrow> skip_reason + promotionEntry list" where
  "buildPromotionEntries s target targetShards namespace want =
     (if want = 0 then Inl NoPromotionKeys
      else if tReplicationFactor s = 0 then Inl FactorZero
      else if fmlen (tOwners s) = 0 then Inl NoOwnerMap
      else
        (let usable = filter (\<lambda>shard. length (topology_Replicas s shard) > 0) targetShards
         in if usable = [] then Inl (NoLiveReplica target (length targetShards))
            else
              (let want = (if want > int (length usable) then int (length usable) else want)
               in foldE (promotion_entry s namespace) (take (nat want) usable) [])))"

definition refreshPromotionValues :: "promotionEntry list \<Rightarrow> int \<Rightarrow> promotionEntry list" where
  "refreshPromotionValues entries rnd = map (\<lambda>e. e\<lparr>peValue := promotionValue (peBase e) rnd\<rparr>) entries"

subsection \<open>Transitions\<close>

record movementStats =
  moved :: nat
  stable :: nat

definition removal_step :: "Topology \<Rightarrow> Topology \<Rightarrow> string \<Rightarrow> u32 \<Rightarrow> movementStats \<Rightarrow> check_error + movementStats" where
  "removal_step before after target shard stats =
     (let oldOwner = fmget (tShardMap before) shard; newOwner = fmget (tShardMap after) shard
      in if oldOwner = target then
           (if newOwner = target \<or> newOwner = [] then Inl (NotReassigned shard)
            else Inr (stats\<lparr>moved := moved stats + 1\<rparr>))
         else if newOwner \<noteq> oldOwner then Inl (SurvivorMoved shard oldOwner newOwner)
         else Inr (stats\<lparr>stable := stable stats + 1\<rparr>))"

definition validateRemoval :: "Topology \<Rightarrow> Topology \<Rightarrow> string \<Rightarrow> check_error + movementStats" where
  "validateRemoval before after target =
     (if tGeneration after \<le> tGeneration before then Inl (GenerationStuck (tGeneration before) (tGeneration after))
      else if fmlookup (tNodes before) target = None then Inl (TargetGone target)
      else if fmlookup (tNodes after) target \<noteq> None then Inl (TargetPresent target)
      else
        (let expectedNodes = fmdrop target (tNodes before)
         in if tNodes after \<noteq> expectedNodes
            then Inl (NodesChanged target (sortedNodeIDs (tNodes after)) (sortedNodeIDs expectedNodes))
            else if tShardCount after \<noteq> tShardCount before
            then Inl (ShardCountChanged (tShardCount before) (tShardCount after))
            else case validateExactHRW after of
                Inl e \<Rightarrow> Inl e
              | Inr _ \<Rightarrow>
                  (case for_u32E (removal_step before after target) 0 (tShardCount before) \<lparr>moved = 0, stable = 0\<rparr> of
                     Inl e \<Rightarrow> Inl e
                   | Inr stats \<Rightarrow> if moved stats = 0 then Inl (NothingMoved target) else Inr stats)))"

definition rejoin_step :: "Topology \<Rightarrow> Topology \<Rightarrow> string \<Rightarrow> u32 \<Rightarrow> movementStats \<Rightarrow> check_error + movementStats" where
  "rejoin_step before after target shard stats =
     (let oldOwner = fmget (tShardMap before) shard; newOwner = fmget (tShardMap after) shard
      in if oldOwner = newOwner then Inr (stats\<lparr>stable := stable stats + 1\<rparr>)
         else if newOwner \<noteq> target then Inl (SurvivorMoved shard oldOwner newOwner)
         else Inr (stats\<lparr>moved := moved stats + 1\<rparr>))"

definition validateRejoin :: "Topology \<Rightarrow> Topology \<Rightarrow> Topology \<Rightarrow> string \<Rightarrow> check_error + movementStats" where
  "validateRejoin baseline before after target =
     (if tGeneration after \<le> tGeneration before then Inl (GenerationStuck (tGeneration before) (tGeneration after))
      else if fmlookup (tNodes before) target \<noteq> None then Inl (TargetPresent target)
      else if tNodes after \<noteq> tNodes baseline
      then Inl (NodesNotRestored (sortedNodeIDs (tNodes after)) (sortedNodeIDs (tNodes baseline)))
      else if tShardCount after \<noteq> tShardCount baseline \<or> tShardMap after \<noteq> tShardMap baseline then Inl MapNotRestored
      else case validateExactHRW after of
          Inl e \<Rightarrow> Inl e
        | Inr _ \<Rightarrow>
            (case for_u32E (rejoin_step before after target) 0 (tShardCount before) \<lparr>moved = 0, stable = 0\<rparr> of
               Inl e \<Rightarrow> Inl e
             | Inr stats \<Rightarrow> if moved stats = 0 then Inl (NothingMoved target) else Inr stats))"

definition sameTopology :: "Topology \<Rightarrow> Topology \<Rightarrow> bool" where
  "sameTopology a b \<longleftrightarrow> tShardCount a = tShardCount b \<and> tNodes a = tNodes b \<and> tShardMap a = tShardMap b"

subsection \<open>Replicas\<close>

definition chaos_splitCommaList :: "string \<Rightarrow> string list" where
  "chaos_splitCommaList txt =
     fold (\<lambda>raw out. let v = TrimSpace raw in if v = [] \<or> v \<in> set out then out else out @ [v]) (split_on CHR '','' txt) []"

text \<open>One replica's answer; the snapshot is missing when it could not be read.\<close>

record replicaObservation =
  roAddress :: string
  roSnapshot :: "Topology option"

datatype leader_reason =
    SeesNoLeader string u64
  | SaysOther string string u64 string u64
  | NobodyAnswered
  | NobodyNamesLeader

record leaderConsensus =
  lcLeader :: string
  lcTerm :: u64
  lcReachable :: nat
  lcAgreed :: bool
  lcReason :: "leader_reason option"
  lcSweeps :: nat

definition leader_step :: "replicaObservation \<Rightarrow> leaderConsensus \<Rightarrow> leaderConsensus" where
  "leader_step ob r =
     (case roSnapshot ob of
        None \<Rightarrow> r
      | Some snap \<Rightarrow>
          (let r = r\<lparr>lcReachable := lcReachable r + 1\<rparr>
           in if tRaftLeaderID snap = [] then
                r\<lparr>lcAgreed := False, lcReason := Some (SeesNoLeader (roAddress ob) (tRaftTerm snap))\<rparr>
              else if lcLeader r = [] then r\<lparr>lcLeader := tRaftLeaderID snap, lcTerm := tRaftTerm snap\<rparr>
              else if tRaftLeaderID snap \<noteq> lcLeader r \<or> tRaftTerm snap \<noteq> lcTerm r then
                r\<lparr>lcAgreed := False,
                  lcReason := Some (SaysOther (roAddress ob) (tRaftLeaderID snap) (tRaftTerm snap) (lcLeader r) (lcTerm r))\<rparr>
              else r))"

definition summarizeLeader :: "replicaObservation list \<Rightarrow> leaderConsensus" where
  "summarizeLeader obs =
     (let r = fold leader_step obs \<lparr>lcLeader = [], lcTerm = 0, lcReachable = 0, lcAgreed = True, lcReason = None, lcSweeps = 0\<rparr>
      in if lcReachable r = 0 then r\<lparr>lcAgreed := False, lcReason := Some NobodyAnswered\<rparr>
         else if lcLeader r = [] \<and> lcReason r = None then r\<lparr>lcAgreed := False, lcReason := Some NobodyNamesLeader\<rparr>
         else r)"

definition hexEncode :: "bytes \<Rightarrow> string" where
  "hexEncode bs = concat (map (\<lambda>b. [hex_char (byte b div 16), hex_char (byte b mod 16)]) bs)"

definition truncate_text :: "string \<Rightarrow> string" where
  "truncate_text txt = (if length txt \<le> 16 then txt else take 16 txt)"

datatype coherence_error =
    LeftUnassigned string u32 u64
  | AssignedDead string u32 string
  | SplitBrain string string u64 string string
  | RejoinUnreachable string
  | NoReplicaAnswered
  | NotConverged string u64 string string u64 string

definition check_live_owner :: "string \<Rightarrow> Topology \<Rightarrow> u32 \<Rightarrow> unit \<Rightarrow> coherence_error + unit" where
  "check_live_owner address snap shard u =
     (case fmlookup (tShardMap snap) shard of
        None \<Rightarrow> Inl (LeftUnassigned address shard (tGeneration snap))
      | Some owner \<Rightarrow>
          if owner = [] then Inl (LeftUnassigned address shard (tGeneration snap))
          else if fmlookup (tNodes snap) owner = None then Inl (AssignedDead address shard owner)
          else Inr u)"

definition coherence_step ::
    "replicaObservation \<Rightarrow> (u64, string \<times> string) fmap \<Rightarrow> coherence_error + (u64, string \<times> string) fmap" where
  "coherence_step ob byGeneration =
     (case roSnapshot ob of
        None \<Rightarrow> Inr byGeneration
      | Some snap \<Rightarrow>
          (case (if fmlen (tNodes snap) > 0 then for_u32E (check_live_owner (roAddress ob) snap) 0 (tShardCount snap) () else Inr ()) of
             Inl e \<Rightarrow> Inl e
           | Inr _ \<Rightarrow>
               (let fingerprint = hexEncode (tFingerprint snap)
                in case fmlookup byGeneration (tGeneration snap) of
                     None \<Rightarrow> Inr (fmupd (tGeneration snap) (roAddress ob, fingerprint) byGeneration)
                   | Some (address, previous) \<Rightarrow>
                       if previous \<noteq> fingerprint
                       then Inl (SplitBrain address (roAddress ob) (tGeneration snap) (truncate_text previous) (truncate_text fingerprint))
                       else Inr byGeneration)))"

definition checkReplicaCoherence :: "replicaObservation list \<Rightarrow> coherence_error option" where
  "checkReplicaCoherence obs = (case foldE coherence_step obs fmempty of Inl e \<Rightarrow> Some e | Inr _ \<Rightarrow> None)"

text \<open>The state every replica converged on: generation, fingerprint text and number of nodes.\<close>

definition assertGroupConvergedOnOneState :: "replicaObservation list \<Rightarrow> coherence_error + u64 \<times> string \<times> nat" where
  "assertGroupConvergedOnOneState obs =
     (case foldE (\<lambda>ob reachable. case roSnapshot ob of
             None \<Rightarrow> Inl (RejoinUnreachable (roAddress ob)) | Some snap \<Rightarrow> Inr (reachable @ [(roAddress ob, snap)])) obs [] of
        Inl e \<Rightarrow> Inl e
      | Inr [] \<Rightarrow> Inl NoReplicaAnswered
      | Inr ((address, base) # others) \<Rightarrow>
          (let baseFingerprint = hexEncode (tFingerprint base)
           in case foldE (\<lambda>(a, snap) u.
                  if tGeneration snap \<noteq> tGeneration base \<or> hexEncode (tFingerprint snap) \<noteq> baseFingerprint
                  then Inl (NotConverged address (tGeneration base) (truncate_text baseFingerprint) a (tGeneration snap)
                         (truncate_text (hexEncode (tFingerprint snap))))
                  else Inr u) others () of
                Inl e \<Rightarrow> Inl e
              | Inr _ \<Rightarrow> Inr (tGeneration base, baseFingerprint, fmlen (tNodes base))))"

end
