(* ===== verification/Go_Poll.thy ===== *)
theory Go_Poll
  imports Main
begin

text \<open>
  \<^verbatim>\<open>for { ... }\<close> loops that poll until something returns: \<open>step k s\<close> is the body in round \<open>k\<close> from the loop's
  variables \<open>s\<close>, giving the returned value (\<open>Inl\<close>) or the variables for the next round (\<open>Inr\<close>).  A loop that never
  returns is \<open>None\<close>.  The laws say when a loop returns and what its result comes from, so that
  the loops of the commands need no induction of their own.
\<close>

partial_function (option) poll :: "(nat \<Rightarrow> 's \<Rightarrow> 'r + 's) \<Rightarrow> nat \<Rightarrow> 's \<Rightarrow> 'r option" where
  "poll step k s = (case step k s of Inl r \<Rightarrow> Some r | Inr s' \<Rightarrow> poll step (Suc k) s')"

lemma poll_done: "step k s = Inl r \<Longrightarrow> poll step k s = Some r"
  by (subst poll.simps) simp

lemma poll_again: "step k s = Inr s' \<Longrightarrow> poll step k s = poll step (Suc k) s'"
  by (subst poll.simps) simp

text \<open>A loop returns if in some later round its body returns whatever the variables are.\<close>

lemma poll_returns:
  assumes "k \<le> n" and "\<And>s. \<exists>r. step n s = Inl r"
  shows "\<exists>r. poll step k s = Some r"
  using assms(1)
proof (induction "n - k" arbitrary: k s)
  case 0
  then show ?case
    using assms(2) [of s] by (auto intro: poll_done)
next
  case (Suc d)
  show ?case
  proof (cases "step k s")
    case (Inl r)
    then show ?thesis
      by (auto intro: poll_done)
  next
    case (Inr s')
    then show ?thesis
      using Suc by (simp add: poll_again)
  qed
qed

text \<open>A result was returned by the body in some round, from variables every earlier round keeps an invariant of.\<close>

lemma poll_result:
  fixes step :: "nat \<Rightarrow> 'a \<Rightarrow> 'b + 'a"
  assumes "poll step k s = Some r" and "P s"
    and "\<And>n s s'. k \<le> n \<Longrightarrow> P s \<Longrightarrow> step n s = Inr s' \<Longrightarrow> P s'"
  shows "\<exists>n s'. k \<le> n \<and> P s' \<and> step n s' = Inl r"
proof -
  define Q where "Q = (\<lambda>step (k :: nat) s (r :: 'b). \<forall>m. m \<le> k \<longrightarrow> P s \<longrightarrow>
      (\<forall>n s s'. m \<le> n \<longrightarrow> P s \<longrightarrow> step n s = Inr s' \<longrightarrow> P s') \<longrightarrow> (\<exists>n s'. m \<le> n \<and> P s' \<and> step n s' = Inl r))"
  have "Q step k s r"
    using assms(1)
  proof (rule poll.raw_induct [where P = Q, rotated], goal_cases)
    case (1 f step k s r)
    show ?case
    proof (cases "step k s")
      case (Inl x)
      then have "step k s = Inl r"
        using 1(2) by simp
      then show ?thesis
        unfolding Q_def by (intro allI impI exI [of _ k] exI [of _ s]) simp
    next
      case (Inr s')
      then have IH: "Q step (Suc k) s' r"
        using 1 by simp
      show ?thesis
        unfolding Q_def
      proof (intro allI impI)
        fix m
        assume m: "m \<le> k" "P s" "\<forall>n s s'. m \<le> n \<longrightarrow> P s \<longrightarrow> step n s = Inr s' \<longrightarrow> P s'"
        then have "P s'"
          using Inr by blast
        then show "\<exists>n s'. m \<le> n \<and> P s' \<and> step n s' = Inl r"
          using IH [unfolded Q_def, THEN spec, of m] m(1,3) by (meson le_SucI)
      qed
    qed
  qed
  then show ?thesis
    using assms(2,3) unfolding Q_def by blast
qed

text \<open>The first round that returns decides, when no earlier one does.\<close>

lemma poll_first:
  assumes "k \<le> n" and "\<And>i s. k \<le> i \<Longrightarrow> i < n \<Longrightarrow> P s \<Longrightarrow> \<exists>s'. step i s = Inr s' \<and> P s'" and "P s"
  shows "\<exists>s'. P s' \<and> poll step k s = poll step n s'"
  using assms
proof (induction "n - k" arbitrary: k s)
  case (Suc d)
  have "k < n"
    using Suc.hyps(2) by simp
  then obtain s' where s': "step k s = Inr s'" "P s'"
    using Suc.prems(2) [of k s] Suc.prems(3) by auto
  have "\<exists>t. P t \<and> poll step (Suc k) s' = poll step n t"
    using Suc.hyps(2) Suc.prems(2) s'(2) by (intro Suc.hyps(1)) auto
  then show ?case
    using poll_again [of step k s, OF s'(1)] by simp
qed auto

end
