(* ===== verification/Chaos_Run.thy ===== *)
theory Chaos_Run
  imports Chaos_Checks Go_Poll
begin

text \<open>
  \<^verbatim>\<open>cmd/pulsekv-chaos/main.go\<close>, the run: reading topologies through the replicas, seeding and reading keys,
  waiting for transitions and elections, and the verdict.

  What a round of a loop observes from outside is a record, and a loop that polls until a deadline is a function
  of the sequence of its rounds; not returning is \<open>None\<close>.  A round says whether the deadline has
  passed when the loop looks at the clock.  Data nodes are read through \<open>dataPlane\<close>.  Elapsed times in
  reports, the printed lines and the context a caller adds to the text of an error are left out.
\<close>

subsection \<open>Reading topologies\<close>

datatype 'f reader_error = ReplicaFailed nat 'f | NoControlPlaneReplicas

text \<open>The loop of \<^verbatim>\<open>fetch\<close>: the attempts still to make, and the first error.\<close>

fun reader_scan ::
    "(nat \<Rightarrow> 'f + Topology) \<Rightarrow> nat \<Rightarrow> nat \<Rightarrow> nat list \<Rightarrow> 'f reader_error option \<Rightarrow> ('f reader_error + Topology) \<times> nat" where
  "reader_scan replies n preferred [] firstErr =
     (Inl (case firstErr of None \<Rightarrow> NoControlPlaneReplicas | Some e \<Rightarrow> e), preferred)"
| "reader_scan replies n preferred (attempt # rest) firstErr =
     (let index = (preferred + attempt) mod n
      in case replies index of
           Inr snap \<Rightarrow> (Inr snap, index)
         | Inl e \<Rightarrow> reader_scan replies n preferred rest (case firstErr of None \<Rightarrow> Some (ReplicaFailed index e) | Some f \<Rightarrow> Some f))"

definition reader_fetch :: "(nat \<Rightarrow> 'f + Topology) \<Rightarrow> nat \<Rightarrow> nat \<Rightarrow> ('f reader_error + Topology) \<times> nat" where
  "reader_fetch replies n preferred = reader_scan replies n preferred [0..<n] None"

text \<open>\<open>dialReplicas\<close>: the addresses connected to and, on a failure, the connections closed again.\<close>

fun dialReplicas :: "(string \<Rightarrow> 'e option) \<Rightarrow> string list \<Rightarrow> string list \<Rightarrow> string list \<times> ('e + string list)" where
  "dialReplicas dial [] opened = ([], Inr opened)"
| "dialReplicas dial (address # rest) opened =
     (case dial address of Some e \<Rightarrow> (opened, Inl e) | None \<Rightarrow> dialReplicas dial rest (opened @ [address]))"

definition observeReplicas :: "string list \<Rightarrow> (nat \<Rightarrow> 'f + Topology) \<Rightarrow> replicaObservation list" where
  "observeReplicas addresses replies =
     map (\<lambda>(i, address). \<lparr>roAddress = address, roSnapshot = (case replies i of Inl _ \<Rightarrow> None | Inr snap \<Rightarrow> Some snap)\<rparr>)
       (enumerate 0 addresses)"

subsection \<open>Reading data nodes\<close>

record 'e dataPlane =
  dpDial :: "string \<Rightarrow> 'e option"
  dpGet :: "string \<Rightarrow> bytes \<Rightarrow> 'e + bool \<times> bytes"

text \<open>The value, if the node holds the key.\<close>

definition directGet :: "'e dataPlane \<Rightarrow> string \<Rightarrow> bytes \<Rightarrow> 'e + bytes option" where
  "directGet dp address key =
     (case dpDial dp address of
        Some e \<Rightarrow> Inl e
      | None \<Rightarrow>
          (case dpGet dp address key of
             Inl e \<Rightarrow> Inl e
           | Inr (found, v) \<Rightarrow> Inr (if \<not> found then None else Some v)))"

datatype 'e seed_error =
    SeedPut u32 string 'e
  | SeedGet u32 string 'e
  | SeedMismatch u32 string bool
  | NoReplicaToAck u32
  | AckNotConverged nat 'e
  | TooFewAcks u32 u32 nat
  | ReplicaNoAddress string u32
  | ReplicaRead u32 string 'e
  | ReplicaLacks string u32 bool

datatype 'e proof_error =
    SdkNotConverged string 'e
  | OwnerWrongValue string
  | NoOwnerAfter u32
  | OwnerNoAddress string u32
  | NoReplicaBefore u32
  | PromotedElsewhere u32 string string
  | WrongBytes u32 string nat
  | PromotionTimeout u32 string

datatype leader_error =
    NoAgreement nat nat "leader_reason option" bool
  | TermStuck string u64 u64
  | DisagreeAfterRejoin "leader_reason option"
  | LeaderTookBack string string
  | TermBackwards u64 u64
  | ReplicasMissing "string list"

datatype 'e start_error =
    NoUsableAddress
  | LeaderNeedsThree nat
  | ProgressFile 'e
  | DialFailed 'e
  | BaselineFetch 'e
  | SdkFailed 'e

datatype verdict_error =
    ReplicasDisagreed u64
  | NoSweep
  | BadLoad u64 u64 u64
  | NothingVerified

datatype 'e run_error =
    StartFailed "'e start_error"
  | CheckFailed check_error
  | SeedingFailed "'e seed_error"
  | LoadFailure 'e
  | TransitionTimeout 'e
  | GenerationOnly u64 u64
  | UnknownKind string
  | ProofFailed "'e proof_error"
  | Stopped 'e
  | BudgetExhausted int
  | PublishFailed 'e
  | Incoherent coherence_error
  | LeaderFailed leader_error
  | VerdictFailed verdict_error
  | CloseFailed 'e

subsection \<open>Seeding\<close>

definition seed_stable :: "(bytes \<Rightarrow> bytes \<Rightarrow> 'e option) \<Rightarrow> (bytes \<Rightarrow> 'e + bytes option) \<Rightarrow> stableEntry \<Rightarrow> unit \<Rightarrow> 'e run_error + unit" where
  "seed_stable put get entry u =
     (case put (seKey entry) (seValue entry) of
        Some e \<Rightarrow> Inl (SeedingFailed (SeedPut (seShard entry) (seOwner entry) e))
      | None \<Rightarrow>
          (case get (seKey entry) of
             Inl e \<Rightarrow> Inl (SeedingFailed (SeedGet (seShard entry) (seOwner entry) e))
           | Inr None \<Rightarrow> Inl (SeedingFailed (SeedMismatch (seShard entry) (seOwner entry) False))
           | Inr (Some v) \<Rightarrow> if v \<noteq> seValue entry then Inl (SeedingFailed (SeedMismatch (seShard entry) (seOwner entry) True)) else Inr u))"

definition seedStableKeys :: "(bytes \<Rightarrow> bytes \<Rightarrow> 'e option) \<Rightarrow> (bytes \<Rightarrow> 'e + bytes option) \<Rightarrow> stableEntry list \<Rightarrow> 'e run_error + unit" where
  "seedStableKeys put get entries = foldE (seed_stable put get) entries ()"

record 'e ackRound =
  akPut :: "bytes \<Rightarrow> bytes \<Rightarrow> u32 \<Rightarrow> 'e + u32"
  akLate :: bool
  akWait :: "'e option"

text \<open>One attempt: the result, or another attempt.\<close>

definition ack_attempt ::
    "('e \<Rightarrow> bool) \<Rightarrow> 'e ackRound \<Rightarrow> bytes \<Rightarrow> bytes \<Rightarrow> u32 \<Rightarrow> nat \<Rightarrow> ('e run_error + u32) + unit" where
  "ack_attempt invalidArgument r key val acks attempt =
     (case akPut r key val acks of
        Inr acked \<Rightarrow> Inl (Inr acked)
      | Inl e \<Rightarrow>
          if \<not> invalidArgument e then Inl (Inl (Stopped e))
          else if akLate r then Inl (Inl (SeedingFailed (AckNotConverged attempt e)))
          else case akWait r of Some e \<Rightarrow> Inl (Inl (Stopped e)) | None \<Rightarrow> Inr ())"

definition putWithAckConverging ::
    "('e \<Rightarrow> bool) \<Rightarrow> (nat \<Rightarrow> 'e ackRound) \<Rightarrow> bytes \<Rightarrow> bytes \<Rightarrow> u32 \<Rightarrow> ('e run_error + u32) option" where
  "putWithAckConverging invalidArgument rounds key val acks =
     poll (\<lambda>k _. ack_attempt invalidArgument (rounds k) key val acks (Suc k)) 0 ()"

definition check_replica_holds :: "'e dataPlane \<Rightarrow> Topology \<Rightarrow> promotionEntry \<Rightarrow> string \<Rightarrow> unit \<Rightarrow> 'e run_error + unit" where
  "check_replica_holds dp s entry replica u =
     (let address = fmget (tNodes s) replica
      in if address = [] then Inl (SeedingFailed (ReplicaNoAddress replica (peShard entry)))
         else case directGet dp address (peKey entry) of
             Inl e \<Rightarrow> Inl (SeedingFailed (ReplicaRead (peShard entry) replica e))
           | Inr None \<Rightarrow> Inl (SeedingFailed (ReplicaLacks replica (peShard entry) False))
           | Inr (Some v) \<Rightarrow> if v \<noteq> peValue entry then Inl (SeedingFailed (ReplicaLacks replica (peShard entry) True)) else Inr u)"

text \<open>One key: refresh its replicas, write it with a strong acknowledgement, and read it on every replica.\<close>

definition seed_promotion ::
    "('e \<Rightarrow> bool) \<Rightarrow> (nat \<Rightarrow> 'e ackRound) \<Rightarrow> 'e dataPlane \<Rightarrow> Topology \<Rightarrow> promotionEntry \<Rightarrow> ('e run_error + promotionEntry) option" where
  "seed_promotion invalidArgument rounds dp s entry =
     (let replicas = topology_Replicas s (peShard entry);
          entry = entry\<lparr>peReplicas := replicas\<rparr>
      in if length replicas = 0 then Some (Inl (SeedingFailed (NoReplicaToAck (peShard entry))))
         else case putWithAckConverging invalidArgument rounds (peKey entry) (peValue entry) (word_of_nat (length replicas)) of
             None \<Rightarrow> None
           | Some (Inl e) \<Rightarrow> Some (Inl e)
           | Some (Inr acked) \<Rightarrow>
               if unat acked < length replicas then Some (Inl (SeedingFailed (TooFewAcks (peShard entry) acked (length replicas))))
               else (case foldE (check_replica_holds dp s entry) replicas () of
                       Inl e \<Rightarrow> Some (Inl e) | Inr _ \<Rightarrow> Some (Inr entry)))"

fun seedPromotionKeys ::
    "('e \<Rightarrow> bool) \<Rightarrow> (u32 \<Rightarrow> nat \<Rightarrow> 'e ackRound) \<Rightarrow> (u32 \<Rightarrow> 'e dataPlane) \<Rightarrow> Topology \<Rightarrow> promotionEntry list
       \<Rightarrow> ('e run_error + promotionEntry list) option" where
  "seedPromotionKeys invalidArgument rounds dp s [] = Some (Inr [])"
| "seedPromotionKeys invalidArgument rounds dp s (entry # entries) =
     (case seed_promotion invalidArgument (rounds (peShard entry)) (dp (peShard entry)) s entry of
        None \<Rightarrow> None
      | Some (Inl e) \<Rightarrow> Some (Inl e)
      | Some (Inr entry') \<Rightarrow>
          (case seedPromotionKeys invalidArgument rounds dp s entries of
             None \<Rightarrow> None
           | Some (Inl e) \<Rightarrow> Some (Inl e)
           | Some (Inr entries') \<Rightarrow> Some (Inr (entry' # entries'))))"

subsection \<open>Promotion\<close>

record promotionReport =
  rpKind :: string
  rpShards :: nat
  rpKeysVerified :: nat
  rpExampleShard :: u32
  rpExamplePrevious :: string
  rpExampleNow :: string

record 'e promoRound =
  prWorld :: "'e dataPlane"
  prLate :: bool
  prWait :: "'e option"

definition promotion_attempt ::
    "'e promoRound \<Rightarrow> string \<Rightarrow> string \<Rightarrow> string \<Rightarrow> promotionEntry \<Rightarrow> ('e run_error + unit) + unit" where
  "promotion_attempt r kind owner address entry =
     (let again = (if prLate r then Inl (Inl (ProofFailed (PromotionTimeout (peShard entry) kind)))
                   else case prWait r of Some e \<Rightarrow> Inl (Inl (Stopped e)) | None \<Rightarrow> Inr ())
      in case directGet (prWorld r) address (peKey entry) of
           Inl e \<Rightarrow> again
         | Inr None \<Rightarrow> again
         | Inr (Some v) \<Rightarrow>
             if v \<noteq> peValue entry then Inl (Inl (ProofFailed (WrongBytes (peShard entry) owner (length v)))) else Inl (Inr ()))"

definition promotion_poll ::
    "(nat \<Rightarrow> 'e promoRound) \<Rightarrow> string \<Rightarrow> string \<Rightarrow> string \<Rightarrow> promotionEntry \<Rightarrow> ('e run_error + unit) option" where
  "promotion_poll rounds kind owner address entry =
     poll (\<lambda>k _. promotion_attempt (rounds k) kind owner address entry) 0 ()"

text \<open>The node that must answer for an entry, with the rule that a promotion goes to the first replica.\<close>

definition promotion_target :: "Topology \<Rightarrow> Topology \<Rightarrow> string \<Rightarrow> promotionEntry \<Rightarrow> 'e run_error + string \<times> string" where
  "promotion_target before after kind entry =
     (let owner = fmget (tShardMap after) (peShard entry); address = fmget (tNodes after) owner
      in if owner = [] then Inl (ProofFailed (NoOwnerAfter (peShard entry)))
         else if address = [] then Inl (ProofFailed (OwnerNoAddress owner (peShard entry)))
         else if kind = ''replica-promotion'' then
           (case topology_Replicas before (peShard entry) of
              [] \<Rightarrow> Inl (ProofFailed (NoReplicaBefore (peShard entry)))
            | r # _ \<Rightarrow> if owner \<noteq> r then Inl (ProofFailed (PromotedElsewhere (peShard entry) owner r)) else Inr (owner, address))
         else Inr (owner, address))"

fun verify_entries ::
    "(u32 \<Rightarrow> nat \<Rightarrow> 'e promoRound) \<Rightarrow> Topology \<Rightarrow> Topology \<Rightarrow> string \<Rightarrow> promotionEntry list \<Rightarrow> promotionReport
       \<Rightarrow> ('e run_error + promotionReport) option" where
  "verify_entries rounds before after kind [] report = Some (Inr report)"
| "verify_entries rounds before after kind (entry # entries) report =
     (case promotion_target before after kind entry of
        Inl e \<Rightarrow> Some (Inl e)
      | Inr (owner, address) \<Rightarrow>
          (case promotion_poll (rounds (peShard entry)) kind owner address entry of
             None \<Rightarrow> None
           | Some (Inl e) \<Rightarrow> Some (Inl e)
           | Some (Inr _) \<Rightarrow>
               (let report = report\<lparr>rpKeysVerified := rpKeysVerified report + 1\<rparr>;
                    report = (if rpExamplePrevious report = [] then
                      report\<lparr>rpExampleShard := peShard entry, rpExamplePrevious := fmget (tShardMap before) (peShard entry),
                        rpExampleNow := owner\<rparr> else report)
                in verify_entries rounds before after kind entries report)))"

definition verifyPromotion ::
    "(u32 \<Rightarrow> nat \<Rightarrow> 'e promoRound) \<Rightarrow> Topology \<Rightarrow> Topology \<Rightarrow> promotionEntry list \<Rightarrow> string
       \<Rightarrow> ('e run_error + promotionReport option) option" where
  "verifyPromotion rounds before after entries kind =
     (if length entries = 0 then Some (Inr None)
      else case verify_entries rounds before after kind entries
             \<lparr>rpKind = kind, rpShards = length entries, rpKeysVerified = 0, rpExampleShard = 0, rpExamplePrevious = [], rpExampleNow = []\<rparr> of
          None \<Rightarrow> None
        | Some (Inl e) \<Rightarrow> Some (Inl e)
        | Some (Inr report) \<Rightarrow> Some (Inr (Some report)))"

subsection \<open>Sustained load\<close>

record loadCounters =
  ldOperations :: u64
  ldVerified :: u64
  ldMisses :: u64
  ldMismatches :: u64
  ldRPCErrors :: u64

datatype 'e load_error = LoadRPC nat u32 'e | LoadMissed nat u32 | LoadMismatch nat u32

text \<open>\<open>reportFirst\<close> on a channel that holds one error.\<close>

definition reportFirst :: "'x \<Rightarrow> 'x option \<Rightarrow> 'x option" where
  "reportFirst e ch = (case ch of None \<Rightarrow> Some e | Some f \<Rightarrow> Some f)"

text \<open>One read of a worker: the counters and the error channel after it.\<close>

definition load_step ::
    "nat \<Rightarrow> stableEntry \<Rightarrow> 'e + bytes option \<Rightarrow> loadCounters \<times> 'e load_error option \<Rightarrow> loadCounters \<times> 'e load_error option" where
  "load_step worker entry result = (\<lambda>(c, ch).
     (let c = c\<lparr>ldOperations := ldOperations c + 1\<rparr>
      in case result of
           Inl e \<Rightarrow> (c\<lparr>ldRPCErrors := ldRPCErrors c + 1\<rparr>, reportFirst (LoadRPC worker (seShard entry) e) ch)
         | Inr None \<Rightarrow> (c\<lparr>ldMisses := ldMisses c + 1\<rparr>, reportFirst (LoadMissed worker (seShard entry)) ch)
         | Inr (Some v) \<Rightarrow>
             if v \<noteq> seValue entry
             then (c\<lparr>ldMismatches := ldMismatches c + 1\<rparr>, reportFirst (LoadMismatch worker (seShard entry)) ch)
             else (c\<lparr>ldVerified := ldVerified c + 1\<rparr>, ch)))"

text \<open>The reads of all workers, in the order in which they are counted.\<close>

definition startStableLoad :: "(nat \<times> stableEntry \<times> ('e + bytes option)) list \<Rightarrow> loadCounters \<times> 'e load_error option" where
  "startStableLoad reads =
     fold (\<lambda>(worker, entry, result). load_step worker entry result) reads
       (\<lparr>ldOperations = 0, ldVerified = 0, ldMisses = 0, ldMismatches = 0, ldRPCErrors = 0\<rparr>, None)"

subsection \<open>Transitions\<close>

datatype 'e wait_event = LoadErr 'e | WaitDone 'e | Proceed

record ('e, 'f) transRound =
  trTop :: "'e wait_event"
  trReplies :: "nat \<Rightarrow> 'f + Topology"
  trPause :: "'e wait_event"

definition judge_transition :: "string \<Rightarrow> Topology \<Rightarrow> Topology \<Rightarrow> Topology \<Rightarrow> string \<Rightarrow> 'e run_error + movementStats" where
  "judge_transition kind previous baseline cur target =
     (if kind = ''removal'' then (case validateRemoval previous cur target of Inl e \<Rightarrow> Inl (CheckFailed e) | Inr m \<Rightarrow> Inr m)
      else if kind = ''rejoin'' then
        (case validateRejoin baseline previous cur target of Inl e \<Rightarrow> Inl (CheckFailed e) | Inr m \<Rightarrow> Inr m)
      else Inl (UnknownKind kind))"

text \<open>One round, with the reader's preferred replica and the last fetch error as the loop's variables.\<close>

definition transition_round ::
    "('f reader_error \<Rightarrow> 'e) \<Rightarrow> ('e, 'f) transRound \<Rightarrow> nat \<Rightarrow> Topology \<Rightarrow> Topology \<Rightarrow> string \<Rightarrow> string \<Rightarrow> nat \<times> 'e option
       \<Rightarrow> ('e run_error + Topology \<times> movementStats \<times> nat) + nat \<times> 'e option" where
  "transition_round wrap r n previous baseline target kind = (\<lambda>(preferred, lastErr).
     case trTop r of
        LoadErr e \<Rightarrow> Inl (Inl (LoadFailure e))
      | WaitDone e \<Rightarrow> Inl (Inl (TransitionTimeout (case lastErr of None \<Rightarrow> e | Some f \<Rightarrow> f)))
      | Proceed \<Rightarrow>
          (case reader_fetch (trReplies r) n preferred of
             (result, preferred') \<Rightarrow>
               (let again = (\<lambda>err. case trPause r of LoadErr e \<Rightarrow> Inl (Inl (LoadFailure e)) | _ \<Rightarrow> Inr (preferred', err))
                in case result of
                     Inl e \<Rightarrow> again (Some (wrap e))
                   | Inr cur \<Rightarrow>
                       if sameTopology previous cur then
                         (if tGeneration cur \<noteq> tGeneration previous
                          then Inl (Inl (GenerationOnly (tGeneration previous) (tGeneration cur)))
                          else again lastErr)
                       else (case judge_transition kind previous baseline cur target of
                               Inl e \<Rightarrow> Inl (Inl e) | Inr m \<Rightarrow> Inl (Inr (cur, m, preferred'))))))"

definition waitForTransition ::
    "('f reader_error \<Rightarrow> 'e) \<Rightarrow> (nat \<Rightarrow> ('e, 'f) transRound) \<Rightarrow> nat \<Rightarrow> nat \<Rightarrow> Topology \<Rightarrow> Topology \<Rightarrow> string \<Rightarrow> string
       \<Rightarrow> ('e run_error + Topology \<times> movementStats \<times> nat) option" where
  "waitForTransition wrap rounds n preferred previous baseline target kind =
     poll (\<lambda>k. transition_round wrap (rounds k) n previous baseline target kind) 0 (preferred, None)"

end
