(* ===== verification/Chaos_Scenario.thy ===== *)
theory Chaos_Scenario
  imports Chaos_Run
begin

text \<open>
  \<^verbatim>\<open>cmd/pulsekv-chaos/main.go\<close>, continued: the routing proof of an epoch, the files the verifier
  publishes its progress through, the leader scenario, and the whole run.
\<close>

subsection \<open>Routing proofs\<close>

datatype 'e exclusion_error = NonOwnerRead string 'e | NonOwnerHolds string | NoNonHolder | RemovedHolds string

definition verifyNonOwner ::
    "'e dataPlane \<Rightarrow> Topology \<Rightarrow> Topology \<Rightarrow> string \<Rightarrow> string \<Rightarrow> bytes \<Rightarrow> u32 \<Rightarrow> 'e exclusion_error + string \<times> string" where
  "verifyNonOwner dp s baseline target owner key shard =
     (let holders = owner # topology_Replicas s shard
      in case filter (\<lambda>nid. nid \<notin> set holders) (sortedNodeIDs (tNodes s)) of
           nid # _ \<Rightarrow>
             (case directGet dp (fmget (tNodes s) nid) key of
                Inl e \<Rightarrow> Inl (NonOwnerRead nid e)
              | Inr (Some _) \<Rightarrow> Inl (NonOwnerHolds nid)
              | Inr None \<Rightarrow> Inr (nid, ''miss''))
         | [] \<Rightarrow>
             (let address = fmget (tNodes baseline) target
              in if address = [] \<or> target \<in> set holders then Inl NoNonHolder
                 else case directGet dp address key of
                     Inl e \<Rightarrow> Inr (target, ''removed-node-unreachable'')
                   | Inr (Some _) \<Rightarrow> Inl (RemovedHolds target)
                   | Inr None \<Rightarrow> Inr (target, ''miss'')))"

record epochProofReport =
  epEpoch :: string
  epGeneration :: u64
  epKey :: bytes
  epShard :: u32
  epOwner :: string
  epNonOwner :: string
  epOutcome :: string
  epAttempts :: nat

text \<open>What one attempt observes; \<open>erLoad\<close> is \<open>None\<close> when the channel is empty or there is none.\<close>

record 'e epochRound =
  erLoad :: "'e option"
  erDeadline :: "'e option"
  erPut :: "bytes \<Rightarrow> bytes \<Rightarrow> 'e option"
  erWorld :: "'e dataPlane"

definition epoch_value :: "string \<Rightarrow> u64 \<Rightarrow> nat \<Rightarrow> bytes" where
  "epoch_value epoch generation attempt =
     ''epoch-value:'' @ epoch @ '':g'' @ Itoa (uint generation) @ '':attempt'' @ Itoa (int attempt)"

text \<open>One attempt: the result, or another attempt.\<close>

definition epoch_attempt ::
    "'e epochRound \<Rightarrow> Topology \<Rightarrow> Topology \<Rightarrow> string \<Rightarrow> u32 \<Rightarrow> string \<Rightarrow> string \<Rightarrow> nat \<Rightarrow> ('e run_error + epochProofReport) + unit" where
  "epoch_attempt r s baseline target shard keyPrefix epoch attempt =
     (case erLoad r of Some e \<Rightarrow> Inl (Inl (LoadFailure e)) | None \<Rightarrow>
     (case erDeadline r of Some e \<Rightarrow> Inl (Inl (ProofFailed (SdkNotConverged epoch e))) | None \<Rightarrow>
     (case keyForShard (keyPrefix @ '':attempt:'' @ Itoa (int attempt)) shard (tShardCount s) of
        Inl e \<Rightarrow> Inl (Inl (CheckFailed e))
      | Inr key \<Rightarrow>
          (let val = epoch_value epoch (tGeneration s) attempt; owner = fmget (tShardMap s) shard
           in case erPut r key val of
                Some _ \<Rightarrow> Inr ()
              | None \<Rightarrow>
                  (case directGet (erWorld r) (fmget (tNodes s) owner) key of
                     Inl _ \<Rightarrow> Inr ()
                   | Inr None \<Rightarrow> Inr ()
                   | Inr (Some got) \<Rightarrow>
                       if got \<noteq> val then Inl (Inl (ProofFailed (OwnerWrongValue owner)))
                       else (case verifyNonOwner (erWorld r) s baseline target owner key shard of
                               Inl _ \<Rightarrow> Inr ()
                             | Inr (nonOwner, outcome) \<Rightarrow>
                                 Inl (Inr \<lparr>epEpoch = epoch, epGeneration = tGeneration s, epKey = key, epShard = shard, epOwner = owner,
                                   epNonOwner = nonOwner, epOutcome = outcome, epAttempts = attempt\<rparr>)))))))"

definition verifyEpoch ::
    "(nat \<Rightarrow> 'e epochRound) \<Rightarrow> Topology \<Rightarrow> Topology \<Rightarrow> string \<Rightarrow> u32 \<Rightarrow> string \<Rightarrow> string \<Rightarrow> ('e run_error + epochProofReport) option" where
  "verifyEpoch rounds s baseline target shard keyPrefix epoch =
     poll (\<lambda>k _. epoch_attempt (rounds k) s baseline target shard keyPrefix epoch (Suc k)) 0 ()"

subsection \<open>Progress files\<close>

text \<open>What the file system answers to \<open>writeAtomic\<close>, and the name \<^verbatim>\<open>CreateTemp\<close> picks.\<close>

record 'e fileEnv =
  feMkdir :: "'e option"
  feCreate :: "'e + string"
  feChmod :: "'e option"
  feWrite :: "'e option"
  feSync :: "'e option"
  feClose :: "'e option"
  feRename :: "'e option"

type_synonym files = "(string, bytes) fmap"

text \<open>
  \<open>writeAtomic\<close>: the contents of the file system after every call that changes it, oldest first, and the error.
  The last state is the one after the deferred removal of the temporary file.  A failed write may have written
  any prefix, \<open>partial\<close>.
\<close>

definition writeAtomic :: "'e fileEnv \<Rightarrow> bytes \<Rightarrow> string \<Rightarrow> bytes \<Rightarrow> files \<Rightarrow> files list \<times> 'e option" where
  "writeAtomic env partial path data fs =
     (case feMkdir env of Some e \<Rightarrow> ([fs], Some e) | None \<Rightarrow>
     (case feCreate env of Inl e \<Rightarrow> ([fs], Some e) | Inr tmp \<Rightarrow>
       (let created = fmupd tmp [] fs; written = fmupd tmp data fs;
            published = fmupd path data (fmdrop tmp written)
        in case feChmod env of Some e \<Rightarrow> ([fs, created, fmdrop tmp created], Some e) | None \<Rightarrow>
          (case feWrite env of Some e \<Rightarrow> ([fs, created, fmupd tmp partial fs, fmdrop tmp created], Some e) | None \<Rightarrow>
          (case feSync env of Some e \<Rightarrow> ([fs, created, written, fmdrop tmp written], Some e) | None \<Rightarrow>
          (case feClose env of Some e \<Rightarrow> ([fs, created, written, fmdrop tmp written], Some e) | None \<Rightarrow>
          (case feRename env of Some e \<Rightarrow> ([fs, created, written, fmdrop tmp written], Some e) | None \<Rightarrow>
            ([fs, created, written, published, fmdrop tmp published], None))))))))"

definition writeProgress :: "'e fileEnv \<Rightarrow> bytes \<Rightarrow> string \<Rightarrow> int \<Rightarrow> files \<Rightarrow> files list \<times> 'e option" where
  "writeProgress env partial path verified fs = writeAtomic env partial path (Itoa verified @ [CHR 0x0A]) fs"

datatype 'e stat = StatDir | StatFile | StatMissing | StatError 'e

datatype 'e prepare_error = IsDirectory string | InspectFile 'e | RemoveFile 'e

definition prepareProgressFile :: "'e stat \<Rightarrow> ('e \<Rightarrow> bool) \<Rightarrow> 'e option \<Rightarrow> string \<Rightarrow> files \<Rightarrow> files \<times> 'e prepare_error option" where
  "prepareProgressFile st notExist removed path fs =
     (case st of
        StatDir \<Rightarrow> (fs, Some (IsDirectory path))
      | StatError e \<Rightarrow> (fs, Some (InspectFile e))
      | _ \<Rightarrow>
          (case removed of
             None \<Rightarrow> (fmdrop path fs, None)
           | Some e \<Rightarrow> if notExist e then (fs, None) else (fs, Some (RemoveFile e))))"

subsection \<open>Replica coherence\<close>

record coherenceCounters =
  chSweeps :: u64
  chReachableReads :: u64
  chViolations :: u64

text \<open>One sweep of the watcher: the replies, whether the context ended during it, and whether it ended in the pause after.\<close>

record 'f sweepObs =
  swReplies :: "nat \<Rightarrow> 'f + Topology"
  swEnded :: bool
  swPauseEnded :: bool

fun watchReplicaCoherence ::
    "string list \<Rightarrow> 'f sweepObs list \<Rightarrow> coherenceCounters \<times> coherence_error option \<Rightarrow> coherenceCounters \<times> coherence_error option" where
  "watchReplicaCoherence addresses [] s = s"
| "watchReplicaCoherence addresses (sw # rest) (c, ch) =
     (let obs = observeReplicas addresses (swReplies sw)
      in if swEnded sw then (c, ch)
         else
           (let c = c\<lparr>chSweeps := chSweeps c + 1,
                  chReachableReads := chReachableReads c + word_of_nat (length (filter (\<lambda>ob. roSnapshot ob \<noteq> None) obs))\<rparr>
            in case checkReplicaCoherence obs of
                 Some e \<Rightarrow> (c\<lparr>chViolations := chViolations c + 1\<rparr>, reportFirst e ch)
               | None \<Rightarrow> if swPauseEnded sw then (c, ch) else watchReplicaCoherence addresses rest (c, ch)))"

subsection \<open>Waiting for the replicas\<close>

record ('e, 'f) leaderRound =
  lrLoad :: "'e option"
  lrNow :: int
  lrReplies :: "nat \<Rightarrow> 'f + Topology"
  lrLate :: bool
  lrWait :: "'e option"

text \<open>What follows a sweep that did not succeed: the deadline, the pause, or the next round.\<close>

definition next_sweep :: "('e, 'f) leaderRound \<Rightarrow> 'e run_error \<Rightarrow> 's \<Rightarrow> ('e run_error + 'r) + 's" where
  "next_sweep r late s =
     (if lrLate r then Inl (Inl late) else case lrWait r of Some e \<Rightarrow> Inl (Inl (Stopped e)) | None \<Rightarrow> Inr s)"

definition consensus_round ::
    "string list \<Rightarrow> ('e, 'f) leaderRound \<Rightarrow> string \<Rightarrow> nat \<Rightarrow> ('e run_error + leaderConsensus) + unit" where
  "consensus_round addresses r changedFrom minReplicas =
     (case lrLoad r of Some e \<Rightarrow> Inl (Inl (LoadFailure e)) | None \<Rightarrow>
        (let obs = observeReplicas addresses (lrReplies r); lst = summarizeLeader obs
         in case checkReplicaCoherence obs of Some e \<Rightarrow> Inl (Inl (Incoherent e)) | None \<Rightarrow>
              if lcAgreed lst \<and> lcReachable lst \<ge> minReplicas \<and> lcLeader lst \<noteq> changedFrom then Inl (Inr lst)
              else next_sweep r
                (LeaderFailed (NoAgreement minReplicas (lcReachable lst) (lcReason lst) (lcReason lst = None \<and> lcLeader lst = changedFrom))) ()))"

definition awaitLeaderConsensus ::
    "string list \<Rightarrow> (nat \<Rightarrow> ('e, 'f) leaderRound) \<Rightarrow> string \<Rightarrow> nat \<Rightarrow> ('e run_error + leaderConsensus) option" where
  "awaitLeaderConsensus addresses rounds changedFrom minReplicas =
     poll (\<lambda>k _. consensus_round addresses (rounds k) changedFrom minReplicas) 0 ()"

definition unreachable_count :: "replicaObservation list \<Rightarrow> nat" where
  "unreachable_count obs = length (filter (\<lambda>ob. roSnapshot ob = None) obs)"

text \<open>The variables are when the disruption was noticed, if it was, and the number of sweeps since.\<close>

definition failover_round ::
    "string list \<Rightarrow> ('e, 'f) leaderRound \<Rightarrow> leaderConsensus \<Rightarrow> int option \<times> nat
       \<Rightarrow> ('e run_error + leaderConsensus \<times> int) + int option \<times> nat" where
  "failover_round addresses r baseline = (\<lambda>(disruptedAt, sweeps).
     case lrLoad r of Some e \<Rightarrow> Inl (Inl (LoadFailure e)) | None \<Rightarrow>
        (let obs = observeReplicas addresses (lrReplies r); lst = summarizeLeader obs;
             noticed = (disruptedAt = None \<and> (unreachable_count obs > 0 \<or> \<not> lcAgreed lst \<or> lcLeader lst \<noteq> lcLeader baseline));
             disruptedAt = (if noticed then Some (lrNow r) else disruptedAt);
             sweeps = (if noticed then 1 else sweeps + 1);
             survivors = length addresses - 1
         in case checkReplicaCoherence obs of Some e \<Rightarrow> Inl (Inl (Incoherent e)) | None \<Rightarrow>
              (case (if lcAgreed lst \<and> lcReachable lst \<ge> survivors \<and> lcLeader lst \<noteq> lcLeader baseline then disruptedAt else None) of
                 Some at \<Rightarrow> Inl (Inr (lst\<lparr>lcSweeps := sweeps\<rparr>, at))
               | None \<Rightarrow> next_sweep r
                   (LeaderFailed (NoAgreement survivors (lcReachable lst) (lcReason lst) (lcReason lst = None \<and> lcLeader lst = lcLeader baseline)))
                   (disruptedAt, sweeps))))"

definition awaitFailover ::
    "string list \<Rightarrow> (nat \<Rightarrow> ('e, 'f) leaderRound) \<Rightarrow> leaderConsensus \<Rightarrow> ('e run_error + leaderConsensus \<times> int) option" where
  "awaitFailover addresses rounds baseline = poll (\<lambda>k. failover_round addresses (rounds k) baseline) 0 (None, 0)"

definition all_round :: "string list \<Rightarrow> ('e, 'f) leaderRound \<Rightarrow> ('e run_error + replicaObservation list) + unit" where
  "all_round addresses r =
     (case lrLoad r of Some e \<Rightarrow> Inl (Inl (LoadFailure e)) | None \<Rightarrow>
        (let obs = observeReplicas addresses (lrReplies r)
         in case checkReplicaCoherence obs of Some e \<Rightarrow> Inl (Inl (Incoherent e)) | None \<Rightarrow>
              if unreachable_count obs = 0 \<and> lcAgreed (summarizeLeader obs) then Inl (Inr obs)
              else next_sweep r (LeaderFailed (ReplicasMissing (map roAddress (filter (\<lambda>ob. roSnapshot ob = None) obs)))) ()))"

definition awaitAllReplicas ::
    "string list \<Rightarrow> (nat \<Rightarrow> ('e, 'f) leaderRound) \<Rightarrow> ('e run_error + replicaObservation list) option" where
  "awaitAllReplicas addresses rounds = poll (\<lambda>k _. all_round addresses (rounds k)) 0 ()"

subsection \<open>The leader scenario\<close>

record leaderScenarioReport =
  lsReplicasObserved :: nat
  lsBaselineLeader :: string
  lsBaselineTerm :: u64
  lsNewLeader :: string
  lsNewTerm :: u64
  lsFailoverSweeps :: nat
  lsRejoinLeader :: string
  lsRejoinTerm :: u64
  lsRejoinGeneration :: u64
  lsRejoinFingerprint :: string
  lsRejoinNodes :: nat

text \<open>The rounds of the three waits and what the three progress files answer.\<close>

record ('e, 'f) leaderObs =
  loBaseline :: "nat \<Rightarrow> ('e, 'f) leaderRound"
  loFailover :: "nat \<Rightarrow> ('e, 'f) leaderRound"
  loRejoin :: "nat \<Rightarrow> ('e, 'f) leaderRound"
  loWrite :: "nat \<Rightarrow> 'e option"

text \<open>The checks once every replica answers again.\<close>

definition judge_rejoin ::
    "leaderConsensus \<Rightarrow> leaderConsensus \<Rightarrow> replicaObservation list \<Rightarrow> 'e run_error + leaderConsensus \<times> u64 \<times> string \<times> nat" where
  "judge_rejoin baseline elected rejoined =
     (let final = summarizeLeader rejoined
      in if \<not> lcAgreed final then Inl (LeaderFailed (DisagreeAfterRejoin (lcReason final)))
         else if lcLeader final = lcLeader baseline then Inl (LeaderFailed (LeaderTookBack (lcLeader baseline) (lcLeader elected)))
         else if lcTerm final < lcTerm elected then Inl (LeaderFailed (TermBackwards (lcTerm final) (lcTerm elected)))
         else case assertGroupConvergedOnOneState rejoined of
             Inl e \<Rightarrow> Inl (Incoherent e)
           | Inr state \<Rightarrow> Inr (final, state))"

definition runLeaderScenario :: "string list \<Rightarrow> ('e, 'f) leaderObs \<Rightarrow> ('e run_error + leaderScenarioReport) option" where
  "runLeaderScenario addresses obs =
     (case awaitLeaderConsensus addresses (loBaseline obs) [] (length addresses) of
        None \<Rightarrow> None
      | Some (Inl e) \<Rightarrow> Some (Inl e)
      | Some (Inr baseline) \<Rightarrow>
     (case loWrite obs 0 of Some e \<Rightarrow> Some (Inl (PublishFailed e)) | None \<Rightarrow>
     (case awaitFailover addresses (loFailover obs) baseline of
        None \<Rightarrow> None
      | Some (Inl e) \<Rightarrow> Some (Inl e)
      | Some (Inr (elected, disruptedAt)) \<Rightarrow>
          if lcTerm elected \<le> lcTerm baseline then Some (Inl (LeaderFailed (TermStuck (lcLeader elected) (lcTerm elected) (lcTerm baseline))))
          else
     (case loWrite obs 1 of Some e \<Rightarrow> Some (Inl (PublishFailed e)) | None \<Rightarrow>
     (case awaitAllReplicas addresses (loRejoin obs) of
        None \<Rightarrow> None
      | Some (Inl e) \<Rightarrow> Some (Inl e)
      | Some (Inr rejoined) \<Rightarrow>
     (case judge_rejoin baseline elected rejoined of
        Inl e \<Rightarrow> Some (Inl e)
      | Inr (final, generation, fingerprint, nodes) \<Rightarrow>
     (case loWrite obs 2 of Some e \<Rightarrow> Some (Inl (Stopped e)) | None \<Rightarrow>
        Some (Inr
          \<lparr>lsReplicasObserved = lcReachable baseline, lsBaselineLeader = lcLeader baseline, lsBaselineTerm = lcTerm baseline,
           lsNewLeader = lcLeader elected, lsNewTerm = lcTerm elected, lsFailoverSweeps = lcSweeps elected,
           lsRejoinLeader = lcLeader final, lsRejoinTerm = lcTerm final, lsRejoinGeneration = generation,
           lsRejoinFingerprint = fingerprint, lsRejoinNodes = nodes\<rparr>))))))))"

end
