(* ===== verification/Chaos_Main.thy ===== *)
theory Chaos_Main
  imports Chaos_Scenario
begin

text \<open>
  \<^verbatim>\<open>cmd/pulsekv-chaos/main.go\<close>, the whole run: the baseline, the cycles of removals and rejoins, the leader
  scenario beside them, and the verdict over the load and the coherence watcher.

  The loops that run concurrently meet only in the error channel, which the rounds of the waits observe, and
  in the counters read at the end; the run takes what each of them observed as an argument.
\<close>

subsection \<open>Cycles\<close>

record transitionReport =
  tpIndex :: nat
  tpCycle :: nat
  tpKind :: string
  tpFromGeneration :: u64
  tpToGeneration :: u64
  tpMoved :: nat
  tpStable :: nat
  tpProof :: epochProofReport
  tpPromotion :: "promotionReport option"

record ('e, 'f) halfObs =
  hoRounds :: "nat \<Rightarrow> ('e, 'f) transRound"
  hoElapsed :: int
  hoEpoch :: "nat \<Rightarrow> 'e epochRound"
  hoPromo :: "u32 \<Rightarrow> nat \<Rightarrow> 'e promoRound"
  hoWrite :: "'e option"

text \<open>What a run works with: settings, number of replicas, baseline, the target's shards and the key namespace.\<close>

record chaosPlan =
  plCfg :: settings
  plReplicas :: nat
  plBaseline :: Topology
  plTargetShards :: "u32 list"
  plNamespace :: string

text \<open>Half a cycle: wait for the transition, prove the routing and the promotion, record and publish it.\<close>

definition half_cycle ::
    "('f reader_error \<Rightarrow> 'e) \<Rightarrow> chaosPlan \<Rightarrow> promotionEntry list \<Rightarrow> string \<Rightarrow> string \<Rightarrow> nat \<Rightarrow> nat \<Rightarrow> Topology \<times> nat \<Rightarrow> ('e, 'f) halfObs
       \<Rightarrow> ('e run_error + transitionReport \<times> Topology \<times> nat) option" where
  "half_cycle wrap p promotion kind proofKind cyc index = (\<lambda>(previous, preferred) obs.
     let target = stTarget (plCfg p); shards = plTargetShards p
     in case waitForTransition wrap (hoRounds obs) (plReplicas p) preferred previous (plBaseline p) target kind of
          None \<Rightarrow> None
        | Some (Inl e) \<Rightarrow> Some (Inl e)
        | Some (Inr (now, movement, preferred')) \<Rightarrow>
     if transitionTimeout (plCfg p) - hoElapsed obs \<le> 0 then Some (Inl (BudgetExhausted (transitionTimeout (plCfg p))))
     else
     (case verifyEpoch (hoEpoch obs) now (plBaseline p) target (shards ! ((index - 1) mod length shards))
             (plNamespace p @ '':transition:'' @ Itoa (int index)) (''cycle-'' @ Itoa (int cyc) @ ''-'' @ kind) of
          None \<Rightarrow> None
        | Some (Inl e) \<Rightarrow> Some (Inl e)
        | Some (Inr proof') \<Rightarrow>
     (case verifyPromotion (hoPromo obs) previous now promotion proofKind of
          None \<Rightarrow> None
        | Some (Inl e) \<Rightarrow> Some (Inl e)
        | Some (Inr promoted) \<Rightarrow>
            (case hoWrite obs of
               Some e \<Rightarrow> Some (Inl (PublishFailed e))
             | None \<Rightarrow> Some (Inr
                 (\<lparr>tpIndex = index, tpCycle = cyc, tpKind = kind, tpFromGeneration = tGeneration previous,
                   tpToGeneration = tGeneration now, tpMoved = moved movement, tpStable = stable movement,
                   tpProof = proof', tpPromotion = promoted\<rparr>, now, preferred'))))))"

record ('e, 'f) cycleObs =
  coRemoval :: "('e, 'f) halfObs"
  coRejoin :: "('e, 'f) halfObs"
  coAcks :: "u32 \<Rightarrow> nat \<Rightarrow> 'e ackRound"
  coWorld :: "u32 \<Rightarrow> 'e dataPlane"

text \<open>The loop over the cycles: \<open>left'\<close> cycles remain; the transitions reported so far are returned with an error.\<close>

fun run_cycles ::
    "('f reader_error \<Rightarrow> 'e) \<Rightarrow> ('e \<Rightarrow> bool) \<Rightarrow> (nat \<Rightarrow> ('e, 'f) cycleObs) \<Rightarrow> chaosPlan \<Rightarrow> nat \<Rightarrow> nat \<Rightarrow> promotionEntry list
       \<Rightarrow> Topology \<times> nat \<Rightarrow> transitionReport list \<Rightarrow> (transitionReport list \<times> 'e run_error option) option" where
  "run_cycles wrap invalidArgument obs p 0 cyc promotion st reports = Some (reports, None)"
| "run_cycles wrap invalidArgument obs p (Suc left') cyc promotion st reports =
     (case half_cycle wrap p promotion ''removal'' ''replica-promotion'' cyc (2 * cyc - 1) st (coRemoval (obs cyc)) of
        None \<Rightarrow> None
      | Some (Inl e) \<Rightarrow> Some (reports, Some e)
      | Some (Inr (removal, st')) \<Rightarrow>
     (case half_cycle wrap p promotion ''rejoin'' ''catch-up-after-rejoin'' cyc (2 * cyc) st' (coRejoin (obs cyc)) of
        None \<Rightarrow> None
      | Some (Inl e) \<Rightarrow> Some (reports @ [removal], Some e)
      | Some (Inr (rejoin, st'')) \<Rightarrow>
          if left' = 0 then Some (reports @ [removal, rejoin], None)
          else
     (case seedPromotionKeys invalidArgument (coAcks (obs cyc)) (coWorld (obs cyc)) (fst st'')
             (refreshPromotionValues promotion (int cyc)) of
        None \<Rightarrow> None
      | Some (Inl e) \<Rightarrow> Some (reports @ [removal, rejoin], Some e)
      | Some (Inr promotion') \<Rightarrow>
          run_cycles wrap invalidArgument obs p left' (cyc + 1) promotion' st'' (reports @ [removal, rejoin]))))"

subsection \<open>The verdict\<close>

definition verdict :: "settings \<Rightarrow> coherenceCounters \<Rightarrow> loadCounters \<Rightarrow> 'e run_error option" where
  "verdict cfg coherence ld =
     (if chViolations coherence \<noteq> 0 then Some (VerdictFailed (ReplicasDisagreed (chViolations coherence)))
      else if runsLeaderScenario cfg \<and> chSweeps coherence = 0 then Some (VerdictFailed NoSweep)
      else if ldMisses ld \<noteq> 0 \<or> ldMismatches ld \<noteq> 0 \<or> ldRPCErrors ld \<noteq> 0
      then Some (VerdictFailed (BadLoad (ldMisses ld) (ldMismatches ld) (ldRPCErrors ld)))
      else if ldVerified ld = 0 then Some (VerdictFailed NothingVerified)
      else None)"

subsection \<open>The run\<close>

record ('e, 'f) chaosObs =
  cbPrepare :: "string \<Rightarrow> 'e option"
  cbDial :: "string \<Rightarrow> 'e option"
  cbBaseline :: "nat \<Rightarrow> 'f + Topology"
  cbSdk :: "'e option"
  cbPut :: "bytes \<Rightarrow> bytes \<Rightarrow> 'e option"
  cbGet :: "bytes \<Rightarrow> 'e + bytes option"
  cbEpoch :: "nat \<Rightarrow> 'e epochRound"
  cbAcks :: "u32 \<Rightarrow> nat \<Rightarrow> 'e ackRound"
  cbWorld :: "u32 \<Rightarrow> 'e dataPlane"
  cbWrite :: "'e option"
  cbLeader :: "('e, 'f) leaderObs"
  cbCycles :: "nat \<Rightarrow> ('e, 'f) cycleObs"
  cbSweeps :: "'f sweepObs list"
  cbReads :: "(nat \<times> stableEntry \<times> ('e + bytes option)) list"
  cbClose :: "'e option"

record chaosReport =
  crBaselineProof :: epochProofReport
  crTransitions :: "transitionReport list"
  crLeader :: "leaderScenarioReport option"
  crCoherence :: coherenceCounters
  crLoad :: loadCounters
  crSkipped :: "skip_reason option"

definition key_namespace :: "settings \<Rightarrow> Topology \<Rightarrow> string" where
  "key_namespace cfg baseline =
     (let fingerprint = hexEncode (tFingerprint baseline);
          identity = (if fingerprint = [] then ''legacy-generation-'' @ Itoa (uint (tGeneration baseline)) else fingerprint)
      in ''pulsekv-chaos:s'' @ Itoa (seed cfg) @ '':t'' @ identity @ '':'' @ stTarget cfg)"

text \<open>Everything before the load starts: the plan, the stable entries, the promotion entries and why there are none.\<close>

definition chaos_plan ::
    "('f reader_error \<Rightarrow> 'e) \<Rightarrow> settings \<Rightarrow> ('e, 'f) chaosObs
       \<Rightarrow> 'e run_error + string list \<times> nat \<times> chaosPlan \<times> stableEntry list \<times> (skip_reason + promotionEntry list)" where
  "chaos_plan wrap cfg obs =
     (let controlPlanes = chaos_splitCommaList (stControlPlane cfg)
      in if length controlPlanes = 0 then Inl (StartFailed NoUsableAddress)
         else if runsLeaderScenario cfg \<and> length controlPlanes < 3 then Inl (StartFailed (LeaderNeedsThree (length controlPlanes)))
         else case cbPrepare obs (readyFile cfg) of Some e \<Rightarrow> Inl (StartFailed (ProgressFile e)) | None \<Rightarrow>
     (case (if runsLeaderScenario cfg then cbPrepare obs (leaderReadyFile cfg) else None) of Some e \<Rightarrow> Inl (StartFailed (ProgressFile e)) | None \<Rightarrow>
     (case snd (dialReplicas (cbDial obs) controlPlanes []) of
        Inl e \<Rightarrow> Inl (StartFailed (DialFailed e))
      | Inr replicas \<Rightarrow>
     (case reader_fetch (cbBaseline obs) (length replicas) 0 of
        (Inl e, _) \<Rightarrow> Inl (StartFailed (BaselineFetch (wrap e)))
      | (Inr baseline, preferred) \<Rightarrow>
     (case validateBaseline baseline (stTarget cfg) of
        Inl e \<Rightarrow> Inl (CheckFailed e)
      | Inr _ \<Rightarrow>
          (let targetShards = shardsOwnedBy baseline (stTarget cfg); namespace = key_namespace cfg baseline
           in case buildStableEntries baseline (stTarget cfg) namespace of
                Inl e \<Rightarrow> Inl (CheckFailed e)
              | Inr entries \<Rightarrow>
                  (case cbSdk obs of
                     Some e \<Rightarrow> Inl (StartFailed (SdkFailed e))
                   | None \<Rightarrow>
                       Inr (controlPlanes, preferred,
                         \<lparr>plCfg = cfg, plReplicas = length replicas, plBaseline = baseline, plTargetShards = targetShards,
                          plNamespace = namespace\<rparr>, entries,
                         buildPromotionEntries baseline (stTarget cfg) targetShards namespace (promotionKeys cfg)))))))))"

text \<open>After the load has started: the cycles, the leader scenario and the verdict.\<close>

definition chaos_verify ::
    "('f reader_error \<Rightarrow> 'e) \<Rightarrow> ('e \<Rightarrow> bool) \<Rightarrow> ('e, 'f) chaosObs \<Rightarrow> string list \<Rightarrow> chaosPlan \<Rightarrow> promotionEntry list \<Rightarrow> nat
       \<Rightarrow> ('e run_error + transitionReport list \<times> leaderScenarioReport option \<times> coherenceCounters \<times> loadCounters) option" where
  "chaos_verify wrap invalidArgument obs controlPlanes p promotion preferred =
     (let cfg = plCfg p;
          coherence = fst (watchReplicaCoherence controlPlanes (cbSweeps obs) (\<lparr>chSweeps = 0, chReachableReads = 0, chViolations = 0\<rparr>, None));
          ld = fst (startStableLoad (cbReads obs))
      in case run_cycles wrap invalidArgument (cbCycles obs) p (if runsDataNodeScenario cfg then nat (cycles cfg) else 0) 1 promotion
              (plBaseline p, preferred) [] of
           None \<Rightarrow> None
         | Some (_, Some e) \<Rightarrow> Some (Inl e)
         | Some (transitions, None) \<Rightarrow>
             (case (if runsLeaderScenario cfg then map_option (map_sum id Some) (runLeaderScenario controlPlanes (cbLeader obs))
                    else Some (Inr None)) of
                None \<Rightarrow> None
              | Some (Inl e) \<Rightarrow> Some (Inl e)
              | Some (Inr leader) \<Rightarrow>
                  (case verdict cfg coherence ld of
                     Some e \<Rightarrow> Some (Inl e)
                   | None \<Rightarrow> Some (Inr (transitions, leader, coherence, ld)))))"

definition chaos_run ::
    "('f reader_error \<Rightarrow> 'e) \<Rightarrow> ('e \<Rightarrow> bool) \<Rightarrow> settings \<Rightarrow> ('e, 'f) chaosObs \<Rightarrow> ('e run_error + chaosReport) option" where
  "chaos_run wrap invalidArgument cfg obs =
     (case chaos_plan wrap cfg obs of
        Inl e \<Rightarrow> Some (Inl e)
      | Inr (controlPlanes, preferred, p, entries, promotion) \<Rightarrow>
     (case seedStableKeys (cbPut obs) (cbGet obs) entries of
        Inl e \<Rightarrow> Some (Inl e)
      | Inr _ \<Rightarrow>
     (case verifyEpoch (cbEpoch obs) (plBaseline p) (plBaseline p) (stTarget cfg) (plTargetShards p ! 0)
             (plNamespace p @ '':baseline'') ''baseline'' of
        None \<Rightarrow> None
      | Some (Inl e) \<Rightarrow> Some (Inl e)
      | Some (Inr proof') \<Rightarrow>
     (case seedPromotionKeys invalidArgument (cbAcks obs) (cbWorld obs) (plBaseline p) (case promotion of Inl _ \<Rightarrow> [] | Inr es \<Rightarrow> es) of
        None \<Rightarrow> None
      | Some (Inl e) \<Rightarrow> Some (Inl e)
      | Some (Inr seeded) \<Rightarrow>
     (case cbWrite obs of Some e \<Rightarrow> Some (Inl (PublishFailed e)) | None \<Rightarrow>
     (case chaos_verify wrap invalidArgument obs controlPlanes p seeded preferred of
        None \<Rightarrow> None
      | Some (Inl e) \<Rightarrow> Some (Inl e)
      | Some (Inr (transitions, leader, coherence, ld)) \<Rightarrow>
          (case cbClose obs of
             Some e \<Rightarrow> Some (Inl (CloseFailed e))
           | None \<Rightarrow> Some (Inr
               \<lparr>crBaselineProof = proof', crTransitions = transitions, crLeader = leader, crCoherence = coherence, crLoad = ld,
                crSkipped = (case promotion of Inl r \<Rightarrow> Some r | Inr _ \<Rightarrow> None)\<rparr>))))))))"

end
