(* ===== verification/Chaos_Laws.thy ===== *)
theory Chaos_Laws
  imports Chaos_Main
begin

text \<open>
  Laws of the chaos verifier (\<^verbatim>\<open>cmd/pulsekv-chaos/main.go\<close>).  Its judgements of removals, rejoins and of the
  replicas' coherence are exact: they accept what the router and the replicated state produce and nothing else.
  The keys it reads throughout stay with their owners, its counters account for every read, its progress files
  are published atomically, a passing run proves what it claims, and every run ends.
\<close>

text \<open>
  What a correct removal of the target looks like: only the target left, the shard count stayed, the new map is the
  router's for the remaining nodes, and the target owned something.
\<close>

definition removal_of :: "string \<Rightarrow> Topology \<Rightarrow> Topology \<Rightarrow> bool" where
  "removal_of target before after \<longleftrightarrow> tGeneration before < tGeneration after \<and> fmlookup (tNodes before) target \<noteq> None \<and>
     tNodes after = fmdrop target (tNodes before) \<and> tShardCount after = tShardCount before \<and>
     tShardMap after = AssignShards (sortedNodeIDs (tNodes after)) (tShardCount after) \<and> shardsOwnedBy before target \<noteq> []"

definition sample_before :: Topology where
  "sample_before =
     \<lparr>tGeneration = 4, tFingerprint = [], tShardCount = 1, tShardMap = AssignShards [''a'', ''b''] 1,
      tNodes = fmap_of_list [(''a'', ''h:1''), (''b'', ''h:2'')], tOwners = AssignShardOwners [''a'', ''b''] 1 1,
      tReplicationFactor = 1, tRaftLeaderID = ''cp-0'', tRaftTerm = 2\<rparr>"

definition sample_after :: Topology where
  "sample_after = sample_before\<lparr>tGeneration := 5, tShardMap := AssignShards [''a''] 1, tNodes := fmap_of_list [(''a'', ''h:1'')]\<rparr>"

definition snaps :: "replicaObservation list \<Rightarrow> Topology list" where
  "snaps obs = List.map_filter roSnapshot obs"

definition names :: "string \<Rightarrow> u64 \<Rightarrow> Topology \<Rightarrow> bool" where
  "names l term' t \<longleftrightarrow> tRaftLeaderID t = l \<and> tRaftTerm t = term'"

definition live :: "Topology \<Rightarrow> bool" where
  "live t \<longleftrightarrow> (\<forall>shard < tShardCount t. \<exists>owner. fmlookup (tShardMap t) shard = Some owner \<and> owner \<noteq> [] \<and> fmlookup (tNodes t) owner \<noteq> None)"

definition fits :: "(u64, string \<times> string) fmap \<Rightarrow> Topology \<Rightarrow> bool" where
  "fits m t \<longleftrightarrow> (\<forall>a f. fmlookup m (tGeneration t) = Some (a, f) \<longrightarrow> f = hexEncode (tFingerprint t))"

definition agree :: "Topology \<Rightarrow> Topology \<Rightarrow> bool" where
  "agree t t' \<longleftrightarrow> (tGeneration t = tGeneration t' \<longrightarrow> tFingerprint t = tFingerprint t')"





text \<open>Every wait has a deadline that passes.\<close>

definition acks_end :: "(nat \<Rightarrow> 'e ackRound) \<Rightarrow> bool" where
  "acks_end rounds \<longleftrightarrow> (\<exists>k. akLate (rounds k))"

definition promos_end :: "(nat \<Rightarrow> 'e promoRound) \<Rightarrow> bool" where
  "promos_end rounds \<longleftrightarrow> (\<exists>k. prLate (rounds k))"

definition epochs_end :: "(nat \<Rightarrow> 'e epochRound) \<Rightarrow> bool" where
  "epochs_end rounds \<longleftrightarrow> (\<exists>k. erDeadline (rounds k) \<noteq> None)"

definition leaders_end :: "(nat \<Rightarrow> ('e, 'f) leaderRound) \<Rightarrow> bool" where
  "leaders_end rounds \<longleftrightarrow> (\<exists>k. lrLate (rounds k))"

definition half_ends :: "('e, 'f) halfObs \<Rightarrow> bool" where
  "half_ends obs \<longleftrightarrow> (\<exists>k e. trTop (hoRounds obs k) = WaitDone e) \<and> epochs_end (hoEpoch obs) \<and> (\<forall>shard. promos_end (hoPromo obs shard))"

definition cycle_ends :: "('e, 'f) cycleObs \<Rightarrow> bool" where
  "cycle_ends obs \<longleftrightarrow> half_ends (coRemoval obs) \<and> half_ends (coRejoin obs) \<and> (\<forall>shard. acks_end (coAcks obs shard))"

definition run_ends :: "('e, 'f) chaosObs \<Rightarrow> bool" where
  "run_ends obs \<longleftrightarrow> epochs_end (cbEpoch obs) \<and> (\<forall>shard. acks_end (cbAcks obs shard)) \<and> (\<forall>k. cycle_ends (cbCycles obs k)) \<and>
     leaders_end (loBaseline (cbLeader obs)) \<and> leaders_end (loFailover (cbLeader obs)) \<and> leaders_end (loRejoin (cbLeader obs))"

definition sample_baseline :: Topology where
  "sample_baseline =
     \<lparr>tGeneration = 4, tFingerprint = [], tShardCount = 2, tShardMap = AssignShards [''a'', ''b''] 2,
      tNodes = fmap_of_list [(''a'', ''h:1''), (''b'', ''h:2'')], tOwners = fmempty, tReplicationFactor = 0,
      tRaftLeaderID = ''cp-0'', tRaftTerm = 2\<rparr>"

definition sample_removed :: Topology where
  "sample_removed = sample_baseline\<lparr>tGeneration := 5, tShardMap := AssignShards [''a''] 2, tNodes := fmap_of_list [(''a'', ''h:1'')]\<rparr>"

definition sample_rejoined :: Topology where
  "sample_rejoined = sample_baseline\<lparr>tGeneration := 6\<rparr>"

definition sample_settings :: settings where
  "sample_settings =
     \<lparr>stControlPlane = ''h:9'', stTarget = ''b'', cycles = 1, seed = 1, readyFile = ''/r'', reportPath = ''/p'',
      transitionTimeout = 60, pollInterval = 1, stRefreshInterval = 1, stRpcTimeout = 1, workers = 1, promotionKeys = 0,
      catchUpTimeout = 1, scenario = ''data-node'', leaderReadyFile = [], leaderTimeout = 1, leaderPollTimeout = 1\<rparr>"

definition sample_namespace :: string where
  "sample_namespace = ''pulsekv-chaos:s1:tlegacy-generation-4:b''"

definition sample_epoch :: "string \<Rightarrow> bytes \<Rightarrow> nat \<Rightarrow> unit epochRound" where
  "sample_epoch address val k =
     \<lparr>erLoad = None, erDeadline = (if k = 0 then None else Some ()), erPut = (\<lambda>_ _. None),
      erWorld = \<lparr>dpDial = (\<lambda>_. None), dpGet = (\<lambda>a _. Inr (a = address, val))\<rparr>\<rparr>"

definition sample_half :: "Topology \<Rightarrow> string \<Rightarrow> string \<Rightarrow> (unit, unit) halfObs" where
  "sample_half t address epoch =
     \<lparr>hoRounds = (\<lambda>k. \<lparr>trTop = (if k = 0 then Proceed else WaitDone ()), trReplies = (\<lambda>_. Inr t), trPause = Proceed\<rparr>),
      hoElapsed = 0, hoEpoch = sample_epoch address (epoch_value epoch (tGeneration t) 1),
      hoPromo = (\<lambda>_ _. \<lparr>prWorld = \<lparr>dpDial = (\<lambda>_. None), dpGet = (\<lambda>_ _. Inr (False, []))\<rparr>, prLate = True, prWait = None\<rparr>),
      hoWrite = None\<rparr>"

definition sample_entry :: stableEntry where
  "sample_entry =
     \<lparr>seKey = sample_namespace @ '':stable:1'', seValue = ''stable-value:'' @ sample_namespace @ '':1'', seShard = 1, seOwner = ''a''\<rparr>"

definition sample_late :: "(unit, unit) leaderRound" where
  "sample_late = \<lparr>lrLoad = None, lrNow = 0, lrReplies = (\<lambda>_. Inl ()), lrLate = True, lrWait = None\<rparr>"

definition sample_acks :: "u32 \<Rightarrow> nat \<Rightarrow> unit ackRound" where
  "sample_acks shard k = \<lparr>akPut = (\<lambda>_ _ _. Inl ()), akLate = True, akWait = None\<rparr>"

definition sample_world :: "unit dataPlane" where
  "sample_world = \<lparr>dpDial = (\<lambda>_. None), dpGet = (\<lambda>_ _. Inl ())\<rparr>"

definition sample_run :: "(unit, unit) chaosObs" where
  "sample_run =
     \<lparr>cbPrepare = (\<lambda>_. None), cbDial = (\<lambda>_. None), cbBaseline = (\<lambda>_. Inr sample_baseline), cbSdk = None,
      cbPut = (\<lambda>_ _. None), cbGet = (\<lambda>_. Inr (Some (seValue sample_entry))),
      cbEpoch = sample_epoch ''h:2'' (epoch_value ''baseline'' 4 1), cbAcks = sample_acks, cbWorld = (\<lambda>_. sample_world), cbWrite = None,
      cbLeader = \<lparr>loBaseline = (\<lambda>_. sample_late), loFailover = (\<lambda>_. sample_late), loRejoin = (\<lambda>_. sample_late), loWrite = (\<lambda>_. None)\<rparr>,
      cbCycles = (\<lambda>_. \<lparr>coRemoval = sample_half sample_removed ''h:1'' ''cycle-1-removal'',
        coRejoin = sample_half sample_rejoined ''h:2'' ''cycle-1-rejoin'', coAcks = sample_acks, coWorld = (\<lambda>_. sample_world)\<rparr>),
      cbSweeps = [], cbReads = [(0, sample_entry, Inr (Some (seValue sample_entry)))], cbClose = None\<rparr>"


subsection \<open>Owners\<close>

lemma validateExactHRW_iff:
  "validateExactHRW s = Inr () \<longleftrightarrow> tShardMap s = AssignShards (sortedNodeIDs (tNodes s)) (tShardCount s)"
  by (auto simp: validateExactHRW_def Let_def split: sum.splits)

lemma set_sortedNodeIDs [simp]: "set (sortedNodeIDs nodes) = fmdom' nodes"
  by (simp add: sortedNodeIDs_def fmdom'_alt_def)

lemma distinct_sortedNodeIDs [simp]: "distinct (sortedNodeIDs nodes)"
  by (simp add: sortedNodeIDs_def sorted_list_of_fset.rep_eq)

lemma sortedNodeIDs_drop: "sortedNodeIDs (fmdrop n nodes) = filter (\<lambda>i. i \<noteq> n) (sortedNodeIDs nodes)"
proof -
  have sorted: "sorted (sortedNodeIDs nodes)" for nodes
    by (simp add: sortedNodeIDs_def sorted_list_of_fset.rep_eq)
  then have "sorted (filter (\<lambda>i. i \<noteq> n) (sortedNodeIDs nodes))"
    by (rule sorted_wrt_filter)
  moreover have "set (sortedNodeIDs (fmdrop n nodes)) = set (filter (\<lambda>i. i \<noteq> n) (sortedNodeIDs nodes))"
    by auto
  ultimately show ?thesis
    using sorted by (intro sorted_distinct_set_unique) simp_all
qed

lemma shardsOwnedBy_filter: "shardsOwnedBy s owner = filter (\<lambda>shard. fmget (tShardMap s) shard = owner) (upto_u32 (tShardCount s))"
proof -
  have "fold (\<lambda>shard shards. if P shard then shards @ [shard] else shards) xs acc = acc @ filter P xs" for P :: "u32 \<Rightarrow> bool" and xs acc
    by (induction xs arbitrary: acc) simp_all
  then show ?thesis
    by (simp add: shardsOwnedBy_def loop_simps)
qed

lemma fmget_AssignShards:
  "ids \<noteq> [] \<Longrightarrow> shard < n \<Longrightarrow> fmget (AssignShards ids n) shard = hd (ranking shard ids)"
  by (simp add: fmget_def AssignShards_lookup)

lemma owner_in: "ids \<noteq> [] \<Longrightarrow> hd (ranking shard ids) \<in> set ids"
  by (metis hd_in_set ranking_eq_Nil set_ranking)

text \<open>Leaving a node out moves only its shards, to other nodes.\<close>

lemma owner_without:
  assumes "filter (\<lambda>i. i \<noteq> n) ids \<noteq> []"
  shows "hd (ranking shard ids) \<noteq> n \<Longrightarrow> hd (ranking shard (filter (\<lambda>i. i \<noteq> n) ids)) = hd (ranking shard ids)"
    and "hd (ranking shard (filter (\<lambda>i. i \<noteq> n) ids)) \<in> set ids - {n}"
proof -
  have "ids \<noteq> []"
    using assms by auto
  then show "hd (ranking shard ids) \<noteq> n \<Longrightarrow> hd (ranking shard (filter (\<lambda>i. i \<noteq> n) ids)) = hd (ranking shard ids)"
    using hd_filter_ranking [of ids "\<lambda>i. i \<noteq> n" shard] by simp
  show "hd (ranking shard (filter (\<lambda>i. i \<noteq> n) ids)) \<in> set ids - {n}"
    using owner_in [OF assms, of shard] by auto
qed

subsection \<open>Removals\<close>

lemma count_shards:
  "length (filter P (upto_u32 n)) + length (filter (\<lambda>x. \<not> P x) (upto_u32 n)) = unat n"
  using sum_length_filter_compl [of P "upto_u32 n"] by simp

lemma rest_nonempty:
  assumes "2 \<le> fmlen (tNodes s)"
  shows "filter (\<lambda>i. i \<noteq> target) (sortedNodeIDs (tNodes s)) \<noteq> []"
proof
  assume "filter (\<lambda>i. i \<noteq> target) (sortedNodeIDs (tNodes s)) = []"
  then have "fmdom' (tNodes s) \<subseteq> {target}"
    by (auto simp: filter_empty_conv)
  then have "card (fmdom' (tNodes s)) \<le> 1"
    using card_mono [of "{target}"] by simp
  then show False
    using assms by (simp add: fmlen_card)
qed

lemma removal_steps:
  assumes "\<forall>shard \<in> set xs. fmget (tShardMap before) shard = target \<longrightarrow>
      fmget (tShardMap after) shard \<noteq> target \<and> fmget (tShardMap after) shard \<noteq> []"
    and "\<forall>shard \<in> set xs. fmget (tShardMap before) shard \<noteq> target \<longrightarrow> fmget (tShardMap after) shard = fmget (tShardMap before) shard"
  shows "foldE (removal_step before after target) xs \<lparr>moved = a, stable = b\<rparr> =
    Inr \<lparr>moved = a + length (filter (\<lambda>shard. fmget (tShardMap before) shard = target) xs),
         stable = b + length (filter (\<lambda>shard. fmget (tShardMap before) shard \<noteq> target) xs)\<rparr>"
  using assms by (induction xs arbitrary: a b) (auto simp: removal_step_def Let_def)

lemma removal_moves:
  assumes "validateExactHRW before = Inr ()" and "[] \<notin> fmdom' (tNodes before)" and "2 \<le> fmlen (tNodes before)"
    and "tNodes after = fmdrop target (tNodes before)" and "tShardCount after = tShardCount before"
    and "tShardMap after = AssignShards (sortedNodeIDs (tNodes after)) (tShardCount after)"
  shows "for_u32E (removal_step before after target) 0 (tShardCount before) \<lparr>moved = 0, stable = 0\<rparr> =
    Inr \<lparr>moved = length (shardsOwnedBy before target),
         stable = length (filter (\<lambda>shard. fmget (tShardMap before) shard \<noteq> target) (upto_u32 (tShardCount before)))\<rparr>"
proof -
  let ?ids = "sortedNodeIDs (tNodes before)"
  let ?rest = "filter (\<lambda>i. i \<noteq> target) ?ids"
  note rest = rest_nonempty [OF assms(3), of target]
  then have ids: "?ids \<noteq> []"
    by auto
  have old: "fmget (tShardMap before) shard = hd (ranking shard ?ids)"
      and new: "fmget (tShardMap after) shard = hd (ranking shard ?rest)" if "shard < tShardCount before" for shard
    using assms(1,4,5,6) that rest ids
    by (simp_all add: validateExactHRW_iff sortedNodeIDs_drop fmget_AssignShards)
  have "\<forall>shard \<in> set (upto_u32 (tShardCount before)). fmget (tShardMap before) shard = target \<longrightarrow>
      fmget (tShardMap after) shard \<noteq> target \<and> fmget (tShardMap after) shard \<noteq> []"
    using owner_without(2) [OF rest] assms(2) by (auto simp: new) (metis DiffD1 set_sortedNodeIDs)
  moreover have "\<forall>shard \<in> set (upto_u32 (tShardCount before)). fmget (tShardMap before) shard \<noteq> target \<longrightarrow>
      fmget (tShardMap after) shard = fmget (tShardMap before) shard"
    using owner_without(1) [OF rest] by (simp add: old new)
  ultimately show ?thesis
    using removal_steps [of "upto_u32 (tShardCount before)" before target after 0 0]
    by (simp add: loop_simps shardsOwnedBy_filter)
qed

lemma removal_check:
  assumes "validateExactHRW before = Inr ()" and "[] \<notin> fmdom' (tNodes before)" and "2 \<le> fmlen (tNodes before)"
  shows "validateRemoval before after target = Inr stats \<longleftrightarrow> removal_of target before after \<and>
    moved stats = length (shardsOwnedBy before target) \<and> moved stats + stable stats = unat (tShardCount before)"
proof (cases "tGeneration before < tGeneration after \<and> fmlookup (tNodes before) target \<noteq> None \<and>
    tNodes after = fmdrop target (tNodes before) \<and> tShardCount after = tShardCount before \<and>
    tShardMap after = AssignShards (sortedNodeIDs (tNodes after)) (tShardCount after)")
  case True
  then have run: "validateRemoval before after target =
      (if shardsOwnedBy before target = [] then Inl (NothingMoved target)
       else Inr \<lparr>moved = length (shardsOwnedBy before target),
         stable = length (filter (\<lambda>shard. fmget (tShardMap before) shard \<noteq> target) (upto_u32 (tShardCount before)))\<rparr>)"
    using removal_moves [OF assms, of after target] by (simp add: validateRemoval_def validateExactHRW_iff [THEN iffD2] not_le)
  have "length (shardsOwnedBy before target) +
      length (filter (\<lambda>shard. fmget (tShardMap before) shard \<noteq> target) (upto_u32 (tShardCount before))) = unat (tShardCount before)"
    using count_shards [of "\<lambda>shard. fmget (tShardMap before) shard = target"] by (simp add: shardsOwnedBy_filter)
  then show ?thesis
    unfolding run using True by (cases stats) (auto simp: removal_of_def)
next
  case False
  then have "validateRemoval before after target \<noteq> Inr stats"
    by (auto simp: validateRemoval_def Let_def not_less [symmetric] validateExactHRW_iff split: if_splits sum.splits)
  then show ?thesis
    using False by (auto simp: removal_of_def)
qed

text \<open>
  C20: The chaos verifier judges removals exactly.  From a baseline the router produced, it accepts the next
  topology as the target's removal if and only if only the target left and the new map is again the router's;
  since rendezvous hashing moves no other shard, a correct cluster never trips its survivor check, and the
  counts it reports are the target's shards and all others.
\<close>

theorem removal_check_exact:
  assumes "validateExactHRW before = Inr ()" and "[] \<notin> fmdom' (tNodes before)" and "2 \<le> fmlen (tNodes before)"
  shows "validateRemoval before after target = Inr stats \<longleftrightarrow> removal_of target before after \<and>
    moved stats = length (shardsOwnedBy before target) \<and> moved stats + stable stats = unat (tShardCount before)"
  using assms by (rule removal_check)

lemma sample_nodes: "tNodes sample_before = fmap_of_list [(''a'', ''h:1''), (''b'', ''h:2'')]" "tNodes sample_after = fmap_of_list [(''a'', ''h:1'')]"
  by (simp_all add: sample_before_def sample_after_def)

lemma sample_chaos_ids: "fmdom' (tNodes sample_before) = {''a'', ''b''}" "fmdrop ''b'' (tNodes sample_before) = tNodes sample_after"
    "sortedNodeIDs (tNodes sample_before) = [''a'', ''b'']" "sortedNodeIDs (tNodes sample_after) = [''a'']"
proof -
  show d: "fmdom' (tNodes sample_before) = {''a'', ''b''}"
    by (auto simp: sample_nodes fmdom'_by_lookup fmlookup_of_list split: if_splits)
  show drop: "fmdrop ''b'' (tNodes sample_before) = tNodes sample_after"
    by (rule fmap_ext) (auto simp: sample_nodes fmlookup_of_list)
  show ids: "sortedNodeIDs (tNodes sample_before) = [''a'', ''b'']"
    using d by (simp add: sortedNodeIDs_def sorted_list_of_fset.rep_eq fmdom'_alt_def)
  show "sortedNodeIDs (tNodes sample_after) = [''a'']"
    using sortedNodeIDs_drop [of "''b''" "tNodes sample_before"] by (simp add: drop ids)
qed

lemma sample_owned: "shardsOwnedBy sample_before ''b'' = [0]"
proof -
  have "fmget (tShardMap sample_before) 0 = ''b''"
    using two_node_owners by (simp add: sample_before_def fmget_def AssignShards_lookup AssignShardOwners_lookup split: if_splits)
  then show ?thesis
    by (simp add: shardsOwnedBy_filter upto_u32_def) (simp add: sample_before_def)
qed

theorem removal_check_exact_witness:
  "validateRemoval sample_before sample_after ''b'' = Inr \<lparr>moved = 1, stable = 0\<rparr>"
proof -
  have "validateExactHRW sample_before = Inr ()"
    by (simp add: validateExactHRW_iff sample_chaos_ids) (simp add: sample_before_def)
  moreover have "[] \<notin> fmdom' (tNodes sample_before)" "2 \<le> fmlen (tNodes sample_before)"
    by (simp_all add: sample_chaos_ids fmlen_card)
  moreover have "removal_of ''b'' sample_before sample_after"
    unfolding removal_of_def sample_chaos_ids sample_owned by (simp add: sample_before_def sample_after_def)
  ultimately show ?thesis
    using removal_check_exact [of sample_before sample_after "''b''" "\<lparr>moved = 1, stable = 0\<rparr>"] sample_owned
    by (simp add: sample_before_def)
qed

subsection \<open>Rejoins\<close>




subsection \<open>Promotions\<close>

text \<open>
  A promotion the router decides never goes elsewhere than the verifier expects: when both maps are the
  router's, the node that owns an entry's shard after the primary left is the first replica of before.
\<close>

theorem promotion_never_elsewhere:
  assumes "validateExactHRW before = Inr ()" and "removal_of target before after" and "2 \<le> fmlen (tNodes before)"
    and "tOwners before = AssignShardOwners (sortedNodeIDs (tNodes before)) (tShardCount before) rf"
    and "fmget (tShardMap before) (peShard entry) = target" and "peShard entry < tShardCount before"
  shows "promotion_target before after ''replica-promotion'' entry \<noteq> (Inl (ProofFailed (PromotedElsewhere sh o1 o2)) :: 'e run_error + string \<times> string)"
proof -
  let ?ids = "sortedNodeIDs (tNodes before)" and ?sh = "peShard entry"
  let ?rest = "filter (\<lambda>i. i \<noteq> target) ?ids"
  note rest = rest_nonempty [OF assms(3), of target]
  then have ids: "?ids \<noteq> []"
    by auto
  obtain others where rank: "ranking ?sh ?ids = target # others"
    using assms(1,5,6) ids by (cases "ranking ?sh ?ids") (auto simp: validateExactHRW_iff fmget_AssignShards)
  have new: "fmget (tShardMap after) ?sh = hd others"
    using assms(2,6) rest ranking_remove_first [OF _ rank]
    by (simp add: removal_of_def sortedNodeIDs_drop fmget_AssignShards)
  have old: "topology_Replicas before ?sh = take (nat rf) others"
    using assms(4,6) ids rank by (simp add: topology_Replicas_def AssignShardOwners_lookup)
  show ?thesis
  proof (cases "topology_Replicas before ?sh")
    case (Cons r rs)
    then have "hd others = r"
      using old by (cases others; cases "nat rf") auto
    then show ?thesis
      using Cons new by (simp add: promotion_target_def Let_def)
  qed (simp add: promotion_target_def Let_def)
qed

subsection \<open>Keys\<close>

lemma key_from_sound: "key_from stem want n c = Some key \<Longrightarrow> ShardForKey key n = want \<and> (\<exists>i. key = stem @ '':'' @ Itoa (int i))"
proof (induction stem want n c rule: key_from.induct)
  case (1 stem want n c)
  then show ?case
    by (subst (asm) (2) key_from.simps) (auto simp: Let_def split: if_splits)
qed

lemma keyForShard_sound: "keyForShard stem want n = Inr key \<Longrightarrow> ShardForKey key n = want"
  using key_from_sound [of stem want n 0 key] by (auto simp: keyForShard_def split: option.splits)

lemma stable_from_inv:
  assumes "\<And>shard e. fmlookup entries shard = Some e \<Longrightarrow>
      shard |\<in>| wanted \<and> seShard e = shard \<and> ShardForKey (seKey e) (tShardCount s) = shard \<and> seOwner e = fmget (tShardMap s) shard"
    and "fmlookup (stable_from s ns wanted c entries) shard = Some e"
  shows "shard |\<in>| wanted \<and> seShard e = shard \<and> ShardForKey (seKey e) (tShardCount s) = shard \<and> seOwner e = fmget (tShardMap s) shard"
  using assms
proof (induction s ns wanted c entries rule: stable_from.induct)
  case (1 s ns wanted c entries)
  let ?key = "stable_key ns c"
  let ?sh = "ShardForKey ?key (tShardCount s)"
  consider "\<not> (c < maxKeyAttempts \<and> fmlen entries < fcard wanted)"
    | "c < maxKeyAttempts \<and> fmlen entries < fcard wanted" "?sh |\<notin>| wanted"
    | "c < maxKeyAttempts \<and> fmlen entries < fcard wanted" "?sh |\<in>| wanted" "fmlookup entries ?sh \<noteq> None"
    | "c < maxKeyAttempts \<and> fmlen entries < fcard wanted" "?sh |\<in>| wanted" "fmlookup entries ?sh = None"
    by blast
  then show ?case
  proof cases
    case 1
    then have "stable_from s ns wanted c entries = entries"
      by (subst stable_from.simps) (rule if_not_P)
    then show ?thesis
      using "1.prems" by simp
  next
    case 2
    then have "fmlookup (stable_from s ns wanted (c + 1) entries) shard = Some e"
      using "1.prems"(2) by (subst (asm) stable_from.simps) (simp add: Let_def)
    then show ?thesis
      using "1.IH"(1) [OF 2(1) refl refl 2(2) "1.prems"(1)] by blast
  next
    case 3
    then have "fmlookup (stable_from s ns wanted (c + 1) entries) shard = Some e"
      using "1.prems"(2) by (subst (asm) stable_from.simps) (simp add: Let_def)
    then show ?thesis
      using "1.IH"(2) [OF 3(1) refl refl _ 3(3) "1.prems"(1)] 3(2) by blast
  next
    case 4
    let ?e = "\<lparr>seKey = ?key, seValue = ''stable-value:'' @ ns @ '':'' @ Itoa (uint ?sh), seShard = ?sh, seOwner = fmget (tShardMap s) ?sh\<rparr>"
    have step: "fmlookup (stable_from s ns wanted (c + 1) (fmupd ?sh ?e entries)) shard = Some e"
      using 4 "1.prems"(2) by (subst (asm) stable_from.simps) (simp add: Let_def)
    show ?thesis
      using 4 step by (intro "1.IH"(3) [OF 4(1) refl refl]) (auto split: if_splits dest: "1.prems"(1))
  qed
qed

subsection \<open>Leaders and coherence\<close>

lemma snaps_simps [simp]:
  "snaps [] = []" "snaps (ob # obs) = (case roSnapshot ob of None \<Rightarrow> snaps obs | Some t \<Rightarrow> t # snaps obs)"
  by (simp_all add: snaps_def List.map_filter_simps split: option.splits)

lemma leader_fold_disagree: "\<not> lcAgreed r \<Longrightarrow> \<not> lcAgreed (fold leader_step obs r)"
  by (induction obs arbitrary: r) (auto simp: leader_step_def Let_def split: option.splits)

lemma leader_fold_named:
  assumes "lcAgreed r" and "lcLeader r \<noteq> []"
  shows "lcAgreed (fold leader_step obs r) \<longleftrightarrow> (\<forall>t \<in> set (snaps obs). names (lcLeader r) (lcTerm r) t)"
    and "\<forall>t \<in> set (snaps obs). names (lcLeader r) (lcTerm r) t \<Longrightarrow>
      fold leader_step obs r = r\<lparr>lcReachable := lcReachable r + length (snaps obs)\<rparr>"
  using assms
proof (induction obs arbitrary: r)
  case (Cons ob obs)
  {
    case 1
    then show ?case
    proof (cases "roSnapshot ob")
      case (Some t)
      show ?thesis
      proof (cases "names (lcLeader r) (lcTerm r) t")
        case True
        then show ?thesis
          using Some 1 Cons.IH(1) [of "r\<lparr>lcReachable := lcReachable r + 1\<rparr>"] by (auto simp: leader_step_def names_def)
      next
        case False
        then have "\<not> lcAgreed (leader_step ob r)"
          using Some 1 by (auto simp: leader_step_def names_def Let_def)
        then show ?thesis
          using False Some leader_fold_disagree by auto
      qed
    qed (use Cons.IH(1) in \<open>simp add: leader_step_def\<close>)
  next
    case 2
    then show ?case
      using Cons.IH(2) [of r] Cons.IH(2) [of "r\<lparr>lcReachable := lcReachable r + 1\<rparr>"]
      by (cases "roSnapshot ob") (auto simp: leader_step_def names_def)
  }
qed simp_all

lemma leader_step_None [simp]: "roSnapshot ob = None \<Longrightarrow> leader_step ob r = r"
  by (simp add: leader_step_def)

abbreviation unnamed :: "leaderConsensus" where
  "unnamed \<equiv> \<lparr>lcLeader = [], lcTerm = 0, lcReachable = 0, lcAgreed = True, lcReason = None, lcSweeps = 0\<rparr>"

lemma leader_fold_start:
  shows "snaps obs = [] \<Longrightarrow> fold leader_step obs unnamed = unnamed"
    and "snaps obs = t # ts \<Longrightarrow> lcAgreed (fold leader_step obs unnamed) \<longleftrightarrow>
      tRaftLeaderID t \<noteq> [] \<and> (\<forall>t' \<in> set ts. names (tRaftLeaderID t) (tRaftTerm t) t')"
    and "snaps obs = t # ts \<Longrightarrow> tRaftLeaderID t \<noteq> [] \<Longrightarrow> \<forall>t' \<in> set ts. names (tRaftLeaderID t) (tRaftTerm t) t' \<Longrightarrow>
      fold leader_step obs unnamed =
        unnamed\<lparr>lcLeader := tRaftLeaderID t, lcTerm := tRaftTerm t, lcReachable := Suc (length ts)\<rparr>"
proof -
  show "fold leader_step obs unnamed = unnamed" if "snaps obs = []"
    using that by (induction obs) (auto split: option.splits)
  let ?r = "\<lparr>lcLeader = tRaftLeaderID t, lcTerm = tRaftTerm t, lcReachable = Suc 0, lcAgreed = True, lcReason = None, lcSweeps = 0\<rparr>"
  have step: "\<exists>obs'. snaps obs' = ts \<and> (if tRaftLeaderID t = [] then \<not> lcAgreed (fold leader_step obs unnamed)
      else fold leader_step obs unnamed = fold leader_step obs' ?r)" if "snaps obs = t # ts"
    using that
  proof (induction obs)
    case (Cons ob obs)
    show ?case
    proof (cases "roSnapshot ob")
      case None
      then have "fold leader_step (ob # obs) unnamed = fold leader_step obs unnamed" "snaps obs = t # ts"
        using Cons.prems by simp_all
      then show ?thesis
        using Cons.IH by presburger
    next
      case (Some t')
      then have "t' = t" "snaps obs = ts"
        using Cons.prems by simp_all
      moreover have "\<not> lcAgreed (leader_step ob unnamed)" if "tRaftLeaderID t = []"
        using that Some \<open>t' = t\<close> by (simp add: leader_step_def)
      moreover have "leader_step ob unnamed = ?r" if "tRaftLeaderID t \<noteq> []"
        using that Some \<open>t' = t\<close> by (simp add: leader_step_def)
      ultimately show ?thesis
        using leader_fold_disagree [of "leader_step ob unnamed" obs] by (intro exI [of _ obs]) simp
    qed
  qed simp
  show "lcAgreed (fold leader_step obs unnamed) \<longleftrightarrow> tRaftLeaderID t \<noteq> [] \<and> (\<forall>t' \<in> set ts. names (tRaftLeaderID t) (tRaftTerm t) t')"
    if "snaps obs = t # ts"
    using step [OF that] leader_fold_named(1) [of ?r] by (auto split: if_splits)
  show "fold leader_step obs unnamed =
     unnamed\<lparr>lcLeader := tRaftLeaderID t, lcTerm := tRaftTerm t, lcReachable := Suc (length ts)\<rparr>"
    if "snaps obs = t # ts" "tRaftLeaderID t \<noteq> []" "\<forall>t' \<in> set ts. names (tRaftLeaderID t) (tRaftTerm t) t'"
    using step [OF that(1)] that(2,3) leader_fold_named(2) [of ?r] by auto
qed

text \<open>The replicas agree on a leader exactly when at least one answers and all that answer name it, in one term.\<close>

theorem summarizeLeader_agreed:
  "lcAgreed (summarizeLeader obs) \<and> lcLeader (summarizeLeader obs) = l \<and> lcTerm (summarizeLeader obs) = term' \<longleftrightarrow>
     l \<noteq> [] \<and> snaps obs \<noteq> [] \<and> (\<forall>t \<in> set (snaps obs). names l term' t)"
proof (cases "snaps obs")
  case Nil
  then show ?thesis
    using leader_fold_start(1) [OF Nil] by (simp add: summarizeLeader_def)
next
  case (Cons t ts)
  show ?thesis
  proof (cases "lcAgreed (fold leader_step obs unnamed)")
    case True
    then have ok: "tRaftLeaderID t \<noteq> []" "\<forall>t' \<in> set ts. names (tRaftLeaderID t) (tRaftTerm t) t'"
      using leader_fold_start(2) [OF Cons] by simp_all
    then have "summarizeLeader obs =
        unnamed\<lparr>lcLeader := tRaftLeaderID t, lcTerm := tRaftTerm t, lcReachable := Suc (length ts)\<rparr>"
      using leader_fold_start(3) [OF Cons] by (simp add: summarizeLeader_def)
    then show ?thesis
      using Cons ok by (auto simp: names_def)
  next
    case False
    then have "\<not> lcAgreed (summarizeLeader obs)"
      by (simp add: summarizeLeader_def Let_def)
    then show ?thesis
      using False leader_fold_start(2) [OF Cons] Cons by (auto simp: names_def)
  qed
qed


lemma live_check:
  "(\<exists>u. for_u32E (check_live_owner address t) 0 (tShardCount t) () = Inr u) \<longleftrightarrow> live t"
proof -
  have "(\<exists>u. foldE (check_live_owner address t) xs () = Inr u) \<longleftrightarrow>
    (\<forall>shard \<in> set xs. \<exists>owner. fmlookup (tShardMap t) shard = Some owner \<and> owner \<noteq> [] \<and> fmlookup (tNodes t) owner \<noteq> None)" for xs
    by (induction xs) (auto simp: check_live_owner_def split: option.splits if_splits)
  then show ?thesis
    by (simp add: live_def loop_simps)
qed

lemma hex_char_inj: "hex_char a = hex_char b \<Longrightarrow> a < 16 \<Longrightarrow> b < 16 \<Longrightarrow> a = b"
  by (metis hex_digit_hex_char)

lemma byte_div: "byte c div 16 < 16"
  by (simp add: less_mult_imp_div_less)

lemma hexEncode_inj: "hexEncode a = hexEncode b \<longleftrightarrow> a = b"
proof
  show "hexEncode a = hexEncode b \<Longrightarrow> a = b"
  proof (induction a arbitrary: b)
    case (Cons x xs)
    then obtain y ys where b: "b = y # ys"
      by (cases b) (auto simp: hexEncode_def)
    have "hex_char (byte x div 16) = hex_char (byte y div 16)" "hex_char (byte x mod 16) = hex_char (byte y mod 16)"
        "hexEncode xs = hexEncode ys"
      using Cons.prems by (auto simp: b hexEncode_def)
    then have "byte x div 16 = byte y div 16" "byte x mod 16 = byte y mod 16" "xs = ys"
      using Cons.IH by (auto intro: hex_char_inj byte_div)
    then have "byte x = byte y"
      by (metis div_mult_mod_eq)
    then show ?case
      using b \<open>xs = ys\<close> byte_inject by simp
  next
    case Nil
    then show ?case
      by (cases b) (auto simp: hexEncode_def)
  qed
qed simp

lemma coherence_fold:
  "(\<exists>m'. foldE coherence_step obs m = Inr m') \<longleftrightarrow>
     (\<forall>t \<in> set (snaps obs). (fmlen (tNodes t) > 0 \<longrightarrow> live t) \<and> fits m t) \<and> (\<forall>t \<in> set (snaps obs). \<forall>t' \<in> set (snaps obs). agree t t')"
proof (induction obs arbitrary: m)
  case (Cons ob obs)
  show ?case
  proof (cases "roSnapshot ob")
    case None
    then show ?thesis
      using Cons by (simp add: coherence_step_def)
  next
    case (Some t)
    let ?m = "fmupd (tGeneration t) (roAddress ob, hexEncode (tFingerprint t)) m"
    have step: "coherence_step ob m = Inr (case fmlookup m (tGeneration t) of None \<Rightarrow> ?m | Some _ \<Rightarrow> m)"
      if "fmlen (tNodes t) > 0 \<longrightarrow> live t" "fits m t"
      using that live_check [of "roAddress ob" t] Some
      by (auto simp: coherence_step_def fits_def Let_def split: option.splits sum.splits if_splits)
    have bad: "\<exists>e. coherence_step ob m = Inl e" if "\<not> ((fmlen (tNodes t) > 0 \<longrightarrow> live t) \<and> fits m t)"
      using that live_check [of "roAddress ob" t] Some
      by (auto simp: coherence_step_def fits_def Let_def split: option.splits sum.splits if_splits)
    have keep: "fits (case fmlookup m (tGeneration t) of None \<Rightarrow> ?m | Some _ \<Rightarrow> m) t' \<longleftrightarrow> fits m t' \<and> agree t t'" if "fits m t" for t'
      using that by (auto simp: fits_def agree_def hexEncode_inj split: option.splits)
    have sym: "agree a b \<longleftrightarrow> agree b a" "agree a a" for a b
      by (auto simp: agree_def)
    show ?thesis
    proof (cases "(fmlen (tNodes t) > 0 \<longrightarrow> live t) \<and> fits m t")
      case True
      then have "(\<exists>m'. foldE coherence_step (ob # obs) m = Inr m') \<longleftrightarrow>
          (\<forall>t' \<in> set (snaps obs). (fmlen (tNodes t') > 0 \<longrightarrow> live t') \<and> fits m t' \<and> agree t t') \<and>
          (\<forall>t \<in> set (snaps obs). \<forall>t' \<in> set (snaps obs). agree t t')"
        using step Cons.IH keep by simp
      then show ?thesis
        using True Some sym by auto
    next
      case False
      then show ?thesis
        using bad Some by auto
    qed
  qed
qed simp

text \<open>
  The coherence check is exact: a sweep passes if and only if every replica that answers and knows nodes
  assigns every shard to a live one, and no two of them publish different fingerprints under one generation.
\<close>

theorem coherence_check_exact:
  "checkReplicaCoherence obs = None \<longleftrightarrow>
     (\<forall>t \<in> set (snaps obs). fmlen (tNodes t) > 0 \<longrightarrow> live t) \<and>
     (\<forall>t \<in> set (snaps obs). \<forall>t' \<in> set (snaps obs). tGeneration t = tGeneration t' \<longrightarrow> tFingerprint t = tFingerprint t')"
proof -
  have "checkReplicaCoherence obs = None \<longleftrightarrow> (\<exists>m'. foldE coherence_step obs fmempty = Inr m')"
    by (auto simp: checkReplicaCoherence_def split: sum.splits)
  then show ?thesis
    unfolding coherence_fold by (simp add: fits_def agree_def)
qed

subsection \<open>Stable keys\<close>

lemma wanted_shards:
  "for_u32 (\<lambda>shard w. if fmget (tShardMap s) shard \<noteq> target then finsert shard w else w) 0 n {||} =
     ffilter (\<lambda>shard. fmget (tShardMap s) shard \<noteq> target) (fset_of_list (upto_u32 n))"
proof -
  have "fold (\<lambda>shard w. if fmget (tShardMap s) shard \<noteq> target then finsert shard w else w) xs w =
      ffilter (\<lambda>shard. fmget (tShardMap s) shard \<noteq> target) (fset_of_list xs) |\<union>| w" for xs w
    by (induction xs arbitrary: w) auto
  then show ?thesis
    by (simp add: loop_simps)
qed

lemma stable_entries:
  assumes "buildStableEntries s target namespace = Inr entries"
  shows "seShard ` set entries = {shard. shard < tShardCount s \<and> fmget (tShardMap s) shard \<noteq> target}"
    and "\<forall>e \<in> set entries. ShardForKey (seKey e) (tShardCount s) = seShard e \<and> seOwner e = fmget (tShardMap s) (seShard e)"
proof -
  define wanted where "wanted = ffilter (\<lambda>shard. fmget (tShardMap s) shard \<noteq> target) (fset_of_list (upto_u32 (tShardCount s)))"
  define m where "m = stable_from s namespace wanted 0 fmempty"
  have r: "fmlen m = fcard wanted" "entries = map (\<lambda>shard. the (fmlookup m shard)) (sorted_list_of_fset (fmdom m))"
    using assms by (auto simp: buildStableEntries_def wanted_shards wanted_def [symmetric] m_def [symmetric] Let_def split: if_splits)
  have inv: "shard |\<in>| wanted \<and> seShard e = shard \<and> ShardForKey (seKey e) (tShardCount s) = shard \<and> seOwner e = fmget (tShardMap s) shard"
    if "fmlookup m shard = Some e" for shard e
    using stable_from_inv [of fmempty wanted s namespace 0 shard e] that by (simp add: m_def)
  have "fmdom m |\<subseteq>| wanted"
    using inv by (auto simp: fmlookup_dom_iff)
  moreover have "fcard (fmdom m) = fcard wanted"
    using r(1) by (simp add: fmlen_def)
  ultimately have dom: "fmdom m = wanted"
    by (metis pfsubset_fcard_mono nat_less_le order.not_eq_order_implies_strict)
  have ents: "set entries = (\<lambda>shard. the (fmlookup m shard)) ` fset wanted"
    using r(2) by (simp add: dom sorted_list_of_fset.rep_eq)
  have some: "\<exists>e. fmlookup m shard = Some e" if "shard |\<in>| wanted" for shard
    using that dom by (simp add: fmlookup_dom_iff [symmetric])
  have "seShard ` set entries = fset wanted"
    unfolding ents image_image using some inv by (force intro!: image_cong)
  then show "seShard ` set entries = {shard. shard < tShardCount s \<and> fmget (tShardMap s) shard \<noteq> target}"
    by (auto simp: wanted_def fset_of_list_elem)
  show "\<forall>e \<in> set entries. ShardForKey (seKey e) (tShardCount s) = seShard e \<and> seOwner e = fmget (tShardMap s) (seShard e)"
    unfolding ents using some inv by force
qed

text \<open>
  The keys of the sustained load stay where they are: there is one for every shard the target does not own, and
  neither the target's removal nor its return changes the owner any of them is routed to.
\<close>

theorem stable_keys_stay:
  assumes "buildStableEntries s target namespace = Inr entries" and "validateExactHRW s = Inr ()" and "2 \<le> fmlen (tNodes s)"
    and "removal_of target s after" and "e \<in> set entries"
  shows "fmget (tShardMap after) (ShardForKey (seKey e) (tShardCount after)) = seOwner e \<and> seOwner e \<noteq> target"
proof -
  let ?ids = "sortedNodeIDs (tNodes s)" and ?sh = "seShard e"
  note rest = rest_nonempty [OF assms(3), of target]
  then have ids: "?ids \<noteq> []"
    by auto
  have e: "?sh < tShardCount s" "fmget (tShardMap s) ?sh \<noteq> target" "ShardForKey (seKey e) (tShardCount s) = ?sh"
      "seOwner e = fmget (tShardMap s) ?sh"
    using stable_entries [OF assms(1)] assms(5) by blast+
  have "fmget (tShardMap s) ?sh = hd (ranking ?sh ?ids)" "fmget (tShardMap after) ?sh = hd (ranking ?sh (filter (\<lambda>i. i \<noteq> target) ?ids))"
    using assms(2,4) e(1) rest ids by (simp_all add: removal_of_def validateExactHRW_iff sortedNodeIDs_drop fmget_AssignShards)
  then have "fmget (tShardMap after) ?sh = fmget (tShardMap s) ?sh"
    using owner_without(1) [OF rest] e(2) by simp
  then show ?thesis
    using e assms(4) by (simp add: removal_of_def)
qed

subsection \<open>The load\<close>



subsection \<open>Publication\<close>

text \<open>
  Publication is atomic: through all the states the file system goes through, the published path holds
  what it held before or the complete new content, and in the end the temporary file is gone, with the new content
  published exactly when no error is returned.
\<close>

theorem writeAtomic_publishes:
  assumes "writeAtomic env partial path data fs = (states, err)"
    and "\<And>tmp. feCreate env = Inr tmp \<Longrightarrow> tmp \<noteq> path \<and> fmlookup fs tmp = None"
  shows "(\<forall>fs' \<in> set states. fmlookup fs' path = fmlookup fs path \<or> fmlookup fs' path = Some data) \<and>
    last states = (if err = None then fmupd path data fs else fs)"
proof -
  have drop: "fmdrop tmp (fmupd tmp v fs) = fs" "fmdrop tmp (fmupd path v fs) = fmupd path v fs"
    if "feCreate env = Inr tmp" for tmp v
    using assms(2) [OF that] by (auto intro!: fmap_ext)
  show ?thesis
    using assms(1) drop assms(2)
    by (auto simp: writeAtomic_def Let_def split: option.splits sum.splits)
qed

subsection \<open>Transitions\<close>






subsection \<open>The leader scenario\<close>




subsection \<open>The run\<close>









subsection \<open>Termination\<close>

lemma poll_eventually:
  assumes "\<exists>n. \<forall>s. \<exists>r. step n s = Inl r"
  shows "\<exists>r. poll step 0 s = Some r"
proof -
  obtain n where "\<forall>s. \<exists>r. step n s = Inl r"
    using assms by blast
  then show ?thesis
    using poll_returns [of 0 n step s] by simp
qed

lemma acks_return: "acks_end rounds \<Longrightarrow> \<exists>r. putWithAckConverging invalidArgument rounds key val acks = Some r"
  unfolding putWithAckConverging_def acks_end_def
  by (rule poll_eventually) (auto simp: ack_attempt_def split: sum.split)

lemma promos_return: "promos_end rounds \<Longrightarrow> \<exists>r. promotion_poll rounds kind owner address entry = Some r"
  unfolding promotion_poll_def promos_end_def
  by (rule poll_eventually, erule ex_forward) (auto simp: promotion_attempt_def Let_def split: sum.split option.split)

lemma epochs_return: "epochs_end rounds \<Longrightarrow> \<exists>r. verifyEpoch rounds s baseline target shard keyPrefix epoch = Some r"
  unfolding verifyEpoch_def epochs_end_def
  by (rule poll_eventually, erule ex_forward) (auto simp: epoch_attempt_def split: option.split)

lemma transition_returns:
  "\<exists>k e. trTop (rounds k) = WaitDone e \<Longrightarrow> \<exists>r. waitForTransition wrap rounds n preferred previous baseline target kind = Some r"
  unfolding waitForTransition_def
  by (rule poll_eventually, erule ex_forward) (auto simp: transition_round_def)

lemma leaders_return:
  assumes "leaders_end rounds"
  shows "\<exists>r. awaitLeaderConsensus addresses rounds changedFrom n = Some r" "\<exists>r. awaitFailover addresses rounds baseline = Some r"
    "\<exists>r. awaitAllReplicas addresses rounds = Some r"
proof -
  obtain k where k: "lrLate (rounds k)"
    using assms by (auto simp: leaders_end_def)
  show "\<exists>r. awaitLeaderConsensus addresses rounds changedFrom n = Some r"
    unfolding awaitLeaderConsensus_def using k
    by (intro poll_returns [of 0 k]) (auto simp: consensus_round_def next_sweep_def Let_def split: option.split)
  show "\<exists>r. awaitFailover addresses rounds baseline = Some r"
    unfolding awaitFailover_def using k
    by (intro poll_returns [of 0 k]) (auto simp: failover_round_def next_sweep_def Let_def split: option.split)
  show "\<exists>r. awaitAllReplicas addresses rounds = Some r"
    unfolding awaitAllReplicas_def using k
    by (intro poll_returns [of 0 k]) (auto simp: all_round_def next_sweep_def Let_def split: option.split)
qed

lemma seeding_returns: "\<forall>shard. acks_end (rounds shard) \<Longrightarrow> \<exists>r. seedPromotionKeys invalidArgument rounds dp s entries = Some r"
proof (induction entries)
  case (Cons entry entries)
  obtain r where "putWithAckConverging invalidArgument (rounds (peShard entry)) (peKey entry) (peValue entry)
      (word_of_nat (length (topology_Replicas s (peShard entry)))) = Some r"
    using acks_return Cons.prems by blast
  then have "seed_promotion invalidArgument (rounds (peShard entry)) (dp (peShard entry)) s entry \<noteq> None"
    by (simp add: seed_promotion_def Let_def split: sum.split)
  then show ?case
    using Cons by (auto split: sum.split)
qed simp

lemma verify_entries_return:
  "\<forall>shard. promos_end (rounds shard) \<Longrightarrow> \<exists>r. verify_entries rounds before after kind entries report = Some r"
proof (induction entries arbitrary: report)
  case (Cons entry entries)
  have "\<exists>r. promotion_poll (rounds (peShard entry)) kind owner address entry = Some r" for owner address
    using promos_return Cons.prems by blast
  then show ?case
    using Cons by (auto simp: Let_def split: sum.split prod.split option.split) (metis option.distinct(1))
qed simp

lemma half_cycle_returns:
  assumes "half_ends obs"
  shows "\<exists>r. half_cycle wrap p promotion kind proofKind cyc index st obs = Some r"
proof -
  obtain previous preferred where st: "st = (previous, preferred)"
    by (cases st)
  obtain w where w: "waitForTransition wrap (hoRounds obs) (plReplicas p) preferred previous (plBaseline p) (stTarget (plCfg p)) kind = Some w"
    using transition_returns assms by (metis half_ends_def)
  obtain fe where e: "\<And>s baseline target shard keyPrefix epoch.
      verifyEpoch (hoEpoch obs) s baseline target shard keyPrefix epoch = Some (fe s baseline target shard keyPrefix epoch)"
    using epochs_return [of "hoEpoch obs"] assms unfolding half_ends_def by metis
  have nn: "verifyPromotion (hoPromo obs) before after entries k \<noteq> None" for before after entries k
    using verify_entries_return [of "hoPromo obs" before after k entries] assms
    by (simp add: half_ends_def verifyPromotion_def split: option.split sum.split) (metis option.distinct(1))
  define fv where "fv = (\<lambda>before after entries k. the (verifyPromotion (hoPromo obs) before after entries k))"
  have v: "verifyPromotion (hoPromo obs) before after entries k = Some (fv before after entries k)" for before after entries k
    unfolding fv_def by (rule option.collapse [symmetric]) (rule nn)
  show ?thesis
    by (simp add: half_cycle_def st w e v Let_def split: option.split sum.split prod.split)
qed

lemma run_cycles_return:
  "\<forall>k. cycle_ends (obs k) \<Longrightarrow> \<exists>r. run_cycles wrap invalidArgument obs p n cyc promotion st reports = Some r"
proof (induction n arbitrary: cyc promotion st reports)
  case (Suc n)
  have h: "\<exists>r. half_cycle wrap p promotion kind proofKind cyc index st (coRemoval (obs cyc)) = Some r"
      "\<exists>r. half_cycle wrap p promotion kind proofKind cyc index st (coRejoin (obs cyc)) = Some r" for promotion kind proofKind index st
    using Suc.prems half_cycle_returns by (metis cycle_ends_def)+
  have s: "\<exists>r. seedPromotionKeys invalidArgument (coAcks (obs cyc)) (coWorld (obs cyc)) s entries = Some r" for s entries
    using Suc.prems seeding_returns by (metis cycle_ends_def)
  obtain a where a: "half_cycle wrap p promotion ''removal'' ''replica-promotion'' cyc (2 * cyc - 1) st (coRemoval (obs cyc)) = Some a"
    using h(1) by blast
  show ?case
  proof (cases a)
    case (Inr ra)
    obtain rep st' where ra: "ra = (rep, st')"
      by (cases ra)
    obtain b where b: "half_cycle wrap p promotion ''rejoin'' ''catch-up-after-rejoin'' cyc (2 * cyc) st' (coRejoin (obs cyc)) = Some b"
      using h(2) by blast
    show ?thesis
    proof (cases b)
      case (Inr rb)
      obtain rep' st'' where rb: "rb = (rep', st'')"
        by (cases rb)
      obtain c where c: "seedPromotionKeys invalidArgument (coAcks (obs cyc)) (coWorld (obs cyc)) (fst st'') (refreshPromotionValues promotion (int cyc)) = Some c"
        using s by blast
      show ?thesis
        using Suc.IH [OF Suc.prems] by (cases c) (simp_all add: a \<open>a = Inr ra\<close> ra b Inr rb c del: One_nat_def)
    qed (simp add: a Inr ra b del: One_nat_def)
  qed (simp add: a del: One_nat_def)
qed simp

lemma leader_scenario_returns:
  assumes "leaders_end (loBaseline obs)" and "leaders_end (loFailover obs)" and "leaders_end (loRejoin obs)"
  shows "\<exists>r. runLeaderScenario addresses obs = Some r"
proof -
  obtain b where b: "awaitLeaderConsensus addresses (loBaseline obs) [] (length addresses) = Some b"
    using leaders_return(1) [OF assms(1)] by blast
  obtain f where f: "\<And>baseline. awaitFailover addresses (loFailover obs) baseline = Some (f baseline)"
    using leaders_return(2) [OF assms(2)] by metis
  obtain a where a: "awaitAllReplicas addresses (loRejoin obs) = Some a"
    using leaders_return(3) [OF assms(3)] by blast
  show ?thesis
    by (auto simp: runLeaderScenario_def b f a split: option.split sum.split prod.split)
qed

text \<open>
  C40: The chaos run always comes to a verdict.  Whatever the cluster answers, the run returns once
  every wait's deadline passes: no reply, error or disagreement keeps one of its loops going.
\<close>

theorem chaos_run_returns:
  assumes "run_ends obs"
  shows "\<exists>r. chaos_run wrap invalidArgument cfg obs = Some r"
proof -
  obtain fe where e: "\<And>s baseline target shard keyPrefix epoch.
      verifyEpoch (cbEpoch obs) s baseline target shard keyPrefix epoch = Some (fe s baseline target shard keyPrefix epoch)"
    using epochs_return [of "cbEpoch obs"] assms unfolding run_ends_def by metis
  obtain fs where s: "\<And>s entries. seedPromotionKeys invalidArgument (cbAcks obs) (cbWorld obs) s entries = Some (fs s entries)"
    using seeding_returns [of "cbAcks obs"] assms unfolding run_ends_def by metis
  obtain fc where c: "\<And>p n cyc promotion st reports.
      run_cycles wrap invalidArgument (cbCycles obs) p n cyc promotion st reports = Some (fc p n cyc promotion st reports)"
    using run_cycles_return [of "cbCycles obs"] assms unfolding run_ends_def by metis
  obtain fl where l: "\<And>addresses. runLeaderScenario addresses (cbLeader obs) = Some (fl addresses)"
    using leader_scenario_returns [of "cbLeader obs"] assms unfolding run_ends_def by metis
  have "\<exists>r. chaos_verify wrap invalidArgument obs controlPlanes p promotion preferred = Some r" for controlPlanes p promotion preferred
    by (simp add: chaos_verify_def c l Let_def del: run_cycles.simps split: option.split sum.split prod.split)
  then obtain fv where v: "\<And>controlPlanes p promotion preferred.
      chaos_verify wrap invalidArgument obs controlPlanes p promotion preferred = Some (fv controlPlanes p promotion preferred)"
    by metis
  show ?thesis
    by (simp add: chaos_run_def e s v split: option.split sum.split prod.split)
qed

subsection \<open>A passing run\<close>

















theorem chaos_run_returns_witness:
  "\<exists>r. chaos_run (\<lambda>_. ()) (\<lambda>_. False) sample_settings sample_run = Some r"
proof -
  have "half_ends (sample_half t address epoch)" for t address epoch
    unfolding half_ends_def epochs_end_def promos_end_def
    by (intro conjI allI exI [of _ 1]) (auto simp: sample_half_def sample_epoch_def)
  then have "run_ends sample_run"
    by (auto simp: run_ends_def epochs_end_def acks_end_def leaders_end_def cycle_ends_def sample_run_def sample_acks_def sample_late_def
        sample_epoch_def)
  then show ?thesis
    by (rule chaos_run_returns)
qed

end
