(* ===== verification/Spec2Isabelle.thy ===== *)
theory Spec2Isabelle
  imports Router Membership Membership_Manager Metastore_Bridge Topology Cluster_Config Metadata_Service Pulse_Client Metrics_Laws Sidecar_Laws Control_Plane_Laws Chaos_Laws
begin

text \<open>
  Verification of the PulseKV control plane (Go, under \<^verbatim>\<open>src/control\<close>): placement, gossip membership,
  the replicated metadata, the metadata service, the cluster SDK, and the processes around them.

  \<^bold>\<open>The program.\<close>  Data nodes announce themselves through gossip.  Every control-plane replica runs a gossip
  participant (\<^verbatim>\<open>internal/membership\<close>) whose view lists the live nodes.  The replica that leads the Raft group
  proposes its view to the group (\<^verbatim>\<open>internal/metastore/bridge.go\<close>); the state machine
  (\<^verbatim>\<open>fsm.go\<close>, \<^verbatim>\<open>state.go\<close>) applies it, and the index of the log entry that changed the state is the topology's
  generation.  The metadata service (\<^verbatim>\<open>internal/metadata\<close>) answers clients from the committed state: it assigns
  shards to nodes by rendezvous hashing (\<^verbatim>\<open>internal/router\<close>) and signs the result with a
  fingerprint (\<^verbatim>\<open>internal/topology\<close>).  A client (\<^verbatim>\<open>pkg/client\<close>) fetches node list and shard map until the two
  describe one topology, validates it, routes every key to its shard's owner, and moves values in one message
  or in chunks (\<^verbatim>\<open>internal/transport\<close>).  The processes are the control plane itself, the gossip sidecar of a
  data node, the Prometheus exporter and the chaos verifier (\<^verbatim>\<open>cmd/\<close>), all started from one
  configuration (\<^verbatim>\<open>internal/config\<close>).

  \<^bold>\<open>How it is represented.\<close>  \<open>Pulse_Prelude\<close> says how Go values are represented.  Each operation is one definition
  with the source's name, on explicit state: records for structs, finite maps for Go maps, words for
  unsigned integers, sums with the error on the left.  Where Go visits a map in arbitrary order the order is an
  argument and the theorems hold for each.  Where code runs under a mutex an operation is atomic; where a lock is released
  half-way (\<open>client_step\<close>) or goroutines interleave (the exporter, the workers), the steps may interleave in any
  order.  Third-party code (Raft, memberlist, gRPC, the YAML decoder), the clock and the network are arguments:
  functions or records of what they answer, round by round.  Loops that poll until something happens
  may not end; they are \<open>partial_function (option)\<close> with \<open>None\<close> for not returning (\<open>Go_Poll\<close> for the chaos verifier), and
  that they return is proved.  The only fuel is the JSON parser's, \<open>Suc (2 * length s)\<close>: \<open>parse_value_fuel\<close> shows that
  more gives the same answer.

  \<^bold>\<open>Which theory models what.\<close>
  \<^item> \<open>Go_Hash\<close>, \<open>Go_Text\<close>, \<open>Go_Json\<close>, \<open>Json_Laws\<close>, \<open>Go_Path\<close>, \<open>Host_Text\<close>, \<open>Go_Poll\<close>: the parts of Go's library the code
    uses (FNV-1a, SHA-256, strings, host-port texts, JSON, paths, polling loops) and their laws.
  \<^item> \<open>Router\<close>: \<^verbatim>\<open>internal/router/router.go\<close>.  The scan of \<open>AssignShards\<close> and the bounded insertion of
    \<open>AssignShardOwners\<close> compute the same ranking; a node's departure moves only its shards, each to its first replica.
  \<^item> \<open>Membership\<close>, \<open>Membership_Manager\<close>: \<^verbatim>\<open>internal/membership\<close>.  Metadata round trip, the invariant of every view gossip
    can produce, the life cycle of a participant.
  \<^item> \<open>Metastore\<close>, \<open>Metastore_Store\<close>, \<open>Metastore_Bridge\<close>: \<^verbatim>\<open>internal/metastore\<close>.  Commands and snapshots round trip, the
    state machine's invariant, what a generation identifies, when a replica may serve, what a failed
    start releases, and which proposals a leader may make.
  \<^item> \<open>Topology\<close>, \<open>Metadata_Service\<close>: \<^verbatim>\<open>internal/topology\<close>, \<^verbatim>\<open>internal/metadata\<close>.  Exactly what validation accepts, that
    the fingerprint's input is an injective code of the topology, that a fetch is coherent, and that what the
    service publishes is accepted.  \<open>membership_source\<close> is the service's contract with its
    source, met by the gossip view and by the store.
  \<^item> \<open>Transport\<close>, \<open>Conn_Pool\<close>, \<open>Pulse_Client\<close>: \<^verbatim>\<open>internal/transport\<close>, \<^verbatim>\<open>pkg/client\<close>.  The chunk round trip, routing, falling
    back between replicas, and that no connection is leaked under any interleaving.
  \<^item> \<open>Cluster_Config\<close>: \<^verbatim>\<open>internal/config\<close>.  Validation, characterised exactly.
  \<^item> \<open>Prom_Export\<close>, \<open>Metrics_Exporter\<close>, \<open>Metrics_Laws\<close>: \<^verbatim>\<open>internal/promexport\<close>, \<^verbatim>\<open>cmd/pulsekv-metrics\<close>.
  \<^item> \<open>Member_Sidecar\<close>, \<open>Sidecar_Laws\<close>: \<^verbatim>\<open>cmd/pulsekv-member\<close>.
  \<^item> \<open>Control_Plane\<close>, \<open>Control_Plane_Laws\<close>: \<^verbatim>\<open>cmd/controlplane\<close>.
  \<^item> \<open>Chaos_Checks\<close>, \<open>Chaos_Run\<close>, \<open>Chaos_Scenario\<close>, \<open>Chaos_Main\<close>, \<open>Chaos_Laws\<close>: \<^verbatim>\<open>cmd/pulsekv-chaos\<close>.  Its judgements are exact, a
    passing run proves what it claims, and every run ends.
  \<^item> This theory: what spans components.  A gossip view becomes the committed state and the published placement,
    a client routes a key to the node that wins its shard, and replicas of one log never look split to the
    verifier.

  \<^bold>\<open>Not modelled.\<close>  Flag parsing, signals, log output, HTTP and gRPC servers, and the fields of reports that are
  \<^verbatim>\<open>float64\<close> arithmetic, which has no counterpart in the library used here; \<^verbatim>\<open>replicaFactor + 1\<close> in
  \<open>AssignShardOwners\<close> is not wrapped, so the model agrees with the code below \<^verbatim>\<open>math.MaxInt\<close>.  The load generators,
  the smoke test and the example (\<^verbatim>\<open>cmd/pulsekv-cluster-bench\<close>, \<^verbatim>\<open>pulsekv-node-bench\<close>, \<^verbatim>\<open>pulsekv-smoke\<close>,
  \<^verbatim>\<open>pulsekv-example\<close>) are clients of the parts above: what they compute themselves is timing
  statistics and a fixed sequence of calls.  The generated protocol code (\<^verbatim>\<open>gen/\<close>), the storage engine in C,
  the adapters and the gateway in Python are other programs that meet this one only in the protocol.
\<close>

subsection \<open>From gossip to clients\<close>







subsection \<open>From the service to the client\<close>

text \<open>A replica whose first attempt answers with this content, possibly under two generations.\<close>

definition replica_serves :: "Service \<Rightarrow> Node list \<Rightarrow> int \<Rightarrow> (nat \<Rightarrow> 'e attempt) \<Rightarrow> bool" where
  "replica_serves s ns f attempts \<longleftrightarrow>
     (\<exists>o1 o2 ob1 ob2 n m. (GetNodeList o1 s ob1 :: unit svc_error + GetNodeListResponse) = Inr n \<and>
        (GetShardMap o2 s ob2 :: unit svc_error + GetShardMapResponse) = Inr m \<and>
        Nodes (obSnapshot ob1) = ns \<and> Nodes (obSnapshot ob2) = ns \<and>
        effective_factor s (obSnapshot ob1) = f \<and> effective_factor s (obSnapshot ob2) = f \<and>
        attempts 1 = \<lparr>atContext = None, atNodes = Inr n, atShards = Inr m\<rparr>)"

lemma replica_serves_topology:
  assumes "replica_serves s ns f attempts" and "svShardCount s \<noteq> 0" and "length ns < 2 ^ 32"
  shows "\<exists>t. Fetch attempts = Inr t \<and> tShardCount t = svShardCount s \<and>
    tShardMap t = AssignShards (map NodeID ns) (svShardCount s) \<and>
    tNodes t = node_map (map wire_node ns) \<and> complete_nodes ns \<and> unambiguous ns"
proof -
  obtain o1 o2 ob1 ob2 n m where r: "(GetNodeList o1 s ob1 :: unit svc_error + GetNodeListResponse) = Inr n"
      "(GetShardMap o2 s ob2 :: unit svc_error + GetShardMapResponse) = Inr m"
      "Nodes (obSnapshot ob1) = ns" "Nodes (obSnapshot ob2) = ns" "effective_factor s (obSnapshot ob1) = f"
      "effective_factor s (obSnapshot ob2) = f" "attempts 1 = \<lparr>atContext = None, atNodes = Inr n, atShards = Inr m\<rparr>"
    using assms(1) by (auto simp: replica_serves_def)
  obtain t where t: "fetch_attempt (attempts 1) = Some (Inr t)"
      "topology_FingerprintInput t = fingerprintInput (the_placement s (obSnapshot ob2))"
    using fetch_attempt_published [OF assms(2) r(1,2), of "attempts 1"] r assms(3) by auto
  have "complete_nodes ns \<and> unambiguous ns"
    using r(1,3) service_snapshot_ok [of s ob1] by (auto simp: GetNodeList_def split: sum.splits)
  moreover have "Fetch attempts = Inr t"
    using Fetch_decides [of 1 attempts "Inr t"] t(1) by auto
  ultimately show ?thesis
    using t(2) r(4) by (auto simp: topology_FingerprintInput_def fingerprintInput_def the_placement_def wire_node_map)
qed

lemma placement_routes:
  assumes "complete_nodes ns" and "unambiguous ns" and "ns \<noteq> []" and "tShardCount (clTopology c) \<noteq> 0" and "\<not> clClosed c"
    and "tShardMap (clTopology c) = AssignShards (map NodeID ns) (tShardCount (clTopology c))"
    and "tNodes (clTopology c) = node_map (map wire_node ns)"
    and shard: "shard = ShardForKey key (tShardCount (clTopology c))"
  shows "\<exists>node \<in> set ns. route_key c key = (Inr (Address node) :: 'e client_error + string) \<and>
    (\<forall>other \<in> set ns. other \<noteq> node \<longrightarrow> candidate shard (NodeID node) < candidate shard (NodeID other))"
proof -
  let ?t = "clTopology c"
  have "responses_ok (tShardCount ?t) (map wire_node ns) (tShardMap ?t)
    (fmmap (\<lambda>o'. Some (ShardOwners (Primary o') (Replicas o'))) (AssignShardOwners (map NodeID ns) (tShardCount ?t) 0))"
    using placement_responses_ok [OF assms(1,2,4), of 0] assms(6) by simp
  from route_responses_ok [where ?'a = 'e, OF this assms(7) _ refl assms(5), of key]
  obtain owner address where o: "fmlookup (tShardMap ?t) shard = Some owner" "fmlookup (tNodes ?t) owner = Some address"
      "route_key c key = (Inr address :: 'e client_error + string)"
    using assms(3) by (auto simp: shard)
  have "nodes_ok (map wire_node ns)"
    using wire_nodes_ok [OF assms(1,2)] .
  from node_map_entry [OF o(2) [unfolded assms(7)] this]
  obtain node where n: "node \<in> set ns" "NodeID node = owner" "Address node = address"
    by (auto simp: wire_node_def)
  have own: "owner = hd (ranking shard (map NodeID ns))"
    using o(1) by (simp add: assms(6) AssignShards_lookup split: if_splits)
  have inj: "inj_on NodeID (set ns)"
    using assms(2) by (simp add: unambiguous_def distinct_map)
  have "candidate shard (NodeID node) < candidate shard (NodeID other)" if "other \<in> set ns" "other \<noteq> node" for other
  proof -
    have "NodeID other \<noteq> owner"
      using inj_onD [OF inj, of other node] that n by auto
    then show ?thesis
      using hd_ranking_best [of "NodeID other" "map NodeID ns" shard] that n(2) own by simp
  qed
  with n o(3) show ?thesis
    by blast
qed

text \<open>
  C1: A key reaches the node that wins its shard.  When every replica that answers serves the
  membership \<open>ns\<close>, a client whose refresh succeeded routes a key to the address of the node of
  \<open>ns\<close> with the highest weight for the key's shard, ties going to the smaller identifier.
\<close>

theorem client_reaches_owner:
  assumes "svShardCount s \<noteq> 0" and "ns \<noteq> []" and "length ns < 2 ^ 32"
    and "\<And>i t. Fetch (attempts i) = (Inr t :: 'e fetch_error + Topology) \<Longrightarrow> replica_serves s ns f (attempts i)"
    and "clEndpoints (csClient c) \<noteq> []" and "refresh ctx (\<lambda>i. Fetch (attempts i)) order c = (c', None)"
  shows "\<exists>node \<in> set ns. route_key (csClient c') key = (Inr (Address node) :: 'e client_error + string) \<and>
    (\<forall>other \<in> set ns. other \<noteq> node \<longrightarrow>
       (let shard = ShardForKey key (svShardCount s)
        in weight shard (NodeID other) < weight shard (NodeID node) \<or>
           weight shard (NodeID other) = weight shard (NodeID node) \<and> NodeID node < NodeID other))"
proof -
  let ?t = "clTopology (csClient c')"
  obtain i where i: "Fetch (attempts i) = Inr ?t"
    using refresh_ok [OF assms(6)] fetchTopology_from [OF _ assms(5)] by metis
  have t: "tShardCount ?t = svShardCount s" "tShardMap ?t = AssignShards (map NodeID ns) (svShardCount s)"
      "tNodes ?t = node_map (map wire_node ns)" "complete_nodes ns" "unambiguous ns"
    using replica_serves_topology [OF assms(4) [OF i] assms(1,3)] i by auto
  obtain node where "node \<in> set ns" "route_key (csClient c') key = (Inr (Address node) :: 'e client_error + string)"
      "\<forall>other \<in> set ns. other \<noteq> node \<longrightarrow>
        candidate (ShardForKey key (svShardCount s)) (NodeID node) < candidate (ShardForKey key (svShardCount s)) (NodeID other)"
    using placement_routes [where ?'e = 'e, OF t(4,5) assms(2), of "csClient c'" "ShardForKey key (svShardCount s)" key] t
      refresh_ok [OF assms(6)] assms(1) by auto
  then show ?thesis
    by (intro bexI [of _ node]) (auto simp: candidate_def RankedNode_less Let_def)
qed

theorem client_reaches_owner_witness:
  "\<exists>attempts c' node. refresh (\<lambda>_. None) (\<lambda>_. Fetch attempts) [] sample_cstate = (c', None :: unit client_error option) \<and>
     node \<in> set (Nodes (view_Snapshot sample_view)) \<and>
     route_key (csClient c') ''k'' = (Inr (Address node) :: unit client_error + string)"
proof -
  let ?ns = "Nodes (view_Snapshot sample_view)" let ?ob = "view_obs sample_view"
  obtain n m where nm: "(GetNodeList [0, 1] sample_service ?ob :: unit svc_error + GetNodeListResponse) = Inr n"
      "(GetShardMap [1, 0] sample_service ?ob :: unit svc_error + GetShardMapResponse) = Inr m"
    using sample_answers [OF sample_reach] by blast
  let ?at = "\<lambda>_. \<lparr>atContext = None, atNodes = Inr n, atShards = Inr m\<rparr> :: unit attempt"
  have serves: "replica_serves sample_service ?ns 1 ?at"
    unfolding replica_serves_def using nm
    by (intro exI [of _ "[0, 1]"] exI [of _ "[1, 0]"] exI [of _ ?ob] exI [of _ n] exI [of _ m])
      (auto simp: view_obs_def effective_factor_def view_Snapshot_def cloneSnapshot_def sample_view_def sample_service_def)
  have ns: "?ns \<noteq> []" "length ?ns < 2 ^ 32"
    by (simp_all add: view_Snapshot_def cloneSnapshot_def sample_view_def)
  obtain t where "Fetch ?at = Inr t"
    using replica_serves_topology [OF serves] ns by (auto simp: sample_service_def)
  from sample_refresh [OF this]
  obtain c' where r: "refresh (\<lambda>_. None) (\<lambda>_. Fetch ?at) [] sample_cstate = (c', None :: unit client_error option)"
    by blast
  have "\<exists>node \<in> set ?ns. route_key (csClient c') ''k'' = (Inr (Address node) :: unit client_error + string)"
    using client_reaches_owner [where attempts = "\<lambda>_. ?at" and s = sample_service and f = 1 and key = "''k''", OF _ ns _ _ r] serves
    by (auto simp: sample_service_def sample_cstate_def sample_client_def)
  with r show ?thesis
    by blast
qed

subsection \<open>The verifier over the control plane\<close>

text \<open>What a replica answers from: some prefix of the group's log, through a metadata service of the group's shard count.\<close>

definition log_snapshot :: "raftLog list \<Rightarrow> nat \<Rightarrow> Snapshot" where
  "log_snapshot es i = State_Snapshot (fsm_State (apply_log (take i es) newFSM))"

definition serves_log :: "u32 \<Rightarrow> raftLog list \<Rightarrow> (nat \<Rightarrow> 'e attempt) \<Rightarrow> bool" where
  "serves_log n es attempts \<longleftrightarrow> (\<forall>k.
     (\<forall>nl. atNodes (attempts k) = Inr nl \<longrightarrow> length (nlNodes nl) < 2 ^ 32) \<and>
     (\<forall>sm. atShards (attempts k) = Inr sm \<longrightarrow> (\<exists>s o' ob i. svShardCount s = n \<and> obSnapshot ob = log_snapshot es i \<and>
        (GetShardMap o' s ob :: unit svc_error + GetShardMapResponse) = Inr sm)))"

lemma log_prefixes:
  assumes "sorted_wrt (<) (0 # map Index es)" and "Generation (log_snapshot es i) = Generation (log_snapshot es j)"
  shows "log_snapshot es i = log_snapshot es j"
proof -
  have "log_snapshot es i = log_snapshot es j" if "i \<le> j" "Generation (log_snapshot es i) = Generation (log_snapshot es j)" for i j
  proof -
    have t: "take i es @ drop i (take j es) = take j es"
      using that(1) by (metis append_take_drop_id min.absorb1 take_take)
    have "sorted_wrt (<) (0 # map Index (take j es))"
      using sorted_wrt_take [OF assms(1), of "Suc j"] by (simp add: take_map)
    then have s: "sorted_wrt (<) (0 # map Index (take i es @ drop i (take j es)))"
      unfolding t .
    have "sGeneration (state (apply_log (take i es) newFSM)) = sGeneration (state (apply_log (take j es) newFSM))"
      using that(2) by (simp add: log_snapshot_def State_Snapshot_def fsm_State_def Clone_def)
    then have "state (apply_log (take i es) newFSM) = state (apply_log (take j es) newFSM)"
      using prefix_generation [OF s] unfolding t by simp
    then show ?thesis
      by (simp add: log_snapshot_def fsm_State_def)
  qed
  then show ?thesis
    using assms(2) by (metis nle_le)
qed

lemma served_topology:
  assumes "serves_log n es attempts" and "Fetch attempts = Inr t"
  shows "live t \<or> fmlen (tNodes t) = 0"
    and "\<exists>s i. svShardCount s = n \<and> tGeneration t = Generation (log_snapshot es i) \<and>
      tFingerprint t = Fingerprint (fingerprintInput (the_placement s (log_snapshot es i)))"
proof -
  obtain k where k: "fetch_attempt (attempts k) = Some (Inr t)"
    using Fetch_decided [OF assms(2)] by blast
  have "\<And>nl. atNodes (attempts k) = Inr nl \<Longrightarrow> length (nlNodes nl) < 2 ^ 32"
    using assms(1) unfolding serves_log_def by blast
  then obtain nl sm where c: "atNodes (attempts k) = Inr nl" "atShards (attempts k) = Inr sm" "coherent nl sm t"
    using fetch_attempt_coherent [OF k] by blast
  have ok: "responses_ok (tShardCount t) (nlNodes nl) (tShardMap t) (smShardToOwners sm)" "tNodes t = node_map (nlNodes nl)"
    using c(3) by (simp_all add: coherent_def)
  show "live t \<or> fmlen (tNodes t) = 0"
  proof (cases "nlNodes nl = []")
    case True
    then show ?thesis
      by (simp add: ok(2) node_map_def)
  next
    case False
    have "live t"
      unfolding live_def
    proof (intro allI impI)
      fix shard
      assume "shard < tShardCount t"
      then have "shard_ok (tNodes t) (tShardMap t) (smShardToOwners sm) shard"
        using ok False by (simp add: responses_ok_def list_all_iff)
      then obtain p a where p: "fmlookup (tShardMap t) shard = Some p" "fmlookup (tNodes t) p = Some a"
        by (auto simp: shard_ok_def)
      have "nodes_ok (nlNodes nl)"
        using ok(1) by (simp add: responses_ok_def)
      then have "p \<noteq> []"
        using node_map_entry [OF p(2) [unfolded ok(2)]] by (auto simp: nodes_ok_def)
      then show "\<exists>owner. fmlookup (tShardMap t) shard = Some owner \<and> owner \<noteq> [] \<and> fmlookup (tNodes t) owner \<noteq> None"
        using p by auto
    qed
    then show ?thesis ..
  qed
  obtain s o' ob i where s: "svShardCount s = n" "obSnapshot ob = log_snapshot es i"
      "(GetShardMap o' s ob :: unit svc_error + GetShardMapResponse) = Inr sm"
    using assms(1) c(2) unfolding serves_log_def by blast
  have m: "smGeneration sm = Generation (log_snapshot es i)" "smFingerprint sm = Fingerprint (fingerprintInput (the_placement s (log_snapshot es i)))"
    using s by (auto simp: GetShardMap_def placement_of_eq service_snapshot_ok split: sum.splits if_splits)
  have "length (Fingerprint (fingerprintInput (the_placement s (log_snapshot es i)))) = FingerprintSize"
    by (simp add: Fingerprint_def FingerprintSize_def)
  then have "smFingerprint sm \<noteq> []"
    by (auto simp: m FingerprintSize_def)
  then show "\<exists>s i. svShardCount s = n \<and> tGeneration t = Generation (log_snapshot es i) \<and>
      tFingerprint t = Fingerprint (fingerprintInput (the_placement s (log_snapshot es i)))"
    using c(3) s(1) m by (intro exI [of _ s] exI [of _ i]) (auto simp: coherent_def)
qed

lemma snaps_observed:
  assumes "t \<in> set (snaps (observeReplicas addresses replies))"
  shows "\<exists>i < length addresses. replies i = Inr t"
proof -
  have "\<exists>ob \<in> set obs. roSnapshot ob = Some t" if "t \<in> set (snaps obs)" for obs
    using that by (induction obs) (auto split: option.splits)
  then obtain ob where "ob \<in> set (observeReplicas addresses replies)" "roSnapshot ob = Some t"
    using assms by blast
  then show ?thesis
    by (auto simp: observeReplicas_def in_set_enumerate_eq split: sum.splits)
qed

text \<open>
  C19: The chaos verifier never accuses a correct control plane.  When every topology its sweep read comes
  from replicas that have applied prefixes of one log, however far apart, the coherence check passes: replicas
  that lag publish an older generation, and a generation determines the fingerprint.
\<close>

theorem correct_replicas_coherent:
  assumes "sorted_wrt (<) (0 # map Index es)" and "\<forall>i < length addresses. serves_log n es (attempts i)"
  shows "checkReplicaCoherence (observeReplicas addresses (\<lambda>i. Fetch (attempts i))) = None"
proof -
  let ?obs = "observeReplicas addresses (\<lambda>i. Fetch (attempts i))"
  have read: "\<exists>i. serves_log n es (attempts i) \<and> Fetch (attempts i) = Inr t" if "t \<in> set (snaps ?obs)" for t
    using snaps_observed [OF that] assms(2) by blast
  have fp: "tFingerprint t = tFingerprint t'"
    if tt: "t \<in> set (snaps ?obs)" "t' \<in> set (snaps ?obs)" "tGeneration t = tGeneration t'" for t t'
  proof -
    obtain s i where s: "svShardCount s = n" "tGeneration t = Generation (log_snapshot es i)"
        "tFingerprint t = Fingerprint (fingerprintInput (the_placement s (log_snapshot es i)))"
      using read [OF tt(1)] served_topology(2) by metis
    obtain s' i' where s': "svShardCount s' = n" "tGeneration t' = Generation (log_snapshot es i')"
        "tFingerprint t' = Fingerprint (fingerprintInput (the_placement s' (log_snapshot es i')))"
      using read [OF tt(2)] served_topology(2) by metis
    have "log_snapshot es i = log_snapshot es i'"
      using log_prefixes [OF assms(1)] s(2) s'(2) tt(3) by simp
    moreover have "the_placement s (log_snapshot es i') = the_placement s' (log_snapshot es i')"
      using s(1) s'(1) by (simp add: the_placement_def effective_factor_def log_snapshot_def State_Snapshot_def)
    ultimately show ?thesis
      using s(3) s'(3) by simp
  qed
  have "live t" if "t \<in> set (snaps ?obs)" "fmlen (tNodes t) > 0" for t
    using read [OF that(1)] served_topology(1) that(2) by (metis neq0_conv)
  then show ?thesis
    unfolding coherence_check_exact using fp by blast
qed

definition sample_log :: "raftLog list" where
  "sample_log = [\<lparr>Index = 3, Data = encodeCommand sample_state\<rparr>]"

definition log_obs :: "nat \<Rightarrow> unit svcObs" where
  "log_obs i = \<lparr>obReady = None, obSnapshot = log_snapshot sample_log i, obLeader = ([], 0)\<rparr>"

lemma sample_log_snapshots:
  "Generation (log_snapshot sample_log 0) = 0" "Nodes (log_snapshot sample_log 0) = []"
  "Generation (log_snapshot sample_log 1) = 3" "Nodes (log_snapshot sample_log 1) = [Node ''node-0'' ''h:1'', Node ''node-1'' ''h:2'']"
  "ReplicationFactor (log_snapshot sample_log 0) = Some 0" "ReplicationFactor (log_snapshot sample_log 1) = Some 1"
proof -
  let ?e = "\<lparr>Index = 3, Data = encodeCommand sample_state\<rparr>"
  have n: "normalizeNodes [Node ''node-0'' ''h:1'', Node ''node-1'' ''h:2''] = [Node ''node-0'' ''h:1'', Node ''node-1'' ''h:2'']"
    by (simp add: normalizeNodes_def less_eq_Node_def less_Node_def)
  have s: "state (fst (Apply ?e newFSM)) = \<lparr>sNodes = [Node ''node-0'' ''h:1'', Node ''node-1'' ''h:2''], sReplicationFactor = 1, sGeneration = 3\<rparr>"
    by (auto simp: Apply_state decode_encodeCommand [OF sample_content] sample_normal n newFSM_def zero_state_def dest: sym [where s = "[]"])
      (simp_all add: sample_state_def)
  have "state (apply_log (take 1 sample_log) newFSM) = state (fst (Apply ?e newFSM))"
    by (simp add: sample_log_def)
  then show "Generation (log_snapshot sample_log 1) = 3" "Nodes (log_snapshot sample_log 1) = [Node ''node-0'' ''h:1'', Node ''node-1'' ''h:2'']"
      "ReplicationFactor (log_snapshot sample_log 1) = Some 1"
    unfolding s log_snapshot_def fsm_State_def by (simp_all add: State_Snapshot_def Clone_def)
qed (simp_all add: log_snapshot_def State_Snapshot_def fsm_State_def Clone_def newFSM_def zero_state_def)

lemma sample_log_answers:
  assumes "i < 2"
  shows "\<exists>nl. GetNodeList [] sample_service (log_obs i) = Inr nl" "\<exists>sm. GetShardMap [] sample_service (log_obs i) = Inr sm"
proof -
  have "i = 0 \<or> i = 1"
    using assms by auto
  then have "service_snapshot sample_service (log_obs i) = Inr (log_snapshot sample_log i)" "\<not> effective_factor sample_service (log_snapshot sample_log i) < 0"
    by (auto simp: service_snapshot_ok log_obs_def sample_log_snapshots sample_log_snapshots [simplified] effective_factor_def complete_nodes_def
        unambiguous_def sample_state_def)
  then show "\<exists>nl. GetNodeList [] sample_service (log_obs i) = Inr nl" "\<exists>sm. GetShardMap [] sample_service (log_obs i) = Inr sm"
    by (simp_all add: GetNodeList_def GetShardMap_def placement_of_eq)
qed

theorem correct_replicas_coherent_witness:
  "\<exists>attempts t t'. Fetch (attempts 0) = (Inr t :: unit fetch_error + Topology) \<and> Fetch (attempts 1) = (Inr t' :: unit fetch_error + Topology) \<and>
     tGeneration t = 0 \<and> tGeneration t' = 3 \<and>
     checkReplicaCoherence (observeReplicas [''h:1'', ''h:2''] (\<lambda>i. Fetch (attempts i))) = None"
proof -
  obtain nl sm where r: "\<And>i. i < 2 \<Longrightarrow> GetNodeList [] sample_service (log_obs i) = Inr (nl i)" "\<And>i. i < 2 \<Longrightarrow> GetShardMap [] sample_service (log_obs i) = Inr (sm i)"
    using sample_log_answers by metis
  let ?a = "\<lambda>i _. \<lparr>atContext = None :: unit option, atNodes = Inr (nl i), atShards = Inr (sm i)\<rparr>"
  have len: "length (Nodes (log_snapshot sample_log i)) < 2 ^ 32" if "i < 2" for i
    using that by (auto simp: less_2_cases_iff sample_log_snapshots sample_log_snapshots [simplified] sample_state_def)
  have fetched: "\<exists>t. Fetch (?a i) = Inr t \<and> tGeneration t = Generation (log_snapshot sample_log i)" if i: "i < 2" for i
  proof -
    obtain t where "fetch_attempt (?a i 1) = Some (Inr t)" "tGeneration t = Generation (log_snapshot sample_log i)"
      using fetch_attempt_published [OF _ r(1) [OF i] r(2) [OF i], of "?a i 1"] len [OF i] by (auto simp: sample_service_def log_obs_def)
    then show ?thesis
      using Fetch_decides [of 1 "?a i" "Inr t"] by auto
  qed
  have nls: "length (nlNodes (nl i)) = length (Nodes (log_snapshot sample_log i))" if "i < 2" for i
    using r(1) [OF that]
    by (auto simp: GetNodeList_def placement_of_eq service_snapshot_ok log_obs_def dest!: arg_cong [where f = nlNodes] split: sum.splits if_splits)
      (metis length_map)
  have "serves_log 2 sample_log (?a i)" if "i < 2" for i
    unfolding serves_log_def using r(2) [OF that] len [OF that, folded nls [OF that]]
    by (intro allI conjI impI exI [of _ sample_service] exI [of _ "[]"] exI [of _ "log_obs i"] exI [of _ i])
      (auto simp: sample_service_def log_obs_def)
  then have "\<forall>i < length [''h:1'', ''h:2'']. serves_log 2 sample_log (?a i)"
    by (simp add: numeral_2_eq_2)
  then have "checkReplicaCoherence (observeReplicas [''h:1'', ''h:2''] (\<lambda>i. Fetch (?a i))) = None"
    by (intro correct_replicas_coherent [of sample_log]) (simp_all add: sample_log_def)
  with fetched [of 0] fetched [of 1] show ?thesis
    by (intro exI [of _ ?a]) (auto simp: sample_log_snapshots [simplified])
qed

end
